(* ===== verification/Go_Prelude.thy ===== *)
theory Go_Prelude
  imports Complex_Main "HOL-Library.Finite_Map" "HOL-Library.Word"
begin

text \<open>
  Shared vocabulary of the development.

  A Go map is a finite map (\<open>fmap\<close>): \<open>m[k]\<close> is \<open>fmlookup m k\<close>, \<open>m[k] = v\<close> is
  \<open>fmupd k v m\<close>, \<open>delete(m, k)\<close> is \<open>fmdrop k m\<close>, \<open>make(map...)\<close> is \<open>fmempty\<close>, and
  \<open>len(m) == 0\<close> is \<open>m = fmempty\<close>.  \<open>for k := range m\<close> visits every key once, in an order
  the language leaves open: such loops take the order as an argument \<open>ord\<close>, about which
  only \<open>map_order\<close> is assumed.  A map of maps that is pruned when an inner map becomes
  empty occurs in the broker and in the dealer; \<open>get2\<close>, \<open>put2\<close> and \<open>del2\<close> are its
  lookup, insertion and deletion, and their laws carry the proofs of both components.
\<close>

named_theorems gomap_simps "evaluation rules for finite maps"

lemmas [gomap_simps] = fmdrop_fmupd fmdrop_empty fmdom_fmupd fmdom_empty fmdom_drop

section \<open>Iteration order of maps\<close>

definition map_order :: "('k fset \<Rightarrow> 'k list) \<Rightarrow> bool" where
  "map_order ord \<longleftrightarrow> (\<forall>S. set (ord S) = fset S \<and> distinct (ord S))"

lemma map_order_set [simp]: "map_order ord \<Longrightarrow> set (ord S) = fset S"
  by (simp add: map_order_def)

lemma map_order_distinct [simp]: "map_order ord \<Longrightarrow> distinct (ord S)"
  by (simp add: map_order_def)

lemma distinct_sorted_list_of_fset [simp]: "distinct (sorted_list_of_fset S)"
  by (simp add: sorted_list_of_fset.rep_eq)

lemma map_order_sorted [intro, simp]: "map_order sorted_list_of_fset"
  by (simp add: map_order_def)

lemma map_order_rev [intro, simp]: "map_order (rev \<circ> sorted_list_of_fset)"
  by (simp add: map_order_def)

lemma map_order_empty [simp]: "map_order ord \<Longrightarrow> ord {||} = []"
  by (metis bot_fset.rep_eq map_order_set set_empty)

lemma map_order_single [simp]: "map_order ord \<Longrightarrow> ord {|k|} = [k]"
proof -
  assume a: "map_order ord"
  have s: "set (ord {|k|}) = {k}" and d: "distinct (ord {|k|})" using a by simp_all
  from distinct_card [OF d] s have "length (ord {|k|}) = 1" by simp
  then obtain x where "ord {|k|} = [x]" by (auto simp: length_Suc_conv)
  with s show ?thesis by simp
qed

section \<open>Maps of maps\<close>

definition get2 :: "('a, ('b, 'v) fmap) fmap \<Rightarrow> 'a \<Rightarrow> 'b \<Rightarrow> 'v option" where
  "get2 mm a b = (case fmlookup mm a of None \<Rightarrow> None | Some m \<Rightarrow> fmlookup m b)"

definition put2 :: "'a \<Rightarrow> 'b \<Rightarrow> 'v \<Rightarrow> ('a, ('b, 'v) fmap) fmap \<Rightarrow> ('a, ('b, 'v) fmap) fmap" where
  "put2 a b v mm =
     fmupd a (fmupd b v (case fmlookup mm a of None \<Rightarrow> fmempty | Some m \<Rightarrow> m)) mm"

definition del2 :: "'a \<Rightarrow> 'b \<Rightarrow> ('a, ('b, 'v) fmap) fmap \<Rightarrow> ('a, ('b, 'v) fmap) fmap" where
  "del2 a b mm =
     (case fmlookup mm a of
        None \<Rightarrow> mm
      | Some m \<Rightarrow> (if fmdrop b m = fmempty then fmdrop a mm else fmupd a (fmdrop b m) mm))"

definition no_empty :: "('a, ('b, 'v) fmap) fmap \<Rightarrow> bool" where
  "no_empty mm \<longleftrightarrow> (\<forall>a m. fmlookup mm a = Some m \<longrightarrow> m \<noteq> fmempty)"

lemma fmap_eq_empty_iff: "m = fmempty \<longleftrightarrow> (\<forall>k. fmlookup m k = None)"
  by (auto intro: fmap_ext)

lemma get2_fmempty [simp]: "get2 fmempty a b = None"
  by (simp add: get2_def)

lemma get2_put2 [simp]:
  "get2 (put2 a b v mm) a' b' = (if a' = a \<and> b' = b then Some v else get2 mm a' b')"
  by (auto simp: get2_def put2_def split: option.splits)

lemma get2_del2 [simp]:
  "get2 (del2 a b mm) a' b' = (if a' = a \<and> b' = b then None else get2 mm a' b')"
  by (cases "fmlookup mm a") (auto simp: get2_def del2_def fmap_eq_empty_iff split: option.splits if_splits)

lemma get2_fmdrop [simp]: "get2 (fmdrop a mm) a' b' = (if a' = a then None else get2 mm a' b')"
  by (simp add: get2_def)

lemma no_empty_fmempty [simp]: "no_empty fmempty"
  by (simp add: no_empty_def)

lemma no_empty_put2 [intro, simp]: "no_empty mm \<Longrightarrow> no_empty (put2 a b v mm)"
  by (auto simp: no_empty_def put2_def fmap_eq_empty_iff split: if_splits)
     (metis option.distinct(1))?

lemma no_empty_del2 [intro, simp]: "no_empty mm \<Longrightarrow> no_empty (del2 a b mm)"
  by (auto simp: no_empty_def del2_def split: option.splits if_splits)

lemma no_empty_fmdrop [intro, simp]: "no_empty mm \<Longrightarrow> no_empty (fmdrop a mm)"
  by (auto simp: no_empty_def split: if_splits)

lemma no_empty_lookup:
  assumes "no_empty mm" and "fmlookup mm a = Some m"
  obtains b v where "fmlookup m b = Some v" and "get2 mm a b = Some v"
  using assms by (fastforce simp: no_empty_def get2_def fmap_eq_empty_iff)

lemma no_empty_outer:
  "no_empty mm \<Longrightarrow> (\<exists>m. fmlookup mm a = Some m) \<longleftrightarrow> (\<exists>b v. get2 mm a b = Some v)"
  by (auto simp: get2_def split: option.splits) (metis no_empty_lookup)

text \<open>Two pruned maps of maps with the same entries are equal.\<close>

lemma get2_ext:
  assumes "no_empty mm" "no_empty mm'" and eq: "\<And>a b. get2 mm a b = get2 mm' a b"
  shows "mm = mm'"
proof (rule fmap_ext)
  fix a
  have dom: "(\<exists>m. fmlookup mm a = Some m) \<longleftrightarrow> (\<exists>m. fmlookup mm' a = Some m)"
    using no_empty_outer [OF assms(1), of a] no_empty_outer [OF assms(2), of a] eq by simp
  have "fmlookup m b = fmlookup m' b" if "fmlookup mm a = Some m" "fmlookup mm' a = Some m'" for m m' b
    using eq [of a b] that by (simp add: get2_def)
  then have eq_in: "m = m'" if "fmlookup mm a = Some m" "fmlookup mm' a = Some m'" for m m'
    using that by (blast intro: fmap_ext)
  show "fmlookup mm a = fmlookup mm' a"
  proof (cases "fmlookup mm a")
    case None
    then have "\<not> (\<exists>m. fmlookup mm' a = Some m)" using dom by simp
    with None show ?thesis by simp
  next
    case (Some m)
    with dom obtain m' where m': "fmlookup mm' a = Some m'" by auto
    with Some eq_in show ?thesis by simp
  qed
qed

lemma fmdrop_absent: "fmlookup m k = None \<Longrightarrow> fmdrop k m = m"
  by (rule fmap_ext) simp

lemma fmupd_same: "fmlookup m k = Some v \<Longrightarrow> fmupd k v m = m"
  by (rule fmap_ext) auto

text \<open>
  The guarded deletion of the source (look the inner map up, look the key up, delete, prune)
  is \<open>del2\<close> wherever no inner map is empty.
\<close>

lemma guarded_del2:
  assumes "no_empty mm"
  shows "(case fmlookup mm a of
            None \<Rightarrow> mm
          | Some m \<Rightarrow>
              (case fmlookup m b of
                 None \<Rightarrow> mm
               | Some _ \<Rightarrow> (if fmdrop b m = fmempty then fmdrop a mm else fmupd a (fmdrop b m) mm)))
         = del2 a b mm"
proof (cases "fmlookup mm a")
  case None
  then show ?thesis by (simp add: del2_def)
next
  case (Some m)
  with assms have "m \<noteq> fmempty" by (auto simp: no_empty_def)
  with Some show ?thesis
    by (cases "fmlookup m b") (simp_all add: del2_def fmdrop_absent fmupd_same)
qed

end
