(* ===== verification/Go_Values.thy ===== *)
theory Go_Values
  imports Go_Prelude
begin

text \<open>
  The dynamic values a WAMP message carries: what Go holds in an \<open>interface{}\<close>, tagged with
  its dynamic type.  A nil map or slice differs from an empty one, so \<open>dict\<close>
  (\<open>map[string]interface{}\<close>) and \<open>glist\<close> (\<open>[]interface{}\<close>) are options, with \<open>None\<close>
  for nil.  Numbers keep their width; a \<open>float64\<close> is the rational it denotes.
\<close>

type_synonym ID = "64 word"
type_synonym URI = string
type_synonym MessageType = "64 word"

datatype gval =
    VNil
  | VBool bool
  | VInt "64 word"
  | VInt64 "64 word"
  | VUint8 "8 word"
  | VUint64 "64 word"
  | VFloat64 rat
  | VString string
  | VBytes "8 word list"
  | VURI string
  | VID "64 word"
  | VMsgType "64 word"
  | VStruct0
  | VSlice "gval list option"
  | VStrings "string list"
  | VDict "(string, gval) fmap option"
  | VIMap "(gval \<times> gval) list"
  | VTyped string gval
  | VPtr "gval option"

type_synonym dict = "(string, gval) fmap option"
type_synonym glist = "gval list option"

text \<open>Reading a map: a nil map reads as an empty one.\<close>

definition dict_get :: "dict \<Rightarrow> string \<Rightarrow> gval option" where
  "dict_get d k = (case d of None \<Rightarrow> None | Some m \<Rightarrow> fmlookup m k)"

text \<open>\<open>v, ok := d[k].(bool)\<close>: \<open>None\<close> when the key is absent or the value is no bool.\<close>

definition dict_bool :: "dict \<Rightarrow> string \<Rightarrow> bool option" where
  "dict_bool d k = (case dict_get d k of Some (VBool b) \<Rightarrow> Some b | _ \<Rightarrow> None)"

abbreviation dict_make :: dict where
  "dict_make \<equiv> Some fmempty"

text \<open>\<open>if d == nil { d = make(...) }; d[k] = v\<close>: the guarded write of the source.\<close>

definition dict_set :: "string \<Rightarrow> gval \<Rightarrow> dict \<Rightarrow> dict" where
  "dict_set k v d = Some (fmupd k v (case d of None \<Rightarrow> fmempty | Some m \<Rightarrow> m))"

lemma dict_get_None [simp]: "dict_get None k = None"
  by (simp add: dict_get_def)

lemma dict_get_Some [simp]: "dict_get (Some m) k = fmlookup m k"
  by (simp add: dict_get_def)

lemma dict_get_set [simp]: "dict_get (dict_set k v d) k' = (if k' = k then Some v else dict_get d k')"
  by (cases d) (auto simp: dict_set_def)

lemma dict_set_not_nil [simp]: "dict_set k v d \<noteq> None"
  by (simp add: dict_set_def)

lemma dict_bool_None [simp]: "dict_bool None k = None"
  by (simp add: dict_bool_def)

lemma dict_bool_Some [simp]:
  "dict_bool (Some m) k = (case fmlookup m k of Some (VBool b) \<Rightarrow> Some b | _ \<Rightarrow> None)"
  by (simp add: dict_bool_def)

end
