(* ===== verification/Util.thy ===== *)
theory Util
  imports Go_Values
begin

text \<open>
  \<^verbatim>\<open>util.go\<close>: the error URIs and the identifier generator.  \<open>NewID\<close> draws from
  \<open>math/rand\<close>; the draw (the non-negative 63-bit number \<open>rand.Int63()\<close>) is an argument, so
  every operation that makes an identifier takes the draw it uses.
\<close>

definition ErrInvalidUri :: URI where "ErrInvalidUri = ''wamp.error.invalid_uri''"
definition ErrNoSuchProcedure :: URI where "ErrNoSuchProcedure = ''wamp.error.no_such_procedure''"
definition ErrProcedureAlreadyExists :: URI where
  "ErrProcedureAlreadyExists = ''wamp.error.procedure_already_exists''"
definition ErrNoSuchRegistration :: URI where
  "ErrNoSuchRegistration = ''wamp.error.no_such_registration''"
definition ErrNoSuchSubscription :: URI where
  "ErrNoSuchSubscription = ''wamp.error.no_such_subscription''"
definition ErrInvalidArgument :: URI where "ErrInvalidArgument = ''wamp.error.invalid_argument''"
definition ErrSystemShutdown :: URI where "ErrSystemShutdown = ''wamp.error.system_shutdown''"
definition ErrCloseRealm :: URI where "ErrCloseRealm = ''wamp.error.close_realm''"
definition ErrGoodbyeAndOut :: URI where "ErrGoodbyeAndOut = ''wamp.error.goodbye_and_out''"
definition ErrNotAuthorized :: URI where "ErrNotAuthorized = ''wamp.error.not_authorized''"
definition ErrAuthorizationFailed :: URI where
  "ErrAuthorizationFailed = ''wamp.error.authorization_failed''"
definition ErrNoSuchRealm :: URI where "ErrNoSuchRealm = ''wamp.error.no_such_realm''"
definition ErrNoSuchRole :: URI where "ErrNoSuchRole = ''wamp.error.no_such_role''"

definition ErrInternal :: URI where "ErrInternal = ''wamp.error.internal_error''"

lemmas err_uris = ErrInvalidUri_def ErrNoSuchProcedure_def ErrProcedureAlreadyExists_def
  ErrNoSuchRegistration_def ErrNoSuchSubscription_def ErrInvalidArgument_def
  ErrSystemShutdown_def ErrCloseRealm_def ErrGoodbyeAndOut_def ErrNotAuthorized_def
  ErrAuthorizationFailed_def ErrNoSuchRealm_def ErrNoSuchRole_def ErrInternal_def

unbundle bit_operations_syntax

definition maxID :: "64 word" where
  "maxID = push_bit 53 1"

text \<open>
  \<open>rand.Int63n(n)\<close> masks the draw when \<open>n\<close> is a power of two, which \<open>maxID\<close> is; \<open>ID(...)\<close>
  keeps the 64 bits.
\<close>

definition NewID :: "64 word \<Rightarrow> ID" where
  "NewID draw = draw AND (maxID - 1)"

lemma maxID_eq: "maxID = 2 ^ 53"
  by (simp add: maxID_def)

lemma NewID_take_bit: "NewID draw = take_bit 53 draw"
proof -
  have "(maxID - 1 :: 64 word) = mask 53"
    by (simp add: maxID_eq mask_eq_decr_exp)
  then show ?thesis by (simp add: NewID_def take_bit_eq_mask)
qed

lemma unat_NewID: "unat (NewID draw) = unat draw mod 2 ^ 53"
proof -
  have "unat (take_bit 53 draw) = take_bit 53 (unat draw)"
    by (rule unsigned_take_bit_eq)
  then show ?thesis
    by (simp only: NewID_take_bit take_bit_eq_mod [of 53 "unat draw"])
qed

lemma NewID_less: "unat (NewID draw) < 2 ^ 53"
  by (simp add: unat_NewID)

lemma NewID_id: "unat i < 2 ^ 53 \<Longrightarrow> NewID i = i"
  by (rule word_unat_eq_iff [THEN iffD2]) (simp add: unat_NewID)

text \<open>
  The identifiers the router draws are exactly the numbers below \<open>2^53\<close>: every 63-bit
  draw of the generator gives a number below the bound, and every such number (zero included) can be drawn.
\<close>

theorem NewID_range: "NewID ` {draw. unat draw < 2 ^ 63} = {i. unat i < 2 ^ 53}"
proof
  show "NewID ` {draw. unat draw < 2 ^ 63} \<subseteq> {i. unat i < 2 ^ 53}"
    using NewID_less by blast
  show "{i. unat i < 2 ^ 53} \<subseteq> NewID ` {draw. unat draw < 2 ^ 63}"
  proof
    fix i :: "64 word"
    assume "i \<in> {i. unat i < 2 ^ 53}"
    then have i: "unat i < 2 ^ 53" by simp
    then have "i = NewID i" and "unat i < 2 ^ 63" by (simp_all add: NewID_id)
    then show "i \<in> NewID ` {draw. unat draw < 2 ^ 63}" by blast
  qed
qed

end
