(* ===== verification/Messages.thy ===== *)
theory Messages
  imports Util
begin

text \<open>
  \<^verbatim>\<open>message.go\<close>: one record per message struct, with the fields in the order of
  the struct (the order of the WAMP wire format), the interface \<open>Message\<close> as a datatype with
  one constructor per struct, the message codes, and the three functions on codes.  A field
  \<open>F\<close> of a struct \<open>S\<close> is \<open>S_F\<close>; the pointer \<open>*S\<close> as a \<open>Message\<close> is \<open>MS\<close>.
\<close>

named_theorems mtypes "the numeric message codes"

section \<open>Message structs\<close>

record Hello =
  Hello_Realm :: URI
  Hello_Details :: dict

record Welcome =
  Welcome_Id :: ID
  Welcome_Details :: dict

record Abort =
  Abort_Details :: dict
  Abort_Reason :: URI

record Challenge =
  Challenge_AuthMethod :: string
  Challenge_Extra :: dict

record Authenticate =
  Authenticate_Signature :: string
  Authenticate_Extra :: dict

record Goodbye =
  Goodbye_Details :: dict
  Goodbye_Reason :: URI

record Error =
  Error_Type :: MessageType
  Error_Request :: ID
  Error_Details :: dict
  Error_Error :: URI
  Error_Arguments :: glist
  Error_ArgumentsKw :: dict

record Publish =
  Publish_Request :: ID
  Publish_Options :: dict
  Publish_Topic :: URI
  Publish_Arguments :: glist
  Publish_ArgumentsKw :: dict

record Published =
  Published_Request :: ID
  Published_Publication :: ID

record Subscribe =
  Subscribe_Request :: ID
  Subscribe_Options :: dict
  Subscribe_Topic :: URI

record Subscribed =
  Subscribed_Request :: ID
  Subscribed_Subscription :: ID

record Unsubscribe =
  Unsubscribe_Request :: ID
  Unsubscribe_Subscription :: ID

record Unsubscribed =
  Unsubscribed_Request :: ID

record Event =
  Event_Subscription :: ID
  Event_Publication :: ID
  Event_Details :: dict
  Event_Arguments :: glist
  Event_ArgumentsKw :: dict

record Call =
  Call_Request :: ID
  Call_Options :: dict
  Call_Procedure :: URI
  Call_Arguments :: glist
  Call_ArgumentsKw :: dict

record Result =
  Result_Request :: ID
  Result_Details :: dict
  Result_Arguments :: glist
  Result_ArgumentsKw :: dict

record Register =
  Register_Request :: ID
  Register_Options :: dict
  Register_Procedure :: URI

record Registered =
  Registered_Request :: ID
  Registered_Registration :: ID

record Unregister =
  Unregister_Request :: ID
  Unregister_Registration :: ID

record Unregistered =
  Unregistered_Request :: ID

record Invocation =
  Invocation_Request :: ID
  Invocation_Registration :: ID
  Invocation_Details :: dict
  Invocation_Arguments :: glist
  Invocation_ArgumentsKw :: dict

record Yield =
  Yield_Request :: ID
  Yield_Options :: dict
  Yield_Arguments :: glist
  Yield_ArgumentsKw :: dict

record Cancel =
  Cancel_Request :: ID
  Cancel_Options :: dict

record Interrupt =
  Interrupt_Request :: ID
  Interrupt_Options :: dict

datatype message =
    MHello Hello
  | MWelcome Welcome
  | MAbort Abort
  | MChallenge Challenge
  | MAuthenticate Authenticate
  | MGoodbye Goodbye
  | MError Error
  | MPublish Publish
  | MPublished Published
  | MSubscribe Subscribe
  | MSubscribed Subscribed
  | MUnsubscribe Unsubscribe
  | MUnsubscribed Unsubscribed
  | MEvent Event
  | MCall Call
  | MResult Result
  | MRegister Register
  | MRegistered Registered
  | MUnregister Unregister
  | MUnregistered Unregistered
  | MInvocation Invocation
  | MYield Yield
  | MCancel Cancel
  | MInterrupt Interrupt

text \<open>\<open>CallResult\<close>: what a procedure handler returns; an empty \<open>Err\<close> is success.\<close>

record CallResult =
  CallResult_Args :: glist
  CallResult_Kwargs :: dict
  CallResult_Err :: URI

section \<open>Message codes\<close>

definition HELLO :: MessageType where [mtypes]: "HELLO = 1"
definition WELCOME :: MessageType where [mtypes]: "WELCOME = 2"
definition ABORT :: MessageType where [mtypes]: "ABORT = 3"
definition CHALLENGE :: MessageType where [mtypes]: "CHALLENGE = 4"
definition AUTHENTICATE :: MessageType where [mtypes]: "AUTHENTICATE = 5"
definition GOODBYE :: MessageType where [mtypes]: "GOODBYE = 6"
definition ERROR :: MessageType where [mtypes]: "ERROR = 8"
definition PUBLISH :: MessageType where [mtypes]: "PUBLISH = 16"
definition PUBLISHED :: MessageType where [mtypes]: "PUBLISHED = 17"
definition SUBSCRIBE :: MessageType where [mtypes]: "SUBSCRIBE = 32"
definition SUBSCRIBED :: MessageType where [mtypes]: "SUBSCRIBED = 33"
definition UNSUBSCRIBE :: MessageType where [mtypes]: "UNSUBSCRIBE = 34"
definition UNSUBSCRIBED :: MessageType where [mtypes]: "UNSUBSCRIBED = 35"
definition EVENT :: MessageType where [mtypes]: "EVENT = 36"
definition CALL :: MessageType where [mtypes]: "CALL = 48"
definition CANCEL :: MessageType where [mtypes]: "CANCEL = 49"
definition RESULT :: MessageType where [mtypes]: "RESULT = 50"
definition REGISTER :: MessageType where [mtypes]: "REGISTER = 64"
definition REGISTERED :: MessageType where [mtypes]: "REGISTERED = 65"
definition UNREGISTER :: MessageType where [mtypes]: "UNREGISTER = 66"
definition UNREGISTERED :: MessageType where [mtypes]: "UNREGISTERED = 67"
definition INVOCATION :: MessageType where [mtypes]: "INVOCATION = 68"
definition INTERRUPT :: MessageType where [mtypes]: "INTERRUPT = 69"
definition YIELD :: MessageType where [mtypes]: "YIELD = 70"

text \<open>The method \<open>MessageType()\<close> of every struct.\<close>

fun MessageType_of :: "message \<Rightarrow> MessageType" where
  "MessageType_of (MHello _) = HELLO"
| "MessageType_of (MWelcome _) = WELCOME"
| "MessageType_of (MAbort _) = ABORT"
| "MessageType_of (MChallenge _) = CHALLENGE"
| "MessageType_of (MAuthenticate _) = AUTHENTICATE"
| "MessageType_of (MGoodbye _) = GOODBYE"
| "MessageType_of (MError _) = ERROR"
| "MessageType_of (MPublish _) = PUBLISH"
| "MessageType_of (MPublished _) = PUBLISHED"
| "MessageType_of (MSubscribe _) = SUBSCRIBE"
| "MessageType_of (MSubscribed _) = SUBSCRIBED"
| "MessageType_of (MUnsubscribe _) = UNSUBSCRIBE"
| "MessageType_of (MUnsubscribed _) = UNSUBSCRIBED"
| "MessageType_of (MEvent _) = EVENT"
| "MessageType_of (MCall _) = CALL"
| "MessageType_of (MResult _) = RESULT"
| "MessageType_of (MRegister _) = REGISTER"
| "MessageType_of (MRegistered _) = REGISTERED"
| "MessageType_of (MUnregister _) = UNREGISTER"
| "MessageType_of (MUnregistered _) = UNREGISTERED"
| "MessageType_of (MInvocation _) = INVOCATION"
| "MessageType_of (MYield _) = YIELD"
| "MessageType_of (MCancel _) = CANCEL"
| "MessageType_of (MInterrupt _) = INTERRUPT"

text \<open>\<open>New\<close>: the zero message of a code, \<open>None\<close> for Go's \<open>nil\<close> on an unknown code.\<close>

definition MessageType_New :: "MessageType \<Rightarrow> message option" where
  "MessageType_New mt =
     (if mt = HELLO then Some (MHello \<lparr>Hello_Realm = [], Hello_Details = None\<rparr>)
     else if mt = WELCOME then Some (MWelcome \<lparr>Welcome_Id = 0, Welcome_Details = None\<rparr>)
     else if mt = ABORT then Some (MAbort \<lparr>Abort_Details = None, Abort_Reason = []\<rparr>)
     else if mt = CHALLENGE then Some (MChallenge \<lparr>Challenge_AuthMethod = [], Challenge_Extra = None\<rparr>)
     else if mt = AUTHENTICATE then Some (MAuthenticate \<lparr>Authenticate_Signature = [], Authenticate_Extra = None\<rparr>)
     else if mt = GOODBYE then Some (MGoodbye \<lparr>Goodbye_Details = None, Goodbye_Reason = []\<rparr>)
     else if mt = ERROR then Some (MError \<lparr>Error_Type = 0, Error_Request = 0, Error_Details = None, Error_Error = [], Error_Arguments = None, Error_ArgumentsKw = None\<rparr>)
     else if mt = PUBLISH then Some (MPublish \<lparr>Publish_Request = 0, Publish_Options = None, Publish_Topic = [], Publish_Arguments = None, Publish_ArgumentsKw = None\<rparr>)
     else if mt = PUBLISHED then Some (MPublished \<lparr>Published_Request = 0, Published_Publication = 0\<rparr>)
     else if mt = SUBSCRIBE then Some (MSubscribe \<lparr>Subscribe_Request = 0, Subscribe_Options = None, Subscribe_Topic = []\<rparr>)
     else if mt = SUBSCRIBED then Some (MSubscribed \<lparr>Subscribed_Request = 0, Subscribed_Subscription = 0\<rparr>)
     else if mt = UNSUBSCRIBE then Some (MUnsubscribe \<lparr>Unsubscribe_Request = 0, Unsubscribe_Subscription = 0\<rparr>)
     else if mt = UNSUBSCRIBED then Some (MUnsubscribed \<lparr>Unsubscribed_Request = 0\<rparr>)
     else if mt = EVENT then Some (MEvent \<lparr>Event_Subscription = 0, Event_Publication = 0, Event_Details = None, Event_Arguments = None, Event_ArgumentsKw = None\<rparr>)
     else if mt = CALL then Some (MCall \<lparr>Call_Request = 0, Call_Options = None, Call_Procedure = [], Call_Arguments = None, Call_ArgumentsKw = None\<rparr>)
     else if mt = CANCEL then Some (MCancel \<lparr>Cancel_Request = 0, Cancel_Options = None\<rparr>)
     else if mt = RESULT then Some (MResult \<lparr>Result_Request = 0, Result_Details = None, Result_Arguments = None, Result_ArgumentsKw = None\<rparr>)
     else if mt = REGISTER then Some (MRegister \<lparr>Register_Request = 0, Register_Options = None, Register_Procedure = []\<rparr>)
     else if mt = REGISTERED then Some (MRegistered \<lparr>Registered_Request = 0, Registered_Registration = 0\<rparr>)
     else if mt = UNREGISTER then Some (MUnregister \<lparr>Unregister_Request = 0, Unregister_Registration = 0\<rparr>)
     else if mt = UNREGISTERED then Some (MUnregistered \<lparr>Unregistered_Request = 0\<rparr>)
     else if mt = INVOCATION then Some (MInvocation \<lparr>Invocation_Request = 0, Invocation_Registration = 0, Invocation_Details = None, Invocation_Arguments = None, Invocation_ArgumentsKw = None\<rparr>)
     else if mt = INTERRUPT then Some (MInterrupt \<lparr>Interrupt_Request = 0, Interrupt_Options = None\<rparr>)
     else if mt = YIELD then Some (MYield \<lparr>Yield_Request = 0, Yield_Options = None, Yield_Arguments = None, Yield_ArgumentsKw = None\<rparr>)
     else None)"

text \<open>\<open>String\<close>: the name of a code; \<open>None\<close> is the panic of the default branch.\<close>

definition MessageType_String :: "MessageType \<Rightarrow> string option" where
  "MessageType_String mt =
     (if mt = HELLO then Some ''HELLO''
     else if mt = WELCOME then Some ''WELCOME''
     else if mt = ABORT then Some ''ABORT''
     else if mt = CHALLENGE then Some ''CHALLENGE''
     else if mt = AUTHENTICATE then Some ''AUTHENTICATE''
     else if mt = GOODBYE then Some ''GOODBYE''
     else if mt = ERROR then Some ''ERROR''
     else if mt = PUBLISH then Some ''PUBLISH''
     else if mt = PUBLISHED then Some ''PUBLISHED''
     else if mt = SUBSCRIBE then Some ''SUBSCRIBE''
     else if mt = SUBSCRIBED then Some ''SUBSCRIBED''
     else if mt = UNSUBSCRIBE then Some ''UNSUBSCRIBE''
     else if mt = UNSUBSCRIBED then Some ''UNSUBSCRIBED''
     else if mt = EVENT then Some ''EVENT''
     else if mt = CALL then Some ''CALL''
     else if mt = CANCEL then Some ''CANCEL''
     else if mt = RESULT then Some ''RESULT''
     else if mt = REGISTER then Some ''REGISTER''
     else if mt = REGISTERED then Some ''REGISTERED''
     else if mt = UNREGISTER then Some ''UNREGISTER''
     else if mt = UNREGISTERED then Some ''UNREGISTERED''
     else if mt = INVOCATION then Some ''INVOCATION''
     else if mt = INTERRUPT then Some ''INTERRUPT''
     else if mt = YIELD then Some ''YIELD''
     else None)"

section \<open>Facts about codes\<close>

definition known_types :: "MessageType list" where
  "known_types = [HELLO, WELCOME, ABORT, CHALLENGE, AUTHENTICATE, GOODBYE, ERROR, PUBLISH, PUBLISHED, SUBSCRIBE, SUBSCRIBED, UNSUBSCRIBE, UNSUBSCRIBED, EVENT, CALL, CANCEL, RESULT, REGISTER, REGISTERED, UNREGISTER, UNREGISTERED, INVOCATION, INTERRUPT, YIELD]"

lemma distinct_known_types: "distinct known_types"
  by (simp add: known_types_def mtypes)

lemma MessageType_of_known: "MessageType_of m \<in> set known_types"
  by (cases m) (simp_all add: known_types_def)

lemma MessageType_New_Some_iff: "(\<exists>m. MessageType_New mt = Some m) \<longleftrightarrow> mt \<in> set known_types"
  by (simp add: MessageType_New_def known_types_def)

lemma MessageType_String_Some_iff: "(\<exists>s. MessageType_String mt = Some s) \<longleftrightarrow> mt \<in> set known_types"
  by (simp add: MessageType_String_def known_types_def)

lemma MessageType_of_New: "MessageType_New mt = Some m \<Longrightarrow> MessageType_of m = mt"
  by (auto simp: MessageType_New_def split: if_splits)

end
