(* ===== verification/Peer.thy ===== *)
theory Peer
  imports Messages
begin

text \<open>
  \<^verbatim>\<open>peer.go\<close> and the shape of results.  A method that returns a value and an
  \<open>error\<close> returns a sum, \<open>Inl\<close> the text of the error; where the code can panic the result is
  a \<open>go_result\<close>.  What a peer does is an argument of the code that talks to it: the error each
  \<open>Send\<close> returns, and what each wait on its channel ends with (\<open>peer_read\<close>: a message, a
  closed channel, or the time-out).
\<close>

type_synonym go_error = string

datatype 'a go_result = Ok 'a | Err go_error | Panic

datatype peer_read = Got message | ReadClosed | ReadTimeout

fun GetMessageTimeout :: "peer_read \<Rightarrow> go_error + message" where
  "GetMessageTimeout (Got msg) = Inr msg"
| "GetMessageTimeout ReadClosed = Inl ''receive channel closed''"
| "GetMessageTimeout ReadTimeout = Inl ''timeout waiting for message''"

end
