(* ===== verification/Session.thy ===== *)
theory Session
  imports Peer
begin

text \<open>
  \<^verbatim>\<open>session.go\<close>: sessions.  The router identifies a session by the address of its
  \<open>Session\<close> struct (\<open>*Session\<close> is the key of the broker's and the dealer's maps), never by
  its \<open>Id\<close>; \<open>sess_ptr\<close> is that address, and a \<open>session_heap\<close> gives the struct stored
  there.  A handler's effect on its peers is the list of the messages it sends, in order, each
  with the session it is sent to; the handlers modelled here ignore the error \<open>Send\<close>
  returns, so the list is complete.
\<close>

type_synonym sess_ptr = nat

record Session =
  Session_Id :: ID
  Session_Details :: dict

type_synonym session_heap = "sess_ptr \<Rightarrow> Session"
type_synonym sends = "(sess_ptr \<times> message) list"

text \<open>The messages of a list of sends that go to one session.\<close>

definition sent_to :: "sess_ptr \<Rightarrow> sends \<Rightarrow> message list" where
  "sent_to s out = map snd (filter (\<lambda>x. fst x = s) out)"

lemma sent_to_Nil [simp]: "sent_to s [] = []"
  by (simp add: sent_to_def)

lemma sent_to_Cons [simp]:
  "sent_to s ((p, m) # out) = (if p = s then m # sent_to s out else sent_to s out)"
  by (simp add: sent_to_def)

lemma sent_to_append [simp]: "sent_to s (xs @ ys) = sent_to s xs @ sent_to s ys"
  by (simp add: sent_to_def)

section \<open>Tables of entries owned by sessions\<close>

text \<open>
  The broker's subscriptions and the dealer's registrations obey one contract, stated once
  here and interpreted on both.  A state has a view \<open>live\<close>: the entries by identifier, each
  with its URI and the session that owns it.  \<open>add\<close> inserts an entry (\<open>addable\<close> is the
  provider's precondition), \<open>remove\<close> deletes one on behalf of any session, and
  \<open>drop\<close> deletes all the entries of a session that leaves.
\<close>

locale session_table =
  fixes inv :: "'st \<Rightarrow> bool"
    and live :: "'st \<Rightarrow> 'id \<Rightarrow> ('uri \<times> 's) option"
    and addable :: "'st \<Rightarrow> 'id \<Rightarrow> 'uri \<Rightarrow> bool"
    and init :: "'st"
    and add :: "'id \<Rightarrow> 's \<Rightarrow> 'uri \<Rightarrow> 'st \<Rightarrow> 'st"
    and remove :: "'s \<Rightarrow> 'id \<Rightarrow> 'st \<Rightarrow> 'st"
    and drop :: "'s \<Rightarrow> 'st \<Rightarrow> 'st"
  assumes inv_init: "inv init"
    and live_init: "live init i = None"
    and inv_add: "inv st \<Longrightarrow> addable st i u \<Longrightarrow> inv (add i s u st)"
    and live_add: "inv st \<Longrightarrow> addable st i u \<Longrightarrow> live (add i s u st) = (live st)(i := Some (u, s))"
    and inv_remove: "inv st \<Longrightarrow> inv (remove s i st)"
    and live_remove: "inv st \<Longrightarrow> live (remove s i st) = (live st)(i := None)"
    and inv_drop: "inv st \<Longrightarrow> inv (drop s st)"
    and live_drop: "inv st \<Longrightarrow> live (drop s st) i =
      (case live st i of None \<Rightarrow> None | Some (u, s') \<Rightarrow> if s' = s then None else Some (u, s'))"
    and addable_fresh: "inv st \<Longrightarrow> addable st i u \<Longrightarrow> live st i = None"
begin

lemma drop_none_left: "inv st \<Longrightarrow> live (drop s st) i \<noteq> Some (u, s)"
  by (auto simp: live_drop split: option.splits if_splits)

lemma drop_keeps_others: "inv st \<Longrightarrow> s' \<noteq> s \<Longrightarrow>
    live (drop s st) i = Some (u, s') \<longleftrightarrow> live st i = Some (u, s')"
  by (auto simp: live_drop split: option.splits if_splits)

lemma drop_idle: "inv st \<Longrightarrow> (\<And>i u. live st i \<noteq> Some (u, s)) \<Longrightarrow> live (drop s st) = live st"
  by (rule ext) (auto simp: live_drop split: option.splits)

lemma drop_idem: "inv st \<Longrightarrow> live (drop s (drop s st)) = live (drop s st)"
  by (rule drop_idle) (simp_all add: inv_drop drop_none_left)

lemma drop_commute: "inv st \<Longrightarrow> live (drop s (drop s' st)) = live (drop s' (drop s st))"
  by (rule ext) (auto simp: live_drop inv_drop split: option.splits)

lemma add_remove: "inv st \<Longrightarrow> addable st i u \<Longrightarrow> live (remove s' i (add i s u st)) = live st"
  by (rule ext) (auto simp: live_remove live_add inv_add addable_fresh)

lemma add_drop: "inv st \<Longrightarrow> addable st i u \<Longrightarrow> live (drop s (add i s u st)) = live (drop s st)"
  by (rule ext) (auto simp: live_drop live_add inv_add addable_fresh split: option.splits)

end

text \<open>A table in which a URI names at most one entry: the dealer's registrations.\<close>

locale unique_uri_table = session_table +
  assumes uri_unique: "inv st \<Longrightarrow> live st i = Some (u, s) \<Longrightarrow> live st j = Some (u, s') \<Longrightarrow> i = j"
begin

lemma add_displaces_nothing:
  "inv st \<Longrightarrow> addable st i u \<Longrightarrow> live (add i s u st) j = Some (u, s') \<Longrightarrow> j = i \<and> s' = s"
proof -
  assume a: "inv st" "addable st i u" and j: "live (add i s u st) j = Some (u, s')"
  have i: "live (add i s u st) i = Some (u, s)" using a by (simp add: live_add)
  have "inv (add i s u st)" using a by (rule inv_add)
  then have "j = i" using j i by (rule uri_unique)
  with i j show ?thesis by simp
qed

end

end
