(* ===== verification/Dealer.thy ===== *)
theory Dealer
  imports Session
begin

text \<open>
  \<^verbatim>\<open>dealer.go\<close>: remote procedure calls.  The state is the record \<open>defaultDealer\<close> with
  the five maps of the struct; each method of the interface \<open>Dealer\<close> is one definition that
  returns the new state and the messages it sends.  A method holds the dealer's lock for all its
  accesses to the maps, so one definition is one atomic step.  \<open>dl_live\<close> is the abstract view
  (registration id to procedure and callee), \<open>dl_inv\<close> the invariant of the maps, and
  \<open>dealer_run\<close> runs a sequence of operations of any sessions.
\<close>

record remoteProcedure =
  rp_Endpoint :: sess_ptr
  rp_Procedure :: URI

record defaultDealer =
  procedures :: "(ID, remoteProcedure) fmap"
  registrations :: "(URI, ID) fmap"
  calls :: "(ID, sess_ptr) fmap"
  invocations :: "(ID, ID) fmap"
  callees :: "(sess_ptr, (ID, bool) fmap) fmap"

definition NewDefaultDealer :: defaultDealer where
  "NewDefaultDealer = \<lparr>procedures = fmempty, registrations = fmempty, calls = fmempty,
     invocations = fmempty, callees = fmempty\<rparr>"

section \<open>Operations\<close>

definition addCalleeRegistration :: "sess_ptr \<Rightarrow> ID \<Rightarrow> defaultDealer \<Rightarrow> defaultDealer" where
  "addCalleeRegistration callee reg d =
     (let d = (case fmlookup (callees d) callee of
                 None \<Rightarrow> d\<lparr>callees := fmupd callee fmempty (callees d)\<rparr>
               | Some _ \<Rightarrow> d)
      in case fmlookup (callees d) callee of
           None \<Rightarrow> d
         | Some m \<Rightarrow> d\<lparr>callees := fmupd callee (fmupd reg True m) (callees d)\<rparr>)"

definition removeCalleeRegistration :: "sess_ptr \<Rightarrow> ID \<Rightarrow> defaultDealer \<Rightarrow> defaultDealer" where
  "removeCalleeRegistration callee reg d =
     (case fmlookup (callees d) callee of
        None \<Rightarrow> d
      | Some m \<Rightarrow>
          (let d = d\<lparr>callees := fmupd callee (fmdrop reg m) (callees d)\<rparr>
           in if fmdrop reg m = fmempty then d\<lparr>callees := fmdrop callee (callees d)\<rparr> else d))"

text \<open>The ERROR replies of the dealer: a non-nil empty \<open>Details\<close>, no arguments.\<close>

definition dealer_error :: "MessageType \<Rightarrow> ID \<Rightarrow> URI \<Rightarrow> message" where
  "dealer_error typ req err = MError \<lparr>Error_Type = typ, Error_Request = req, Error_Details = dict_make,
     Error_Error = err, Error_Arguments = None, Error_ArgumentsKw = None\<rparr>"

definition dealer_Register ::
  "64 word \<Rightarrow> sess_ptr \<Rightarrow> Register \<Rightarrow> defaultDealer \<Rightarrow> defaultDealer \<times> sends" where
  "dealer_Register draw callee msg d =
     (let reg = NewID draw
      in case fmlookup (registrations d) (Register_Procedure msg) of
           Some _ \<Rightarrow>
             (d, [(callee, dealer_error REGISTER (Register_Request msg) ErrProcedureAlreadyExists)])
         | None \<Rightarrow>
             (let d = d\<lparr>procedures := fmupd reg \<lparr>rp_Endpoint = callee, rp_Procedure = Register_Procedure msg\<rparr>
                                       (procedures d)\<rparr>;
                  d = d\<lparr>registrations := fmupd (Register_Procedure msg) reg (registrations d)\<rparr>;
                  d = addCalleeRegistration callee reg d
              in (d, [(callee, MRegistered \<lparr>Registered_Request = Register_Request msg,
                                            Registered_Registration = reg\<rparr>)])))"

definition dealer_Unregister ::
  "sess_ptr \<Rightarrow> Unregister \<Rightarrow> defaultDealer \<Rightarrow> defaultDealer \<times> sends" where
  "dealer_Unregister callee msg d =
     (case fmlookup (procedures d) (Unregister_Registration msg) of
        None \<Rightarrow>
          (d, [(callee, dealer_error UNREGISTER (Unregister_Request msg) ErrNoSuchRegistration)])
      | Some procedure \<Rightarrow>
          (let d = d\<lparr>registrations := fmdrop (rp_Procedure procedure) (registrations d)\<rparr>;
               d = d\<lparr>procedures := fmdrop (Unregister_Registration msg) (procedures d)\<rparr>;
               d = removeCalleeRegistration callee (Unregister_Registration msg) d
           in (d, [(callee, MUnregistered \<lparr>Unregistered_Request = Unregister_Request msg\<rparr>)])))"

definition call_details :: "session_heap \<Rightarrow> sess_ptr \<Rightarrow> Call \<Rightarrow> dict" where
  "call_details heap caller msg =
     (if dict_bool (Call_Options msg) ''disclose_me'' = Some True
      then Some (fmupd ''caller'' (VID (Session_Id (heap caller))) fmempty)
      else dict_make)"

definition dealer_Call ::
  "session_heap \<Rightarrow> 64 word \<Rightarrow> sess_ptr \<Rightarrow> Call \<Rightarrow> defaultDealer \<Rightarrow> defaultDealer \<times> sends" where
  "dealer_Call heap draw caller msg d =
     (case fmlookup (registrations d) (Call_Procedure msg) of
        None \<Rightarrow> (d, [(caller, dealer_error CALL (Call_Request msg) ErrNoSuchProcedure)])
      | Some reg \<Rightarrow>
          (case fmlookup (procedures d) reg of
             None \<Rightarrow> (d, [(caller, dealer_error CALL (Call_Request msg) ErrInternal)])
           | Some rproc \<Rightarrow>
               (let d = d\<lparr>calls := fmupd (Call_Request msg) caller (calls d)\<rparr>;
                    invocationID = NewID draw;
                    d = d\<lparr>invocations := fmupd invocationID (Call_Request msg) (invocations d)\<rparr>
                in (d, [(rp_Endpoint rproc,
                         MInvocation \<lparr>Invocation_Request = invocationID,
                                      Invocation_Registration = reg,
                                      Invocation_Details = call_details heap caller msg,
                                      Invocation_Arguments = Call_Arguments msg,
                                      Invocation_ArgumentsKw = Call_ArgumentsKw msg\<rparr>)]))))"

definition dealer_Yield :: "sess_ptr \<Rightarrow> Yield \<Rightarrow> defaultDealer \<Rightarrow> defaultDealer \<times> sends" where
  "dealer_Yield callee msg d =
     (case fmlookup (invocations d) (Yield_Request msg) of
        None \<Rightarrow> (d, [])
      | Some callID \<Rightarrow>
          (let d = d\<lparr>invocations := fmdrop (Yield_Request msg) (invocations d)\<rparr>
           in case fmlookup (calls d) callID of
                None \<Rightarrow> (d, [])
              | Some caller \<Rightarrow>
                  (d\<lparr>calls := fmdrop callID (calls d)\<rparr>,
                   [(caller, MResult \<lparr>Result_Request = callID, Result_Details = dict_make,
                                      Result_Arguments = Yield_Arguments msg,
                                      Result_ArgumentsKw = Yield_ArgumentsKw msg\<rparr>)])))"

definition dealer_Error :: "sess_ptr \<Rightarrow> Error \<Rightarrow> defaultDealer \<Rightarrow> defaultDealer \<times> sends" where
  "dealer_Error peer msg d =
     (case fmlookup (invocations d) (Error_Request msg) of
        None \<Rightarrow> (d, [])
      | Some callID \<Rightarrow>
          (let d = d\<lparr>invocations := fmdrop (Error_Request msg) (invocations d)\<rparr>
           in case fmlookup (calls d) callID of
                None \<Rightarrow> (d, [])
              | Some caller \<Rightarrow>
                  (d\<lparr>calls := fmdrop callID (calls d)\<rparr>,
                   [(caller, MError \<lparr>Error_Type = CALL, Error_Request = callID,
                                     Error_Details = dict_make, Error_Error = Error_Error msg,
                                     Error_Arguments = Error_Arguments msg,
                                     Error_ArgumentsKw = Error_ArgumentsKw msg\<rparr>)])))"

definition dealer_RemoveSession_step :: "sess_ptr \<Rightarrow> ID \<Rightarrow> defaultDealer \<Rightarrow> defaultDealer" where
  "dealer_RemoveSession_step callee reg d =
     (let d = (case fmlookup (procedures d) reg of
                 None \<Rightarrow> d
               | Some procedure \<Rightarrow>
                   d\<lparr>registrations := fmdrop (rp_Procedure procedure) (registrations d),
                     procedures := fmdrop reg (procedures d)\<rparr>)
      in removeCalleeRegistration callee reg d)"

definition dealer_RemoveSession ::
  "(ID fset \<Rightarrow> ID list) \<Rightarrow> sess_ptr \<Rightarrow> defaultDealer \<Rightarrow> defaultDealer" where
  "dealer_RemoveSession ord callee d =
     (let m = (case fmlookup (callees d) callee of Some m \<Rightarrow> m | None \<Rightarrow> fmempty)
      in fold (dealer_RemoveSession_step callee) (ord (fmdom m)) d)"

section \<open>Abstract view and invariant\<close>

definition dl_live :: "defaultDealer \<Rightarrow> ID \<Rightarrow> (URI \<times> sess_ptr) option" where
  "dl_live d i = map_option (\<lambda>rp. (rp_Procedure rp, rp_Endpoint rp)) (fmlookup (procedures d) i)"

definition dl_regs_ok :: "defaultDealer \<Rightarrow> bool" where
  "dl_regs_ok d \<longleftrightarrow>
     (\<forall>u i. fmlookup (registrations d) u = Some i \<longrightarrow>
        (\<exists>rp. fmlookup (procedures d) i = Some rp \<and> rp_Procedure rp = u))
     \<and> (\<forall>i rp. fmlookup (procedures d) i = Some rp \<longrightarrow>
          fmlookup (registrations d) (rp_Procedure rp) = Some i)"

definition dl_owned_ok :: "defaultDealer \<Rightarrow> bool" where
  "dl_owned_ok d \<longleftrightarrow>
     no_empty (callees d)
     \<and> (\<forall>i rp. fmlookup (procedures d) i = Some rp \<longrightarrow> get2 (callees d) (rp_Endpoint rp) i = Some True)
     \<and> (\<forall>s s' i b b'. get2 (callees d) s i = Some b \<longrightarrow> get2 (callees d) s' i = Some b' \<longrightarrow> s = s')"

text \<open>Every pending call has an invocation that will answer it.\<close>

definition dl_calls_ok :: "defaultDealer \<Rightarrow> bool" where
  "dl_calls_ok d \<longleftrightarrow>
     (\<forall>cid c. fmlookup (calls d) cid = Some c \<longrightarrow> (\<exists>i. fmlookup (invocations d) i = Some cid))"

definition dl_inv :: "defaultDealer \<Rightarrow> bool" where
  "dl_inv d \<longleftrightarrow> dl_regs_ok d \<and> dl_owned_ok d \<and> dl_calls_ok d"

definition dl_fresh :: "defaultDealer \<Rightarrow> ID \<Rightarrow> bool" where
  "dl_fresh d i \<longleftrightarrow> fmlookup (procedures d) i = None \<and> (\<forall>s. get2 (callees d) s i = None)"

lemma dl_regs_okD:
  assumes "dl_regs_ok d"
  shows "fmlookup (registrations d) u = Some i \<Longrightarrow>
           \<exists>rp. fmlookup (procedures d) i = Some rp \<and> rp_Procedure rp = u"
    and "fmlookup (procedures d) i = Some rp \<Longrightarrow> fmlookup (registrations d) (rp_Procedure rp) = Some i"
  using assms unfolding dl_regs_ok_def by blast+

lemma dl_owned_okD:
  assumes "dl_owned_ok d"
  shows "no_empty (callees d)"
    and "fmlookup (procedures d) i = Some rp \<Longrightarrow> get2 (callees d) (rp_Endpoint rp) i = Some True"
    and "get2 (callees d) s i = Some b \<Longrightarrow> get2 (callees d) s' i = Some b' \<Longrightarrow> s = s'"
  using assms unfolding dl_owned_ok_def by blast+

lemma dl_invD:
  assumes "dl_inv d"
  shows "dl_regs_ok d" "dl_owned_ok d" "dl_calls_ok d"
  using assms unfolding dl_inv_def by blast+

section \<open>Registrations\<close>

lemma addCallee_maps:
  "addCalleeRegistration s i d = d\<lparr>callees := put2 s i True (callees d)\<rparr>"
  by (cases "fmlookup (callees d) s") (simp_all add: addCalleeRegistration_def put2_def)

lemma removeCallee_maps:
  "removeCalleeRegistration s i d = d\<lparr>callees := del2 s i (callees d)\<rparr>"
proof -
  have e: "fmdrop s (fmupd s m (callees d)) = fmdrop s (callees d)" for m
    by (simp add: fmdrop_fmupd)
  show ?thesis
    by (cases "fmlookup (callees d) s")
       (simp_all add: removeCalleeRegistration_def del2_def Let_def e)
qed

lemma Register_maps:
  "fmlookup (registrations d) (Register_Procedure msg) = None \<Longrightarrow>
   fst (dealer_Register draw s msg d) =
     d\<lparr>procedures := fmupd (NewID draw) \<lparr>rp_Endpoint = s, rp_Procedure = Register_Procedure msg\<rparr> (procedures d),
       registrations := fmupd (Register_Procedure msg) (NewID draw) (registrations d),
       callees := put2 s (NewID draw) True (callees d)\<rparr>"
  by (simp add: dealer_Register_def addCallee_maps Let_def)

lemma Register_exists:
  "fmlookup (registrations d) (Register_Procedure msg) = Some i \<Longrightarrow>
   dealer_Register draw s msg d =
     (d, [(s, dealer_error REGISTER (Register_Request msg) ErrProcedureAlreadyExists)])"
  by (simp add: dealer_Register_def Let_def)

lemma Unregister_maps:
  "fmlookup (procedures d) (Unregister_Registration msg) = Some rp \<Longrightarrow>
   fst (dealer_Unregister s msg d) =
     d\<lparr>registrations := fmdrop (rp_Procedure rp) (registrations d),
       procedures := fmdrop (Unregister_Registration msg) (procedures d),
       callees := del2 s (Unregister_Registration msg) (callees d)\<rparr>"
  by (simp add: dealer_Unregister_def removeCallee_maps Let_def)

lemma Unregister_absent:
  "fmlookup (procedures d) (Unregister_Registration msg) = None \<Longrightarrow>
   fst (dealer_Unregister s msg d) = d"
  by (simp add: dealer_Unregister_def)

lemma dl_inv_New: "dl_inv NewDefaultDealer"
  by (simp add: dl_inv_def dl_regs_ok_def dl_owned_ok_def dl_calls_ok_def NewDefaultDealer_def)

lemma dl_live_New: "dl_live NewDefaultDealer i = None"
  by (simp add: dl_live_def NewDefaultDealer_def)

lemma dl_fresh_New [simp]: "dl_fresh NewDefaultDealer i"
  by (simp add: dl_fresh_def NewDefaultDealer_def)

lemma dl_inv_Register:
  assumes inv: "dl_inv d" and fresh: "dl_fresh d (NewID draw)"
  shows "dl_inv (fst (dealer_Register draw s msg d))"
proof (cases "fmlookup (registrations d) (Register_Procedure msg)")
  case (Some i)
  then show ?thesis using inv by (simp add: Register_exists)
next
  case None
  have f: "fmlookup (procedures d) (NewID draw) = None" "get2 (callees d) s' (NewID draw) = None" for s'
    using fresh by (simp_all add: dl_fresh_def)
  have n: "fmlookup (registrations d) u \<noteq> Some (NewID draw)" for u
    using dl_regs_okD(1) [OF dl_invD(1) [OF inv]] f(1) by fastforce
  have "dl_regs_ok (fst (dealer_Register draw s msg d))"
    using dl_regs_okD [OF dl_invD(1) [OF inv]] None f(1) n
    unfolding dl_regs_ok_def Register_maps [OF None] by auto
  moreover have "dl_owned_ok (fst (dealer_Register draw s msg d))"
    using dl_owned_okD [OF dl_invD(2) [OF inv]] f
    unfolding dl_owned_ok_def Register_maps [OF None] by (auto split: if_splits)
  moreover have "dl_calls_ok (fst (dealer_Register draw s msg d))"
    using dl_invD(3) [OF inv] unfolding dl_calls_ok_def Register_maps [OF None] by simp
  ultimately show ?thesis by (simp add: dl_inv_def)
qed

lemma dl_live_Register:
  "fmlookup (registrations d) (Register_Procedure msg) = None \<Longrightarrow>
   dl_live (fst (dealer_Register draw s msg d)) =
     (dl_live d)(NewID draw := Some (Register_Procedure msg, s))"
  by (rule ext) (simp add: dl_live_def Register_maps)

text \<open>Deleting one registration, as \<open>Unregister\<close> and \<open>RemoveSession\<close> do, on behalf of session \<open>s\<close>.\<close>

lemma dl_delete_ok:
  assumes "dl_regs_ok d" "fmlookup (procedures d) i = Some rp"
  shows "dl_regs_ok (d\<lparr>registrations := fmdrop (rp_Procedure rp) (registrations d),
                       procedures := fmdrop i (procedures d), callees := mm\<rparr>)"
  (is "dl_regs_ok ?d")
proof -
  note d = dl_regs_okD [OF assms(1)]
  have p: "\<exists>rq. fmlookup (procedures ?d) j = Some rq \<and> rp_Procedure rq = u"
    if "fmlookup (registrations ?d) u = Some j" for u j
  proof -
    from that have u: "u \<noteq> rp_Procedure rp" "fmlookup (registrations d) u = Some j"
      by (simp_all split: if_splits)
    then obtain rq where rq: "fmlookup (procedures d) j = Some rq" "rp_Procedure rq = u"
      using d(1) by blast
    with u(1) assms(2) have "j \<noteq> i" by auto
    with rq show ?thesis by simp
  qed
  have r: "fmlookup (registrations ?d) (rp_Procedure rq) = Some j"
    if "fmlookup (procedures ?d) j = Some rq" for j rq
  proof -
    from that have j: "j \<noteq> i" "fmlookup (procedures d) j = Some rq"
      by (simp_all split: if_splits)
    then have "fmlookup (registrations d) (rp_Procedure rq) = Some j" by (simp add: d(2))
    with d(2) [OF assms(2)] j(1) show ?thesis by auto
  qed
  from p r show ?thesis unfolding dl_regs_ok_def by blast
qed

lemma dl_inv_Unregister:
  assumes inv: "dl_inv d"
  shows "dl_inv (fst (dealer_Unregister s msg d))"
proof (cases "fmlookup (procedures d) (Unregister_Registration msg)")
  case None
  then show ?thesis using inv by (simp add: Unregister_absent)
next
  case (Some rp)
  have "dl_regs_ok (fst (dealer_Unregister s msg d))"
    using dl_delete_ok [OF dl_invD(1) [OF inv] Some] by (simp add: Unregister_maps [OF Some])
  moreover have "dl_owned_ok (fst (dealer_Unregister s msg d))"
    using dl_owned_okD [OF dl_invD(2) [OF inv]]
    unfolding dl_owned_ok_def Unregister_maps [OF Some] by (auto split: if_splits)
  moreover have "dl_calls_ok (fst (dealer_Unregister s msg d))"
    using dl_invD(3) [OF inv] unfolding dl_calls_ok_def Unregister_maps [OF Some] by simp
  ultimately show ?thesis by (simp add: dl_inv_def)
qed

lemma dl_live_Unregister:
  "dl_live (fst (dealer_Unregister s msg d)) = (dl_live d)(Unregister_Registration msg := None)"
  by (cases "fmlookup (procedures d) (Unregister_Registration msg)")
     (auto simp: dl_live_def Unregister_maps Unregister_absent)

text \<open>One turn of the loop of \<open>RemoveSession\<close>, then the loop.\<close>

lemma dl_RemoveSession_step_maps:
  "dealer_RemoveSession_step s i d =
     (case fmlookup (procedures d) i of
        None \<Rightarrow> d\<lparr>callees := del2 s i (callees d)\<rparr>
      | Some rp \<Rightarrow> d\<lparr>registrations := fmdrop (rp_Procedure rp) (registrations d),
                     procedures := fmdrop i (procedures d), callees := del2 s i (callees d)\<rparr>)"
  by (simp add: dealer_RemoveSession_step_def removeCallee_maps Let_def split: option.splits)

lemma dl_RemoveSession_step:
  assumes "dl_regs_ok d"
  shows "dl_regs_ok (dealer_RemoveSession_step s i d)"
    and "fmlookup (procedures (dealer_RemoveSession_step s i d)) j =
           (if j = i then None else fmlookup (procedures d) j)"
    and "callees (dealer_RemoveSession_step s i d) = del2 s i (callees d)"
    and "calls (dealer_RemoveSession_step s i d) = calls d"
    and "invocations (dealer_RemoveSession_step s i d) = invocations d"
proof -
  have "dl_regs_ok (d\<lparr>callees := mm\<rparr>)" for mm
    using assms by (simp add: dl_regs_ok_def)
  then show "dl_regs_ok (dealer_RemoveSession_step s i d)"
    using dl_delete_ok [OF assms] by (simp add: dl_RemoveSession_step_maps split: option.splits)
qed (auto simp: dl_RemoveSession_step_maps split: option.splits)

lemma dl_RemoveSession_loop:
  assumes "dl_regs_ok d"
  shows "dl_regs_ok (fold (dealer_RemoveSession_step s) ids d)
    \<and> (\<forall>j. fmlookup (procedures (fold (dealer_RemoveSession_step s) ids d)) j =
           (if j \<in> set ids then None else fmlookup (procedures d) j))
    \<and> (no_empty (callees d) \<longrightarrow> no_empty (callees (fold (dealer_RemoveSession_step s) ids d)))
    \<and> (\<forall>s' j. get2 (callees (fold (dealer_RemoveSession_step s) ids d)) s' j =
           (if s' = s \<and> j \<in> set ids then None else get2 (callees d) s' j))
    \<and> calls (fold (dealer_RemoveSession_step s) ids d) = calls d
    \<and> invocations (fold (dealer_RemoveSession_step s) ids d) = invocations d"
  using assms
proof (induction ids arbitrary: d)
  case Nil
  then show ?case by simp
next
  case (Cons i ids)
  show ?case
    using Cons.IH [OF dl_RemoveSession_step(1) [OF Cons.prems, of s i]]
    by (simp add: dl_RemoveSession_step [OF Cons.prems])
qed

lemma callee_ids_iff:
  "i \<in> fset (fmdom (case fmlookup mm s of Some m \<Rightarrow> m | None \<Rightarrow> fmempty)) \<longleftrightarrow> get2 mm s i \<noteq> None"
  by (auto simp: get2_def fmlookup_dom_iff split: option.splits)

lemma dl_RemoveSession_maps:
  assumes "dl_regs_ok d" "map_order ord"
  shows "dl_regs_ok (dealer_RemoveSession ord s d)"
    and "fmlookup (procedures (dealer_RemoveSession ord s d)) j =
           (if get2 (callees d) s j \<noteq> None then None else fmlookup (procedures d) j)"
    and "no_empty (callees d) \<Longrightarrow> no_empty (callees (dealer_RemoveSession ord s d))"
    and "get2 (callees (dealer_RemoveSession ord s d)) s' j =
           (if s' = s then None else get2 (callees d) s' j)"
    and "calls (dealer_RemoveSession ord s d) = calls d"
    and "invocations (dealer_RemoveSession ord s d) = invocations d"
proof -
  let ?m = "case fmlookup (callees d) s of Some m \<Rightarrow> m | None \<Rightarrow> fmempty"
  have e: "dealer_RemoveSession ord s d = fold (dealer_RemoveSession_step s) (ord (fmdom ?m)) d"
    by (simp add: dealer_RemoveSession_def Let_def)
  have i: "i \<in> set (ord (fmdom ?m)) \<longleftrightarrow> get2 (callees d) s i \<noteq> None" for i
    using map_order_set [OF assms(2)] callee_ids_iff [where i = i and mm = "callees d" and s = s] by metis
  note L = dl_RemoveSession_loop [OF assms(1), of s "ord (fmdom ?m)", unfolded i, folded e]
  from L show "dl_regs_ok (dealer_RemoveSession ord s d)" by blast
  from L show "fmlookup (procedures (dealer_RemoveSession ord s d)) j =
      (if get2 (callees d) s j \<noteq> None then None else fmlookup (procedures d) j)" by blast
  from L show "no_empty (callees (dealer_RemoveSession ord s d))" if "no_empty (callees d)"
    using that by blast
  from L show "get2 (callees (dealer_RemoveSession ord s d)) s' j =
      (if s' = s then None else get2 (callees d) s' j)" by auto
  from L show "calls (dealer_RemoveSession ord s d) = calls d" by blast
  from L show "invocations (dealer_RemoveSession ord s d) = invocations d" by blast
qed

lemma dl_inv_RemoveSession:
  assumes inv: "dl_inv d" and ord: "map_order ord"
  shows "dl_inv (dealer_RemoveSession ord s d)"
proof -
  note m = dl_RemoveSession_maps [OF dl_invD(1) [OF inv] ord] and w = dl_owned_okD [OF dl_invD(2) [OF inv]]
  have "dl_owned_ok (dealer_RemoveSession ord s d)"
    unfolding dl_owned_ok_def m(2,4) using w m(3) [OF w(1)]
    by (auto split: if_splits)
  then show ?thesis
    using dl_invD(3) [OF inv] m(1) by (simp add: dl_inv_def dl_calls_ok_def m(5,6))
qed

lemma dl_live_RemoveSession:
  assumes inv: "dl_inv d" and ord: "map_order ord"
  shows "dl_live (dealer_RemoveSession ord s d) i =
    (case dl_live d i of None \<Rightarrow> None | Some (u, s') \<Rightarrow> if s' = s then None else Some (u, s'))"
proof (cases "fmlookup (procedures d) i")
  case None
  then show ?thesis
    by (simp add: dl_live_def dl_RemoveSession_maps(2) [OF dl_invD(1) [OF inv] ord])
next
  case (Some rp)
  note w = dl_owned_okD [OF dl_invD(2) [OF inv]]
  have "get2 (callees d) s i \<noteq> None \<longleftrightarrow> rp_Endpoint rp = s"
    using w(2) [OF Some] w(3) [of s i _ "rp_Endpoint rp"] by auto
  with Some show ?thesis
    by (simp add: dl_live_def dl_RemoveSession_maps(2) [OF dl_invD(1) [OF inv] ord])
qed

lemma dl_live_registration:
  "dl_inv d \<Longrightarrow> dl_live d i = Some (u, s) \<Longrightarrow> fmlookup (registrations d) u = Some i"
  using dl_regs_okD(2) [OF dl_invD(1)] by (auto simp: dl_live_def)

lemma registration_dl_live:
  "dl_inv d \<Longrightarrow> fmlookup (registrations d) u = Some i \<Longrightarrow> \<exists>s. dl_live d i = Some (u, s)"
  using dl_regs_okD(1) [OF dl_invD(1)] by (fastforce simp: dl_live_def)

section \<open>The dealer's registrations are a table with unique URIs\<close>

definition dl_addable :: "defaultDealer \<Rightarrow> ID \<Rightarrow> URI \<Rightarrow> bool" where
  "dl_addable d i u \<longleftrightarrow> unat i < 2 ^ 53 \<and> dl_fresh d i \<and> fmlookup (registrations d) u = None"

definition register_msg :: "URI \<Rightarrow> Register" where
  "register_msg u = \<lparr>Register_Request = 0, Register_Options = dict_make, Register_Procedure = u\<rparr>"

definition unregister_msg :: "ID \<Rightarrow> Unregister" where
  "unregister_msg i = \<lparr>Unregister_Request = 0, Unregister_Registration = i\<rparr>"

interpretation regs: unique_uri_table dl_inv dl_live dl_addable NewDefaultDealer
  "\<lambda>i s u d. fst (dealer_Register i s (register_msg u) d)"
  "\<lambda>s i d. fst (dealer_Unregister s (unregister_msg i) d)"
  "dealer_RemoveSession sorted_list_of_fset"
proof unfold_locales
  fix d i u s
  assume a: "dl_inv d" "dl_addable d i u"
  then have f: "dl_fresh d (NewID i)" and i: "NewID i = i" and n: "fmlookup (registrations d) u = None"
    by (simp_all add: dl_addable_def NewID_id)
  show "dl_inv (fst (dealer_Register i s (register_msg u) d))"
    using a(1) f by (rule dl_inv_Register)
  show "dl_live (fst (dealer_Register i s (register_msg u) d)) = (dl_live d)(i := Some (u, s))"
    using dl_live_Register [of d "register_msg u" i s] n i by (simp add: register_msg_def)
  show "dl_live d i = None"
    using a by (simp add: dl_addable_def dl_fresh_def dl_live_def)
next
  fix d i j u s s'
  assume "dl_inv d" "dl_live d i = Some (u, s)" "dl_live d j = Some (u, s')"
  then show "i = j" using dl_live_registration [of d i u s] dl_live_registration [of d j u s'] by simp
qed (simp_all add: dl_inv_New dl_live_New dl_inv_Unregister dl_live_Unregister
      dl_inv_RemoveSession dl_live_RemoveSession unregister_msg_def)

section \<open>Calls\<close>

lemma Call_unknown:
  "fmlookup (registrations d) (Call_Procedure msg) = None \<Longrightarrow>
   dealer_Call heap draw c msg d = (d, [(c, dealer_error CALL (Call_Request msg) ErrNoSuchProcedure)])"
  by (simp add: dealer_Call_def)

lemma Call_live:
  assumes "dl_inv d" "dl_live d reg = Some (Call_Procedure msg, e)"
  shows "dealer_Call heap draw c msg d =
    (d\<lparr>calls := fmupd (Call_Request msg) c (calls d),
       invocations := fmupd (NewID draw) (Call_Request msg) (invocations d)\<rparr>,
     [(e, MInvocation \<lparr>Invocation_Request = NewID draw, Invocation_Registration = reg,
            Invocation_Details = call_details heap c msg,
            Invocation_Arguments = Call_Arguments msg, Invocation_ArgumentsKw = Call_ArgumentsKw msg\<rparr>)])"
  using dl_live_registration [OF assms] assms(2)
  by (auto simp: dealer_Call_def dl_live_def Let_def)

lemma Call_cases:
  obtains (sent) e inv where "dealer_Call heap draw c msg d =
      (d\<lparr>calls := fmupd (Call_Request msg) c (calls d),
         invocations := fmupd (NewID draw) (Call_Request msg) (invocations d)\<rparr>, [(e, MInvocation inv)])"
  | (failed) err where "dealer_Call heap draw c msg d = (d, [(c, dealer_error CALL (Call_Request msg) err)])"
proof (cases "fmlookup (registrations d) (Call_Procedure msg)")
  case None
  then show ?thesis by (rule failed [OF Call_unknown])
next
  case (Some reg)
  show ?thesis
  proof (cases "fmlookup (procedures d) reg")
    case None
    with Some have "dealer_Call heap draw c msg d = (d, [(c, dealer_error CALL (Call_Request msg) ErrInternal)])"
      by (simp add: dealer_Call_def)
    then show ?thesis by (rule failed)
  next
    case (Some rp)
    with \<open>fmlookup (registrations d) _ = _\<close> show ?thesis
      by (intro sent) (simp add: dealer_Call_def Let_def)
  qed
qed

text \<open>An ERROR for an invocation changes the state as a YIELD for it does.\<close>

definition yield_of :: "ID \<Rightarrow> Yield" where
  "yield_of i = \<lparr>Yield_Request = i, Yield_Options = None, Yield_Arguments = None, Yield_ArgumentsKw = None\<rparr>"

lemma Yield_state: "fst (dealer_Yield s msg d) = fst (dealer_Yield s' (yield_of (Yield_Request msg)) d)"
  by (simp add: dealer_Yield_def yield_of_def Let_def split: option.splits)

lemma Error_state: "fst (dealer_Error s msg d) = fst (dealer_Yield s' (yield_of (Error_Request msg)) d)"
  by (simp add: dealer_Error_def dealer_Yield_def yield_of_def Let_def split: option.splits)

lemma Yield_maps:
  "procedures (fst (dealer_Yield s msg d)) = procedures d"
  "registrations (fst (dealer_Yield s msg d)) = registrations d"
  "callees (fst (dealer_Yield s msg d)) = callees d"
  "invocations (fst (dealer_Yield s msg d)) = fmdrop (Yield_Request msg) (invocations d)"
  "calls (fst (dealer_Yield s msg d)) =
     (case fmlookup (invocations d) (Yield_Request msg) of
        None \<Rightarrow> calls d | Some cid \<Rightarrow> fmdrop cid (calls d))"
  by (auto simp: dealer_Yield_def Let_def fmdrop_absent split: option.splits)

lemma dl_inv_Yield:
  assumes inv: "dl_inv d"
  shows "dl_inv (fst (dealer_Yield s msg d))"
proof -
  have "\<exists>j. fmlookup (invocations (fst (dealer_Yield s msg d))) j = Some cid"
    if "fmlookup (calls (fst (dealer_Yield s msg d))) cid = Some c" for cid c
  proof -
    from that have cid: "fmlookup (calls d) cid = Some c"
      "fmlookup (invocations d) (Yield_Request msg) \<noteq> Some cid"
      by (auto simp: Yield_maps split: option.splits if_splits)
    then obtain j where "fmlookup (invocations d) j = Some cid"
      using dl_invD(3) [OF inv] by (auto simp: dl_calls_ok_def)
    with cid(2) show ?thesis by (auto simp: Yield_maps)
  qed
  then have "dl_calls_ok (fst (dealer_Yield s msg d))"
    unfolding dl_calls_ok_def by blast
  then show ?thesis
    using dl_invD(1,2) [OF inv] by (simp add: dl_inv_def dl_regs_ok_def dl_owned_ok_def Yield_maps)
qed

lemma dl_inv_Error: "dl_inv d \<Longrightarrow> dl_inv (fst (dealer_Error s msg d))"
  by (simp only: Error_state [of s msg d s] dl_inv_Yield)

lemma dl_inv_Call:
  assumes inv: "dl_inv d" and fresh: "fmlookup (invocations d) (NewID draw) = None"
  shows "dl_inv (fst (dealer_Call heap draw c msg d))"
proof (cases rule: Call_cases [of heap draw c msg d])
  case (sent e i)
  have "\<exists>j. fmlookup (fmupd (NewID draw) (Call_Request msg) (invocations d)) j = Some cid"
    if "fmlookup (fmupd (Call_Request msg) c (calls d)) cid = Some c'" for cid c'
  proof (cases "cid = Call_Request msg")
    case True
    then show ?thesis by (intro exI [of _ "NewID draw"]) simp
  next
    case False
    with that obtain j where "fmlookup (invocations d) j = Some cid"
      using dl_invD(3) [OF inv] by (auto simp: dl_calls_ok_def)
    with fresh show ?thesis by (intro exI [of _ j]) auto
  qed
  then have "dl_calls_ok (fst (dealer_Call heap draw c msg d))"
    unfolding dl_calls_ok_def sent by simp
  then show ?thesis
    using dl_invD(1,2) [OF inv] by (simp add: dl_inv_def dl_regs_ok_def dl_owned_ok_def sent)
next
  case (failed err)
  then show ?thesis using inv by simp
qed

end
