(* ===== verification/Dealer_Runs.thy ===== *)
theory Dealer_Runs
  imports Dealer
begin

text \<open>
  Sequences of dealer operations by any sessions, in the order in which they take the dealer's
  lock, and what holds of all of them: the invariant, at most one answer per call, and the
  answer reaching the caller whatever else happens in between.
\<close>

datatype dealer_op =
    DRegister "64 word" sess_ptr Register
  | DUnregister sess_ptr Unregister
  | DCall "64 word" sess_ptr Call
  | DYield sess_ptr Yield
  | DError sess_ptr Error
  | DRemove sess_ptr

fun dealer_step ::
  "(ID fset \<Rightarrow> ID list) \<Rightarrow> session_heap \<Rightarrow> defaultDealer \<Rightarrow> dealer_op \<Rightarrow> defaultDealer \<times> sends" where
  "dealer_step ord heap d (DRegister draw s m) = dealer_Register draw s m d"
| "dealer_step ord heap d (DUnregister s m) = dealer_Unregister s m d"
| "dealer_step ord heap d (DCall draw s m) = dealer_Call heap draw s m d"
| "dealer_step ord heap d (DYield s m) = dealer_Yield s m d"
| "dealer_step ord heap d (DError s m) = dealer_Error s m d"
| "dealer_step ord heap d (DRemove s) = (dealer_RemoveSession ord s d, [])"

fun dealer_run ::
  "(ID fset \<Rightarrow> ID list) \<Rightarrow> session_heap \<Rightarrow> defaultDealer \<Rightarrow> dealer_op list \<Rightarrow> defaultDealer \<times> sends" where
  "dealer_run ord heap d [] = (d, [])"
| "dealer_run ord heap d (oper # ops) =
     (let (d1, out1) = dealer_step ord heap d oper;
          (d2, out2) = dealer_run ord heap d1 ops
      in (d2, out1 @ out2))"

lemma dealer_run_Cons:
  "fst (dealer_run ord heap d (oper # ops)) =
     fst (dealer_run ord heap (fst (dealer_step ord heap d oper)) ops)"
  "snd (dealer_run ord heap d (oper # ops)) =
     snd (dealer_step ord heap d oper) @ snd (dealer_run ord heap (fst (dealer_step ord heap d oper)) ops)"
  by (simp_all add: case_prod_beta Let_def)

declare dealer_run.simps(2) [simp del]
lemmas dealer_run_simps [simp] = dealer_run_Cons

text \<open>The identifiers an operation draws are not in use.\<close>

fun op_fresh :: "defaultDealer \<Rightarrow> dealer_op \<Rightarrow> bool" where
  "op_fresh d (DRegister draw s m) = dl_fresh d (NewID draw)"
| "op_fresh d (DCall draw s m) = (fmlookup (invocations d) (NewID draw) = None)"
| "op_fresh d _ = True"

fun run_fresh :: "(ID fset \<Rightarrow> ID list) \<Rightarrow> session_heap \<Rightarrow> defaultDealer \<Rightarrow> dealer_op list \<Rightarrow> bool" where
  "run_fresh ord heap d [] = True"
| "run_fresh ord heap d (oper # ops) =
     (op_fresh d oper \<and> run_fresh ord heap (fst (dealer_step ord heap d oper)) ops)"

lemma dl_inv_step:
  "dl_inv d \<Longrightarrow> map_order ord \<Longrightarrow> op_fresh d oper \<Longrightarrow> dl_inv (fst (dealer_step ord heap d oper))"
  by (cases oper)
     (simp_all add: dl_inv_Register dl_inv_Unregister dl_inv_Call dl_inv_Yield dl_inv_Error
       dl_inv_RemoveSession)

lemma dl_inv_run:
  "dl_inv d \<Longrightarrow> map_order ord \<Longrightarrow> run_fresh ord heap d ops \<Longrightarrow> dl_inv (fst (dealer_run ord heap d ops))"
  by (induction ops arbitrary: d) (simp_all add: dl_inv_step)

section \<open>Counting calls and answers\<close>

text \<open>A message that ends a CALL with request identifier \<open>r\<close>.\<close>

fun answers :: "ID \<Rightarrow> message \<Rightarrow> bool" where
  "answers r (MResult m) = (Result_Request m = r)"
| "answers r (MError m) = (Error_Type m = CALL \<and> Error_Request m = r)"
| "answers r _ = False"

fun calls_with :: "ID \<Rightarrow> dealer_op \<Rightarrow> bool" where
  "calls_with r (DCall draw s m) = (Call_Request m = r)"
| "calls_with r _ = False"

definition n_answers :: "ID \<Rightarrow> sends \<Rightarrow> nat" where
  "n_answers r out = length (filter (\<lambda>x. answers r (snd x)) out)"

definition n_calls :: "ID \<Rightarrow> dealer_op list \<Rightarrow> nat" where
  "n_calls r ops = length (filter (calls_with r) ops)"

lemma n_answers_simps [simp]:
  "n_answers r [] = 0"
  "n_answers r (x # out) = (if answers r (snd x) then 1 else 0) + n_answers r out"
  "n_answers r (out @ out') = n_answers r out + n_answers r out'"
  by (simp_all add: n_answers_def)

lemma n_calls_simps [simp]:
  "n_calls r [] = 0"
  "n_calls r (x # ops) = (if calls_with r x then 1 else 0) + n_calls r ops"
  by (simp_all add: n_calls_def)

lemma answers_dealer_error [simp]:
  "answers r (dealer_error t q e) \<longleftrightarrow> t = CALL \<and> q = r"
  by (simp add: dealer_error_def)

definition waiting :: "ID \<Rightarrow> defaultDealer \<Rightarrow> ID set" where
  "waiting r d = {i. fmlookup (invocations d) i = Some r}"

lemma finite_waiting [simp]: "finite (waiting r d)"
  by (rule finite_subset [of _ "fmdom' (invocations d)"]) (auto simp: waiting_def fmlookup_dom'_iff)

lemma waiting_cong: "invocations d = invocations d' \<Longrightarrow> waiting r d = waiting r d'"
  by (simp add: waiting_def)

lemma n_answers_Yield:
  "n_answers r (snd (dealer_Yield s m d)) + card (waiting r (fst (dealer_Yield s m d))) \<le> card (waiting r d)"
proof -
  have w: "waiting r (fst (dealer_Yield s m d)) = waiting r d - {Yield_Request m}"
    by (auto simp: waiting_def Yield_maps)
  show ?thesis
  proof (cases "Yield_Request m \<in> waiting r d")
    case True
    then have "card (waiting r d - {Yield_Request m}) + 1 = card (waiting r d)"
      by (metis Suc_eq_plus1 card.remove finite_waiting)
    moreover have "n_answers r (snd (dealer_Yield s m d)) \<le> 1"
      by (simp add: dealer_Yield_def Let_def split: option.splits)
    ultimately show ?thesis using w by simp
  next
    case False
    then have "n_answers r (snd (dealer_Yield s m d)) = 0"
      by (auto simp: dealer_Yield_def waiting_def Let_def split: option.splits)
    with False w show ?thesis by simp
  qed
qed

lemma n_answers_Error:
  "n_answers r (snd (dealer_Error s m d)) + card (waiting r (fst (dealer_Error s m d))) \<le> card (waiting r d)"
proof -
  have "n_answers r (snd (dealer_Error s m d)) =
      n_answers r (snd (dealer_Yield s (yield_of (Error_Request m)) d))"
    by (simp add: dealer_Error_def dealer_Yield_def yield_of_def Let_def split: option.splits)
  then show ?thesis
    using n_answers_Yield [of r s "yield_of (Error_Request m)" d] by (simp add: Error_state [of s m d s])
qed

lemma n_answers_Call:
  "n_answers r (snd (dealer_Call heap draw c m d)) + card (waiting r (fst (dealer_Call heap draw c m d)))
     \<le> (if Call_Request m = r then 1 else 0) + card (waiting r d)"
proof (cases rule: Call_cases [of heap draw c m d])
  case (sent e i)
  have "waiting r (fst (dealer_Call heap draw c m d)) \<subseteq>
      (if Call_Request m = r then insert (NewID draw) (waiting r d) else waiting r d)"
    by (auto simp: sent waiting_def)
  then have "card (waiting r (fst (dealer_Call heap draw c m d)))
      \<le> card (if Call_Request m = r then insert (NewID draw) (waiting r d) else waiting r d)"
    by (intro card_mono) auto
  also have "\<dots> \<le> (if Call_Request m = r then 1 else 0) + card (waiting r d)"
    by (simp add: card_insert_if)
  finally show ?thesis by (simp add: sent)
next
  case (failed err)
  then show ?thesis by simp
qed

lemma other_step_waiting:
  "invocations (fst (dealer_Register draw s rm d)) = invocations d"
  "n_answers r (snd (dealer_Register draw s rm d)) = 0"
  "invocations (fst (dealer_Unregister s um d)) = invocations d"
  "n_answers r (snd (dealer_Unregister s um d)) = 0"
  by (simp_all add: dealer_Register_def dealer_Unregister_def addCallee_maps removeCallee_maps
      Let_def mtypes split: option.splits)

lemma dl_RemoveSession_pending:
  "invocations (dealer_RemoveSession ord s d) = invocations d"
  "calls (dealer_RemoveSession ord s d) = calls d"
proof -
  have "invocations (fold (dealer_RemoveSession_step s) ids d) = invocations d
      \<and> calls (fold (dealer_RemoveSession_step s) ids d) = calls d" for ids
    by (induction ids arbitrary: d) (simp_all add: dl_RemoveSession_step_maps split: option.splits)
  then show "invocations (dealer_RemoveSession ord s d) = invocations d"
    and "calls (dealer_RemoveSession ord s d) = calls d"
    by (simp_all add: dealer_RemoveSession_def Let_def)
qed

lemma n_answers_step:
  "n_answers r (snd (dealer_step ord heap d oper)) + card (waiting r (fst (dealer_step ord heap d oper)))
     \<le> (if calls_with r oper then 1 else 0) + card (waiting r d)"
proof (cases oper)
  case (DCall draw s m)
  then show ?thesis using n_answers_Call [of r heap draw s m d] by simp
next
  case (DYield s m)
  then show ?thesis using n_answers_Yield [of r s m d] by simp
next
  case (DError s m)
  then show ?thesis using n_answers_Error [of r s m d] by simp
qed (simp_all add: waiting_def other_step_waiting dl_RemoveSession_pending)

lemma n_answers_run:
  "n_answers r (snd (dealer_run ord heap d ops)) + card (waiting r (fst (dealer_run ord heap d ops)))
     \<le> n_calls r ops + card (waiting r d)"
proof (induction ops arbitrary: d)
  case Nil
  then show ?case by simp
next
  case (Cons oper ops)
  show ?case
    unfolding dealer_run_Cons n_answers_simps n_calls_simps
    using n_answers_step [of r ord heap d oper]
      Cons.IH [of "fst (dealer_step ord heap d oper)"] by linarith
qed

section \<open>A pending call\<close>

text \<open>Invocation \<open>i\<close>, and only it, will answer the call \<open>r\<close> of session \<open>c\<close>.\<close>

definition pending :: "defaultDealer \<Rightarrow> ID \<Rightarrow> ID \<Rightarrow> sess_ptr \<Rightarrow> bool" where
  "pending d i r c \<longleftrightarrow>
     fmlookup (invocations d) i = Some r \<and> fmlookup (calls d) r = Some c
     \<and> (\<forall>j. fmlookup (invocations d) j = Some r \<longrightarrow> j = i)"

text \<open>An operation that neither answers invocation \<open>i\<close> nor uses its identifiers for a new call.\<close>

fun leaves_pending :: "ID \<Rightarrow> ID \<Rightarrow> dealer_op \<Rightarrow> bool" where
  "leaves_pending i r (DCall draw s m) = (Call_Request m \<noteq> r \<and> NewID draw \<noteq> i)"
| "leaves_pending i r (DYield s m) = (Yield_Request m \<noteq> i)"
| "leaves_pending i r (DError s m) = (Error_Request m \<noteq> i)"
| "leaves_pending i r _ = True"

lemma pending_Yield:
  assumes "pending d i r c" "Yield_Request m \<noteq> i"
  shows "pending (fst (dealer_Yield s m d)) i r c"
proof -
  have "fmlookup (invocations d) (Yield_Request m) \<noteq> Some r"
    using assms by (auto simp: pending_def)
  with assms show ?thesis
    by (auto simp: pending_def Yield_maps split: option.splits if_splits)
qed

lemma pending_step:
  assumes p: "pending d i r c" and l: "leaves_pending i r oper"
  shows "pending (fst (dealer_step ord heap d oper)) i r c"
proof (cases oper)
  case (DCall draw s m)
  then show ?thesis
  proof (cases rule: Call_cases [of heap draw s m d])
    case (sent e inv)
    with p l DCall show ?thesis by (auto simp: pending_def split: if_splits)
  next
    case (failed err)
    with p DCall show ?thesis by simp
  qed
next
  case (DYield s m)
  with p l show ?thesis by (simp add: pending_Yield)
next
  case (DError s m)
  with l have "Yield_Request (yield_of (Error_Request m)) \<noteq> i" by (simp add: yield_of_def)
  then have "pending (fst (dealer_Yield s (yield_of (Error_Request m)) d)) i r c"
    using p by (intro pending_Yield)
  with DError show ?thesis by (simp add: Error_state [of s m d s])
next
  case (DRegister draw s m)
  have "calls (fst (dealer_Register draw s m d)) = calls d"
    by (simp add: dealer_Register_def addCallee_maps Let_def split: option.splits)
  with p DRegister show ?thesis by (simp add: pending_def other_step_waiting)
next
  case (DUnregister s m)
  have "calls (fst (dealer_Unregister s m d)) = calls d"
    by (simp add: dealer_Unregister_def removeCallee_maps Let_def split: option.splits)
  with p DUnregister show ?thesis by (simp add: pending_def other_step_waiting)
next
  case (DRemove s)
  with p show ?thesis by (simp add: pending_def dl_RemoveSession_pending)
qed

lemma pending_run:
  "pending d i r c \<Longrightarrow> list_all (leaves_pending i r) ops \<Longrightarrow>
   pending (fst (dealer_run ord heap d ops)) i r c"
  by (induction ops arbitrary: d) (simp_all add: pending_step)

lemma Yield_pending:
  "pending d i r c \<Longrightarrow> Yield_Request m = i \<Longrightarrow>
   snd (dealer_Yield s m d) = [(c, MResult \<lparr>Result_Request = r, Result_Details = dict_make,
      Result_Arguments = Yield_Arguments m, Result_ArgumentsKw = Yield_ArgumentsKw m\<rparr>)]"
  by (simp add: pending_def dealer_Yield_def)

lemma Error_pending:
  "pending d i r c \<Longrightarrow> Error_Request m = i \<Longrightarrow>
   snd (dealer_Error s m d) = [(c, MError \<lparr>Error_Type = CALL, Error_Request = r,
      Error_Details = dict_make, Error_Error = Error_Error m,
      Error_Arguments = Error_Arguments m, Error_ArgumentsKw = Error_ArgumentsKw m\<rparr>)]"
  by (simp add: pending_def dealer_Error_def)

lemma Yield_twice: "snd (dealer_Yield s' m' (fst (dealer_Yield s m d))) = []"
  if "Yield_Request m' = Yield_Request m"
  using that by (simp add: dealer_Yield_def [of s' m'] Yield_maps)

lemma pending_Call:
  assumes "dl_inv d" "dl_live d reg = Some (Call_Procedure msg, e)"
    and "\<forall>j. fmlookup (invocations d) j \<noteq> Some (Call_Request msg)"
  shows "pending (fst (dealer_Call heap draw c msg d)) (NewID draw) (Call_Request msg) c"
  using assms(3) by (auto simp: pending_def Call_live [OF assms(1,2)])

lemma answer_origin:
  "(c, MResult res) \<in> set (snd (dealer_run ord heap d ops)) \<Longrightarrow>
     (fmlookup (calls d) (Result_Request res) = Some c \<or>
      (\<exists>draw m. DCall draw c m \<in> set ops \<and> Call_Request m = Result_Request res))
     \<and> (\<exists>s y. DYield s y \<in> set ops \<and> Result_Arguments res = Yield_Arguments y
            \<and> Result_ArgumentsKw res = Yield_ArgumentsKw y)"
proof (induction ops arbitrary: d)
  case Nil
  then show ?case by simp
next
  case (Cons oper ops)
  let ?d1 = "fst (dealer_step ord heap d oper)"
  have kept: "fmlookup (calls d) r = Some c \<or> (\<exists>draw m. oper = DCall draw c m \<and> Call_Request m = r)"
    if "fmlookup (calls ?d1) r = Some c" for r
  proof (cases oper)
    case (DCall draw s m)
    with that show ?thesis
      by (cases rule: Call_cases [of heap draw s m d]) (auto split: if_splits)
  next
    case (DError s m)
    with that show ?thesis
      by (auto simp: Error_state [of s m d s] Yield_maps split: option.splits if_splits)
  qed (use that in \<open>auto simp: Yield_maps dl_RemoveSession_pending dealer_Register_def
         dealer_Unregister_def addCallee_maps removeCallee_maps Let_def
         split: option.splits if_splits\<close>)
  from Cons.prems consider "(c, MResult res) \<in> set (snd (dealer_step ord heap d oper))"
    | "(c, MResult res) \<in> set (snd (dealer_run ord heap ?d1 ops))"
    by auto
  then show ?case
  proof cases
    case 1
    then obtain s y where "oper = DYield s y" "(c, MResult res) \<in> set (snd (dealer_Yield s y d))"
      by (cases oper) (auto simp: dealer_Register_def dealer_Unregister_def dealer_Error_def
          dealer_Call_def dealer_error_def Let_def split: option.splits)
    then show ?thesis
      by (auto simp: dealer_Yield_def Let_def split: option.splits)
  next
    case 2
    then show ?thesis using Cons.IH [OF 2] kept by (metis list.set_intros)
  qed
qed

section \<open>Properties of the dealer\<close>

definition demo_call :: Call where
  "demo_call = \<lparr>Call_Request = 4, Call_Options = None, Call_Procedure = ''p'',
     Call_Arguments = Some [VBool True], Call_ArgumentsKw = None\<rparr>"

definition demo_yield :: "ID \<Rightarrow> Yield" where
  "demo_yield i = \<lparr>Yield_Request = i, Yield_Options = None, Yield_Arguments = Some [VBool False],
     Yield_ArgumentsKw = None\<rparr>"

definition demo_heap :: session_heap where
  "demo_heap s = \<lparr>Session_Id = of_nat s, Session_Details = None\<rparr>"

text \<open>Session 1 has registered procedure \<open>p\<close> as registration 7.\<close>

definition demo_dealer :: defaultDealer where
  "demo_dealer = fst (dealer_Register 7 1 (register_msg ''p'') NewDefaultDealer)"

lemma demo_dealer_inv [simp]: "dl_inv demo_dealer"
  unfolding demo_dealer_def by (rule dl_inv_Register [OF dl_inv_New]) simp

lemma demo_dealer_live [simp]: "dl_live demo_dealer = (\<lambda>i. if i = 7 then Some (''p'', 1) else None)"
  by (rule ext) (simp add: demo_dealer_def dl_live_def dealer_Register_def register_msg_def
      NewDefaultDealer_def addCallee_maps NewID_id)

lemma demo_dealer_calls [simp]: "invocations demo_dealer = fmempty" "calls demo_dealer = fmempty"
  by (simp_all add: demo_dealer_def dealer_Register_def register_msg_def NewDefaultDealer_def
      addCallee_maps Let_def)

text \<open>
  C32. After any sequence of registrations, calls, answers and departures by any sessions, with
  identifiers that were free when drawn, the dealer's maps agree: procedures and registrations
  are inverse to each other, every registration is in its callee's set and in no other set, no
  set is empty, and every pending call has an invocation that will answer it.
\<close>

theorem dealer_run_inv:
  assumes "map_order ord" and "run_fresh ord heap NewDefaultDealer ops"
  shows "dl_inv (fst (dealer_run ord heap NewDefaultDealer ops))"
  using dl_inv_New assms by (rule dl_inv_run)

theorem dealer_run_inv_witness:
  "dl_inv (fst (dealer_run sorted_list_of_fset demo_heap NewDefaultDealer
     [DRegister 7 1 (register_msg ''p''), DCall 8 2 demo_call, DRemove 1, DYield 3 (demo_yield 8)]))"
  by (rule dealer_run_inv [OF map_order_sorted])
     (simp add: other_step_waiting, simp add: NewDefaultDealer_def)

text \<open>
  A call is either refused or dispatched, once: for a procedure nobody has registered the
  caller alone gets the error \<open>no_such_procedure\<close> and nothing changes; otherwise the session
  that registered it, and nobody else, gets one INVOCATION with the call's arguments.  The
  internal-error reply of the code is never sent.
\<close>

theorem call_dispatch:
  assumes "dl_inv d"
  shows "case fmlookup (registrations d) (Call_Procedure msg) of
           None \<Rightarrow> dealer_Call heap draw c msg d =
             (d, [(c, dealer_error CALL (Call_Request msg) ErrNoSuchProcedure)])
         | Some reg \<Rightarrow> \<exists>e. dl_live d reg = Some (Call_Procedure msg, e)
             \<and> snd (dealer_Call heap draw c msg d) =
                 [(e, MInvocation \<lparr>Invocation_Request = NewID draw, Invocation_Registration = reg,
                        Invocation_Details = call_details heap c msg,
                        Invocation_Arguments = Call_Arguments msg,
                        Invocation_ArgumentsKw = Call_ArgumentsKw msg\<rparr>)]"
proof (cases "fmlookup (registrations d) (Call_Procedure msg)")
  case None
  then show ?thesis by (simp add: Call_unknown)
next
  case (Some reg)
  then obtain e where "dl_live d reg = Some (Call_Procedure msg, e)"
    using registration_dl_live [OF assms] by blast
  with Some show ?thesis by (simp add: Call_live [OF assms])
qed

theorem call_dispatch_witness:
  "snd (dealer_Call demo_heap 8 2 demo_call demo_dealer) =
     [(1, MInvocation \<lparr>Invocation_Request = 8, Invocation_Registration = 7,
            Invocation_Details = dict_make, Invocation_Arguments = Some [VBool True],
            Invocation_ArgumentsKw = None\<rparr>)]"
  using call_dispatch [OF demo_dealer_inv, where msg = demo_call and heap = demo_heap and draw = 8 and c = 2]
    dl_live_registration [OF demo_dealer_inv, of 7 "''p''" 1]
  by (auto simp: demo_call_def call_details_def NewID_id)

text \<open>
  C2. A call is answered by its own invocation, whatever happens in between: once a CALL whose
  request identifier is not pending has been dispatched, any sequence of operations of any
  sessions that neither answers this invocation nor reuses its two identifiers leaves it
  answerable; a YIELD for it then sends one RESULT with the call's request identifier and the
  YIELD's arguments to the caller, an ERROR for it one ERROR, and a second YIELD nothing.
\<close>

theorem rpc_answer:
  fixes ord :: "ID fset \<Rightarrow> ID list" and heap :: session_heap and c :: sess_ptr
  assumes inv: "dl_inv d" and live: "dl_live d reg = Some (Call_Procedure msg, e)"
    and new: "\<forall>j. fmlookup (invocations d) j \<noteq> Some (Call_Request msg)"
    and other: "list_all (leaves_pending (NewID draw) (Call_Request msg)) ops"
    and y: "Yield_Request y = NewID draw" and er: "Error_Request er = NewID draw"
  defines "d2 \<equiv> fst (dealer_run ord heap (fst (dealer_Call heap draw c msg d)) ops)"
  shows "snd (dealer_Yield s y d2) =
           [(c, MResult \<lparr>Result_Request = Call_Request msg, Result_Details = dict_make,
              Result_Arguments = Yield_Arguments y, Result_ArgumentsKw = Yield_ArgumentsKw y\<rparr>)]
         \<and> snd (dealer_Error s er d2) =
           [(c, MError \<lparr>Error_Type = CALL, Error_Request = Call_Request msg,
              Error_Details = dict_make, Error_Error = Error_Error er,
              Error_Arguments = Error_Arguments er, Error_ArgumentsKw = Error_ArgumentsKw er\<rparr>)]
         \<and> snd (dealer_Yield s' y (fst (dealer_Yield s y d2))) = []"
proof -
  have "pending (fst (dealer_Call heap draw c msg d)) (NewID draw) (Call_Request msg) c"
    using inv live new by (rule pending_Call)
  then have "pending d2 (NewID draw) (Call_Request msg) c"
    unfolding d2_def using other by (rule pending_run)
  then show ?thesis
    using y er by (simp add: Yield_pending Error_pending Yield_twice)
qed

theorem rpc_answer_witness:
  "snd (dealer_Yield 1 (demo_yield 8) (fst (dealer_run sorted_list_of_fset demo_heap
     (fst (dealer_Call demo_heap 8 2 demo_call demo_dealer)) [DRemove 1, DYield 1 (demo_yield 9)]))) =
   [(2, MResult \<lparr>Result_Request = 4, Result_Details = dict_make,
      Result_Arguments = Some [VBool False], Result_ArgumentsKw = None\<rparr>)]"
  using rpc_answer [OF demo_dealer_inv, where reg = 7 and msg = demo_call and e = 1 and draw = 8
      and ops = "[DRemove 1, DYield 1 (demo_yield 9)]" and y = "demo_yield 8"
      and er = "\<lparr>Error_Type = INVOCATION, Error_Request = 8, Error_Details = None,
         Error_Error = [], Error_Arguments = None, Error_ArgumentsKw = None\<rparr>"
      and ord = sorted_list_of_fset and heap = demo_heap and c = 2 and s = 1 and s' = 1]
  by (simp add: demo_call_def demo_yield_def NewID_id)

text \<open>
  No call is answered twice: over any sequence of operations from the empty dealer, the
  RESULTs and CALL errors sent with a request identifier are no more than the CALLs received
  with it.
\<close>

theorem answers_at_most_calls:
  "n_answers r (snd (dealer_run ord heap NewDefaultDealer ops)) \<le> n_calls r ops"
proof -
  have "waiting r NewDefaultDealer = {}" by (simp add: waiting_def NewDefaultDealer_def)
  then show ?thesis using n_answers_run [of r ord heap NewDefaultDealer ops] by simp
qed

text \<open>
  A RESULT is never invented: in any sequence of operations from the empty dealer, a RESULT
  sent to a session answers a CALL of that session with the same request identifier, and its
  arguments are those of a YIELD in the sequence.
\<close>

theorem result_has_origin:
  assumes "(c, MResult res) \<in> set (snd (dealer_run ord heap NewDefaultDealer ops))"
  shows "(\<exists>draw m. DCall draw c m \<in> set ops \<and> Call_Request m = Result_Request res)
         \<and> (\<exists>s y. DYield s y \<in> set ops \<and> Result_Arguments res = Yield_Arguments y
                \<and> Result_ArgumentsKw res = Yield_ArgumentsKw y)"
  using answer_origin [OF assms] by (simp add: NewDefaultDealer_def)

theorem result_has_origin_witness:
  "\<exists>draw m. DCall draw 2 m \<in> set [DRegister 7 1 (register_msg ''p''), DCall 8 2 demo_call,
     DYield 1 (demo_yield 8)] \<and> Call_Request m = 4"
proof -
  have "(2, MResult \<lparr>Result_Request = 4, Result_Details = dict_make,
      Result_Arguments = Some [VBool False], Result_ArgumentsKw = None\<rparr>)
    \<in> set (snd (dealer_run sorted_list_of_fset demo_heap NewDefaultDealer
        [DRegister 7 1 (register_msg ''p''), DCall 8 2 demo_call, DYield 1 (demo_yield 8)]))"
    by (simp add: dealer_Register_def register_msg_def NewDefaultDealer_def addCallee_maps
        dealer_Call_def dealer_Yield_def demo_call_def demo_yield_def NewID_id Let_def)
  from result_has_origin [OF this] show ?thesis by simp
qed

text \<open>
  A procedure has one registration at a time: registering a URI that is registered is
  refused with \<open>procedure_already_exists\<close> and changes nothing, whoever asks; once the session
  that holds it has been removed, the URI can be registered again and calls go to the new callee.
\<close>

theorem register_exclusive:
  assumes inv: "dl_inv d" and live: "dl_live d i = Some (Register_Procedure msg, owner)"
    and ord: "map_order ord"
  shows "dealer_Register draw s msg d =
           (d, [(s, dealer_error REGISTER (Register_Request msg) ErrProcedureAlreadyExists)])
         \<and> dl_live (fst (dealer_Register draw s msg (dealer_RemoveSession ord owner d))) (NewID draw)
             = Some (Register_Procedure msg, s)
         \<and> snd (dealer_Register draw s msg (dealer_RemoveSession ord owner d)) =
             [(s, MRegistered \<lparr>Registered_Request = Register_Request msg,
                               Registered_Registration = NewID draw\<rparr>)]"
proof -
  note inv' = dl_inv_RemoveSession [OF inv ord, of owner]
  have "fmlookup (registrations (dealer_RemoveSession ord owner d)) (Register_Procedure msg) = None"
  proof (rule ccontr)
    assume "fmlookup (registrations (dealer_RemoveSession ord owner d)) (Register_Procedure msg) \<noteq> None"
    then obtain j s' where j: "dl_live (dealer_RemoveSession ord owner d) j = Some (Register_Procedure msg, s')"
      using registration_dl_live [OF inv'] by blast
    then have "dl_live d j = Some (Register_Procedure msg, s')" "s' \<noteq> owner"
      by (auto simp: dl_live_RemoveSession [OF inv ord] split: option.splits if_splits)
    with live regs.uri_unique [OF inv] show False by fastforce
  qed
  then show ?thesis
    using Register_exists [OF dl_live_registration [OF inv live]]
    by (simp add: dl_live_Register) (simp add: dealer_Register_def Let_def)
qed

theorem register_exclusive_witness:
  "dealer_Register 9 2 (register_msg ''p'') demo_dealer =
     (demo_dealer, [(2, dealer_error REGISTER 0 ErrProcedureAlreadyExists)])"
  using register_exclusive [OF demo_dealer_inv, of 7 "register_msg ''p''" 1 sorted_list_of_fset 9 2]
  by (simp add: register_msg_def)

text \<open>
  Pending calls are keyed by the request identifier the caller chose, so calls of different
  sessions with the same identifier collide: the first invocation's RESULT goes to the session
  that called last, and the second invocation's RESULT is dropped.
\<close>

theorem request_id_collision:
  fixes heap :: session_heap and c1 c2 :: sess_ptr
  assumes inv: "dl_inv d"
    and live1: "dl_live d reg1 = Some (Call_Procedure m1, e1)"
    and live2: "dl_live d reg2 = Some (Call_Procedure m2, e2)"
    and same: "Call_Request m1 = Call_Request m2" and iids: "NewID draw1 \<noteq> NewID draw2"
    and fresh: "fmlookup (invocations d) (NewID draw1) = None"
    and y1: "Yield_Request y1 = NewID draw1" and y2: "Yield_Request y2 = NewID draw2"
  defines "d2 \<equiv> fst (dealer_Call heap draw2 c2 m2 (fst (dealer_Call heap draw1 c1 m1 d)))"
  shows "snd (dealer_Yield e1 y1 d2) =
           [(c2, MResult \<lparr>Result_Request = Call_Request m1, Result_Details = dict_make,
              Result_Arguments = Yield_Arguments y1, Result_ArgumentsKw = Yield_ArgumentsKw y1\<rparr>)]
         \<and> snd (dealer_Yield e2 y2 (fst (dealer_Yield e1 y1 d2))) = []"
proof -
  let ?d1 = "fst (dealer_Call heap draw1 c1 m1 d)"
  have inv1: "dl_inv ?d1" using inv fresh by (rule dl_inv_Call)
  have "dl_live ?d1 reg2 = Some (Call_Procedure m2, e2)"
    using live2 by (simp add: Call_live [OF inv live1] dl_live_def)
  then have d2: "d2 = ?d1\<lparr>calls := fmupd (Call_Request m2) c2 (calls ?d1),
      invocations := fmupd (NewID draw2) (Call_Request m2) (invocations ?d1)\<rparr>"
    unfolding d2_def using Call_live [OF inv1] by simp
  show ?thesis
    using same iids y1 y2 by (simp add: d2 Call_live [OF inv live1] dealer_Yield_def Let_def)
qed

theorem request_id_collision_witness:
  "snd (dealer_Yield 1 (demo_yield 8) (fst (dealer_Call demo_heap 9 3 demo_call
      (fst (dealer_Call demo_heap 8 2 demo_call demo_dealer))))) =
   [(3, MResult \<lparr>Result_Request = 4, Result_Details = dict_make,
      Result_Arguments = Some [VBool False], Result_ArgumentsKw = None\<rparr>)]"
  using request_id_collision [OF demo_dealer_inv, where ?reg1.0 = 7 and ?reg2.0 = 7
      and ?m1.0 = demo_call and ?m2.0 = demo_call and ?e1.0 = 1 and ?e2.0 = 1
      and ?draw1.0 = 8 and ?draw2.0 = 9 and ?y1.0 = "demo_yield 8" and ?y2.0 = "demo_yield 9"
      and heap = demo_heap and ?c2.0 = 3 and ?c1.0 = 2]
  by (simp add: demo_call_def demo_yield_def NewID_id)

text \<open>
  When a callee leaves, the calls it had not answered stay pending: its registrations are
  gone and its procedures cannot be called, but the caller of a dispatched call is sent nothing
  (removal sends no message), the call stays in the map, and a YIELD of any session that names
  the invocation is delivered to the caller as its RESULT.
\<close>

theorem callee_leaves_call_pending:
  fixes heap :: session_heap and c :: sess_ptr
  assumes inv: "dl_inv d" and live: "dl_live d reg = Some (Call_Procedure msg, e)"
    and new: "\<forall>j. fmlookup (invocations d) j \<noteq> Some (Call_Request msg)"
    and fresh: "fmlookup (invocations d) (NewID draw) = None"
    and ord: "map_order ord" and y: "Yield_Request y = NewID draw"
  defines "d2 \<equiv> fst (dealer_step ord heap (fst (dealer_Call heap draw c msg d)) (DRemove e))"
  shows "snd (dealer_step ord heap (fst (dealer_Call heap draw c msg d)) (DRemove e)) = []
         \<and> fmlookup (calls d2) (Call_Request msg) = Some c
         \<and> dealer_Call heap draw' c msg d2 =
             (d2, [(c, dealer_error CALL (Call_Request msg) ErrNoSuchProcedure)])
         \<and> snd (dealer_Yield stranger y d2) =
             [(c, MResult \<lparr>Result_Request = Call_Request msg, Result_Details = dict_make,
                Result_Arguments = Yield_Arguments y, Result_ArgumentsKw = Yield_ArgumentsKw y\<rparr>)]"
proof -
  let ?d1 = "fst (dealer_Call heap draw c msg d)"
  have inv1: "dl_inv ?d1" using inv fresh by (rule dl_inv_Call)
  have live1: "dl_live ?d1 reg = Some (Call_Procedure msg, e)"
    using live by (simp add: Call_live [OF inv live] dl_live_def)
  have d2: "d2 = dealer_RemoveSession ord e ?d1" by (simp add: d2_def)
  have p: "pending d2 (NewID draw) (Call_Request msg) c"
    unfolding d2_def using pending_Call [OF inv live new] by (rule pending_step) simp
  have "fmlookup (registrations d2) (Call_Procedure msg) = None"
  proof (rule ccontr)
    assume "fmlookup (registrations d2) (Call_Procedure msg) \<noteq> None"
    then obtain j s' where "dl_live d2 j = Some (Call_Procedure msg, s')"
      using registration_dl_live dl_inv_RemoveSession [OF inv1 ord] d2 by blast
    then have "dl_live ?d1 j = Some (Call_Procedure msg, s')" "s' \<noteq> e"
      by (auto simp: d2 dl_live_RemoveSession [OF inv1 ord] split: option.splits if_splits)
    with live1 regs.uri_unique [OF inv1] show False by fastforce
  qed
  then show ?thesis
    using p y by (simp add: Call_unknown Yield_pending) (simp add: pending_def)
qed

theorem callee_leaves_call_pending_witness:
  "fmlookup (calls (dealer_RemoveSession sorted_list_of_fset 1
      (fst (dealer_Call demo_heap 8 2 demo_call demo_dealer)))) 4 = Some 2"
  using callee_leaves_call_pending [OF demo_dealer_inv, where reg = 7 and msg = demo_call and e = 1
      and draw = 8 and ord = sorted_list_of_fset and y = "demo_yield 8" and heap = demo_heap
      and c = 2 and draw' = 9 and stranger = 3]
  by (simp add: demo_call_def demo_yield_def NewID_id)

text \<open>
  \<open>Unregister\<close> does not ask who registered: a session that names another session's
  registration removes the procedure and is told UNREGISTERED; the callee is told nothing, and
  its set keeps the removed identifier.
\<close>

theorem unregister_by_stranger:
  assumes inv: "dl_inv d" and live: "dl_live d (Unregister_Registration msg) = Some (u, owner)"
    and stranger: "s \<noteq> owner"
  shows "dl_live (fst (dealer_Unregister s msg d)) (Unregister_Registration msg) = None
         \<and> snd (dealer_Unregister s msg d) =
             [(s, MUnregistered \<lparr>Unregistered_Request = Unregister_Request msg\<rparr>)]
         \<and> get2 (callees (fst (dealer_Unregister s msg d))) owner (Unregister_Registration msg) = Some True"
proof -
  from live obtain rp where rp: "fmlookup (procedures d) (Unregister_Registration msg) = Some rp"
    "rp_Endpoint rp = owner"
    by (auto simp: dl_live_def)
  have "get2 (callees d) owner (Unregister_Registration msg) = Some True"
    using dl_owned_okD(2) [OF dl_invD(2) [OF inv] rp(1)] rp(2) by simp
  with stranger have "get2 (callees (fst (dealer_Unregister s msg d))) owner (Unregister_Registration msg)
      = Some True"
    by (simp add: Unregister_maps [OF rp(1)])
  moreover have "snd (dealer_Unregister s msg d) =
      [(s, MUnregistered \<lparr>Unregistered_Request = Unregister_Request msg\<rparr>)]"
    using rp(1) by (simp add: dealer_Unregister_def Let_def)
  ultimately show ?thesis by (simp add: dl_live_Unregister)
qed

theorem unregister_by_stranger_witness:
  "dl_live (fst (dealer_Unregister 2 (unregister_msg 7) demo_dealer)) 7 = None"
  using unregister_by_stranger [OF demo_dealer_inv, of "unregister_msg 7" "''p''" 1 2]
  by (simp add: unregister_msg_def)

end
