(* ===== verification/Auth.thy ===== *)
theory Auth
  imports Session
begin

text \<open>
  \<^verbatim>\<open>authentication.go\<close>, \<^verbatim>\<open>authorizer.go\<close> and \<^verbatim>\<open>interceptor.go\<close>: what a
  realm lets its user plug in.  An interface is the record (or the type) of its methods.
  The implementations in the repository follow.
\<close>

record CRAuthenticator =
  CRAuthenticator_Challenge :: "dict \<Rightarrow> go_error + dict"
  CRAuthenticator_Authenticate :: "dict \<Rightarrow> string \<Rightarrow> go_error + dict"

record Authenticator =
  Authenticator_Authenticate :: "dict \<Rightarrow> go_error + dict"

text \<open>
  \<open>Authorize\<close> returns a verdict and an error together; \<open>Intercept\<close> gets a pointer to the
  message and may replace it, so here it returns the message that is there afterwards.
\<close>

type_synonym Authorizer = "Session \<Rightarrow> message \<Rightarrow> bool \<times> go_error option"
type_synonym Interceptor = "Session \<Rightarrow> message \<Rightarrow> message"

definition defaultAuthorizer_Authorize :: Authorizer where
  "defaultAuthorizer_Authorize sess msg = (True, None)"

definition defaultInterceptor_Intercept :: Interceptor where
  "defaultInterceptor_Intercept sess msg = msg"

section \<open>Tickets\<close>

record basicTicketAuthenticator =
  tickets :: "(string, bool) fmap"

definition basicTicket_Challenge :: "basicTicketAuthenticator \<Rightarrow> dict \<Rightarrow> go_error + dict" where
  "basicTicket_Challenge t details = Inr dict_make"

definition basicTicket_Authenticate ::
  "basicTicketAuthenticator \<Rightarrow> dict \<Rightarrow> string \<Rightarrow> go_error + dict" where
  "basicTicket_Authenticate t challenge signature =
     (if fmlookup (tickets t) signature \<noteq> Some True then Inl ''Invalid ticket'' else Inr None)"

fun add_tickets :: "string list \<Rightarrow> basicTicketAuthenticator \<Rightarrow> basicTicketAuthenticator" where
  "add_tickets [] t = t"
| "add_tickets (ticket # ts) t = add_tickets ts (t\<lparr>tickets := fmupd ticket True (tickets t)\<rparr>)"

definition NewBasicTicketAuthenticator :: "string list \<Rightarrow> CRAuthenticator" where
  "NewBasicTicketAuthenticator ts =
     (let t = add_tickets ts \<lparr>tickets = fmempty\<rparr>
      in \<lparr>CRAuthenticator_Challenge = basicTicket_Challenge t,
          CRAuthenticator_Authenticate = basicTicket_Authenticate t\<rparr>)"

lemma add_tickets_lookup:
  "fmlookup (tickets (add_tickets ts t)) k =
     (if k \<in> set ts then Some True else fmlookup (tickets t) k)"
  by (induction ts arbitrary: t) auto

lemma ticket_Challenge: "CRAuthenticator_Challenge (NewBasicTicketAuthenticator ts) d = Inr dict_make"
  by (simp add: NewBasicTicketAuthenticator_def basicTicket_Challenge_def Let_def)

lemma ticket_Authenticate:
  "CRAuthenticator_Authenticate (NewBasicTicketAuthenticator ts) ch sig =
     (if sig \<in> set ts then Inr None else Inl ''Invalid ticket'')"
  by (simp add: NewBasicTicketAuthenticator_def basicTicket_Authenticate_def add_tickets_lookup Let_def)

end
