(* ===== verification/Broker.thy ===== *)
theory Broker
  imports Session
begin

text \<open>
  \<^verbatim>\<open>broker.go\<close>: publish and subscribe.  The state is the record \<open>defaultBroker\<close>
  with the three maps of the struct; each method of the interface \<open>Broker\<close> is one definition
  that returns the new state and the messages it sends.  A method runs under the broker's lock
  from its first access to its last, so one definition is one atomic step (the
  acknowledgement of a method is sent after the lock is released).  \<open>br_live\<close> is the abstract
  view (subscription id to topic and subscriber), \<open>br_inv\<close> the invariant that ties the three
  maps together.
\<close>

record defaultBroker =
  routes :: "(URI, (ID, sess_ptr) fmap) fmap"
  subscriptions :: "(ID, URI) fmap"
  sessions :: "(sess_ptr, (ID, unit) fmap) fmap"

definition NewDefaultBroker :: defaultBroker where
  "NewDefaultBroker = \<lparr>routes = fmempty, subscriptions = fmempty, sessions = fmempty\<rparr>"

section \<open>Operations\<close>

text \<open>The loop of \<open>Publish\<close> over the subscriptions \<open>ids\<close> of the topic's map \<open>r\<close>.\<close>

fun publish_loop :: "bool \<Rightarrow> sess_ptr \<Rightarrow> Event \<Rightarrow> (ID, sess_ptr) fmap \<Rightarrow> ID list \<Rightarrow> sends" where
  "publish_loop excludePublisher pub evtTemplate r [] = []"
| "publish_loop excludePublisher pub evtTemplate r (i # ids) =
     (case fmlookup r i of
        None \<Rightarrow> publish_loop excludePublisher pub evtTemplate r ids
      | Some sub \<Rightarrow>
          if sub = pub \<and> excludePublisher then publish_loop excludePublisher pub evtTemplate r ids
          else (sub, MEvent (evtTemplate\<lparr>Event_Subscription := i\<rparr>))
                 # publish_loop excludePublisher pub evtTemplate r ids)"

definition event_template :: "ID \<Rightarrow> Publish \<Rightarrow> Event" where
  "event_template pubID msg =
     \<lparr>Event_Subscription = 0, Event_Publication = pubID, Event_Details = dict_make,
      Event_Arguments = Publish_Arguments msg, Event_ArgumentsKw = Publish_ArgumentsKw msg\<rparr>"

definition exclude_publisher :: "Publish \<Rightarrow> bool" where
  "exclude_publisher msg =
     (case dict_bool (Publish_Options msg) ''exclude_me'' of Some exclude \<Rightarrow> exclude | None \<Rightarrow> True)"

definition broker_Publish ::
  "(ID fset \<Rightarrow> ID list) \<Rightarrow> 64 word \<Rightarrow> sess_ptr \<Rightarrow> Publish \<Rightarrow> defaultBroker \<Rightarrow> sends" where
  "broker_Publish ord draw pub msg br =
     (let pubID = NewID draw;
          evtTemplate = event_template pubID msg;
          r = (case fmlookup (routes br) (Publish_Topic msg) of Some r \<Rightarrow> r | None \<Rightarrow> fmempty);
          events = publish_loop (exclude_publisher msg) pub evtTemplate r (ord (fmdom r))
      in events @
         (if dict_bool (Publish_Options msg) ''acknowledge'' = Some True
          then [(pub, MPublished \<lparr>Published_Request = Publish_Request msg,
                                   Published_Publication = pubID\<rparr>)]
          else []))"

definition broker_Subscribe ::
  "64 word \<Rightarrow> sess_ptr \<Rightarrow> Subscribe \<Rightarrow> defaultBroker \<Rightarrow> defaultBroker \<times> sends" where
  "broker_Subscribe draw sub msg br =
     (let i = NewID draw;
          topic = Subscribe_Topic msg;
          r = (case fmlookup (routes br) topic of Some r \<Rightarrow> r | None \<Rightarrow> fmempty);
          s = (case fmlookup (sessions br) sub of Some s \<Rightarrow> s | None \<Rightarrow> fmempty)
      in (br\<lparr>routes := fmupd topic (fmupd i sub r) (routes br),
             sessions := fmupd sub (fmupd i () s) (sessions br),
             subscriptions := fmupd i topic (subscriptions br)\<rparr>,
          [(sub, MSubscribed \<lparr>Subscribed_Request = Subscribe_Request msg,
                               Subscribed_Subscription = i\<rparr>)]))"

text \<open>"clean up routes": shared by \<open>Unsubscribe\<close> and \<open>RemoveSession\<close>.\<close>

definition drop_route :: "URI \<Rightarrow> ID \<Rightarrow> defaultBroker \<Rightarrow> defaultBroker" where
  "drop_route topic i br =
     (case fmlookup (routes br) topic of
        None \<Rightarrow> br
      | Some r \<Rightarrow>
          (case fmlookup r i of
             None \<Rightarrow> br
           | Some _ \<Rightarrow>
               (let r' = fmdrop i r
                in if r' = fmempty then br\<lparr>routes := fmdrop topic (routes br)\<rparr>
                   else br\<lparr>routes := fmupd topic r' (routes br)\<rparr>)))"

text \<open>"clean up sender's subscription".\<close>

definition drop_owned :: "sess_ptr \<Rightarrow> ID \<Rightarrow> defaultBroker \<Rightarrow> defaultBroker" where
  "drop_owned sub i br =
     (case fmlookup (sessions br) sub of
        None \<Rightarrow> br
      | Some s \<Rightarrow>
          (case fmlookup s i of
             None \<Rightarrow> br
           | Some _ \<Rightarrow>
               (let s' = fmdrop i s
                in if s' = fmempty then br\<lparr>sessions := fmdrop sub (sessions br)\<rparr>
                   else br\<lparr>sessions := fmupd sub s' (sessions br)\<rparr>)))"

definition broker_Unsubscribe ::
  "sess_ptr \<Rightarrow> Unsubscribe \<Rightarrow> defaultBroker \<Rightarrow> defaultBroker \<times> sends" where
  "broker_Unsubscribe sub msg br =
     (case fmlookup (subscriptions br) (Unsubscribe_Subscription msg) of
        None \<Rightarrow>
          (br, [(sub, MError \<lparr>Error_Type = UNSUBSCRIBE, Error_Request = Unsubscribe_Request msg,
                              Error_Details = None, Error_Error = ErrNoSuchSubscription,
                              Error_Arguments = None, Error_ArgumentsKw = None\<rparr>)])
      | Some topic \<Rightarrow>
          (let i = Unsubscribe_Subscription msg;
               br = br\<lparr>subscriptions := fmdrop i (subscriptions br)\<rparr>;
               br = drop_route topic i br;
               br = drop_owned sub i br
           in (br, [(sub, MUnsubscribed \<lparr>Unsubscribed_Request = Unsubscribe_Request msg\<rparr>)])))"

definition broker_RemoveSession_step :: "ID \<Rightarrow> defaultBroker \<Rightarrow> defaultBroker" where
  "broker_RemoveSession_step i br =
     (case fmlookup (subscriptions br) i of
        None \<Rightarrow> br
      | Some topic \<Rightarrow> drop_route topic i (br\<lparr>subscriptions := fmdrop i (subscriptions br)\<rparr>))"

definition broker_RemoveSession ::
  "(ID fset \<Rightarrow> ID list) \<Rightarrow> sess_ptr \<Rightarrow> defaultBroker \<Rightarrow> defaultBroker" where
  "broker_RemoveSession ord sub br =
     (let s = (case fmlookup (sessions br) sub of Some s \<Rightarrow> s | None \<Rightarrow> fmempty);
          br = fold broker_RemoveSession_step (ord (fmdom s)) br
      in br\<lparr>sessions := fmdrop sub (sessions br)\<rparr>)"

section \<open>Abstract view and invariant\<close>

definition br_live :: "defaultBroker \<Rightarrow> ID \<Rightarrow> (URI \<times> sess_ptr) option" where
  "br_live br i =
     (case fmlookup (subscriptions br) i of
        None \<Rightarrow> None
      | Some t \<Rightarrow> map_option (\<lambda>s. (t, s)) (get2 (routes br) t i))"

definition br_routes_ok :: "defaultBroker \<Rightarrow> bool" where
  "br_routes_ok br \<longleftrightarrow>
     no_empty (routes br)
     \<and> (\<forall>t i s. get2 (routes br) t i = Some s \<longrightarrow> fmlookup (subscriptions br) i = Some t)
     \<and> (\<forall>t i. fmlookup (subscriptions br) i = Some t \<longrightarrow> (\<exists>s. get2 (routes br) t i = Some s))"

definition br_owned_ok :: "defaultBroker \<Rightarrow> bool" where
  "br_owned_ok br \<longleftrightarrow>
     no_empty (sessions br)
     \<and> (\<forall>t i s. get2 (routes br) t i = Some s \<longrightarrow> get2 (sessions br) s i = Some ())
     \<and> (\<forall>s s' i. get2 (sessions br) s i = Some () \<longrightarrow> get2 (sessions br) s' i = Some () \<longrightarrow> s = s')"

definition br_inv :: "defaultBroker \<Rightarrow> bool" where
  "br_inv br \<longleftrightarrow> br_routes_ok br \<and> br_owned_ok br"

text \<open>An identifier no map of the broker mentions.\<close>

definition br_fresh :: "defaultBroker \<Rightarrow> ID \<Rightarrow> bool" where
  "br_fresh br i \<longleftrightarrow>
     fmlookup (subscriptions br) i = None \<and> (\<forall>s. get2 (sessions br) s i = None)"

lemmas br_inv_defs = br_inv_def br_routes_ok_def br_owned_ok_def

section \<open>Each operation as an update of the maps of maps\<close>

lemma broker_Subscribe_maps:
  "fst (broker_Subscribe draw sub msg br) =
     br\<lparr>routes := put2 (Subscribe_Topic msg) (NewID draw) sub (routes br),
        sessions := put2 sub (NewID draw) () (sessions br),
        subscriptions := fmupd (NewID draw) (Subscribe_Topic msg) (subscriptions br)\<rparr>"
  by (cases "fmlookup (routes br) (Subscribe_Topic msg)"; cases "fmlookup (sessions br) sub")
     (simp_all add: broker_Subscribe_def put2_def Let_def)

lemma drop_route_maps:
  "no_empty (routes br) \<Longrightarrow> drop_route t i br = br\<lparr>routes := del2 t i (routes br)\<rparr>"
  using guarded_del2 [where mm = "routes br" and a = t and b = i]
  by (auto simp: drop_route_def Let_def split: option.splits)

lemma drop_owned_maps:
  "no_empty (sessions br) \<Longrightarrow> drop_owned s i br = br\<lparr>sessions := del2 s i (sessions br)\<rparr>"
  using guarded_del2 [where mm = "sessions br" and a = s and b = i]
  by (auto simp: drop_owned_def Let_def split: option.splits)

lemma broker_Unsubscribe_absent:
  "fmlookup (subscriptions br) (Unsubscribe_Subscription msg) = None \<Longrightarrow>
     fst (broker_Unsubscribe sub msg br) = br"
  by (simp add: broker_Unsubscribe_def)

lemma broker_Unsubscribe_maps:
  assumes "no_empty (routes br)" "no_empty (sessions br)"
    and "fmlookup (subscriptions br) (Unsubscribe_Subscription msg) = Some t"
  shows "fst (broker_Unsubscribe sub msg br) =
     br\<lparr>routes := del2 t (Unsubscribe_Subscription msg) (routes br),
        sessions := del2 sub (Unsubscribe_Subscription msg) (sessions br),
        subscriptions := fmdrop (Unsubscribe_Subscription msg) (subscriptions br)\<rparr>"
  using assms by (simp add: broker_Unsubscribe_def Let_def drop_route_maps drop_owned_maps)

section \<open>The invariant\<close>

lemma br_routes_okD:
  assumes "br_routes_ok br"
  shows "no_empty (routes br)"
    and "get2 (routes br) t i = Some s \<Longrightarrow> fmlookup (subscriptions br) i = Some t"
    and "fmlookup (subscriptions br) i = Some t \<Longrightarrow> \<exists>s. get2 (routes br) t i = Some s"
  using assms unfolding br_routes_ok_def by blast+

lemma br_invD:
  assumes "br_inv br"
  shows "br_routes_ok br" "no_empty (routes br)" "no_empty (sessions br)"
    and "get2 (routes br) t i = Some s \<Longrightarrow> fmlookup (subscriptions br) i = Some t"
    and "fmlookup (subscriptions br) i = Some t \<Longrightarrow> \<exists>s. get2 (routes br) t i = Some s"
    and "get2 (routes br) t i = Some s \<Longrightarrow> get2 (sessions br) s i = Some ()"
    and "get2 (sessions br) s i = Some () \<Longrightarrow> get2 (sessions br) s' i = Some () \<Longrightarrow> s = s'"
  using assms unfolding br_inv_defs by blast+

lemma br_live_iff:
  "br_routes_ok br \<Longrightarrow> br_live br i = Some (t, s) \<longleftrightarrow> get2 (routes br) t i = Some s"
  using br_routes_okD(2) [of br t i s] by (auto simp: br_live_def split: option.splits)

lemma br_live_None_iff:
  "br_routes_ok br \<Longrightarrow> br_live br i = None \<longleftrightarrow> fmlookup (subscriptions br) i = None"
  by (auto simp: br_live_def dest!: br_routes_okD(3) split: option.splits)

lemma br_inv_New: "br_inv NewDefaultBroker"
  by (simp add: br_inv_defs NewDefaultBroker_def)

lemma br_live_New: "br_live NewDefaultBroker i = None"
  by (simp add: br_live_def NewDefaultBroker_def)

lemma br_inv_Subscribe:
  assumes "br_inv br" "br_fresh br (NewID draw)"
  shows "br_inv (fst (broker_Subscribe draw sub msg br))"
proof -
  note d = br_invD [OF assms(1)]
  have f: "fmlookup (subscriptions br) (NewID draw) = None" "get2 (sessions br) s (NewID draw) = None" for s
    using assms(2) by (simp_all add: br_fresh_def)
  have n: "get2 (routes br) t (NewID draw) = None" for t
    using d(4) f(1) by (cases "get2 (routes br) t (NewID draw)") auto
  show ?thesis
    using d f n unfolding br_inv_defs broker_Subscribe_maps
    by (auto split: if_splits)
qed

lemma br_live_Subscribe:
  assumes "br_inv br" "br_fresh br (NewID draw)"
  shows "br_live (fst (broker_Subscribe draw sub msg br)) =
    (br_live br)(NewID draw := Some (Subscribe_Topic msg, sub))"
  by (rule ext) (auto simp: br_live_def broker_Subscribe_maps split: option.splits)

lemma br_inv_Unsubscribe:
  assumes "br_inv br"
  shows "br_inv (fst (broker_Unsubscribe sub msg br))"
proof (cases "fmlookup (subscriptions br) (Unsubscribe_Subscription msg)")
  case None
  then show ?thesis using assms by (simp add: broker_Unsubscribe_absent)
next
  case (Some t)
  note d = br_invD [OF assms]
  have n: "get2 (routes br) t' (Unsubscribe_Subscription msg) = None" if "t' \<noteq> t" for t'
    using d(4) [of t' "Unsubscribe_Subscription msg"] Some that
    by (cases "get2 (routes br) t' (Unsubscribe_Subscription msg)") auto
  show ?thesis
    using d Some n unfolding br_inv_defs broker_Unsubscribe_maps [OF d(2,3) Some]
    by (auto split: if_splits)
qed

lemma br_live_Unsubscribe:
  assumes "br_inv br"
  shows "br_live (fst (broker_Unsubscribe sub msg br)) =
    (br_live br)(Unsubscribe_Subscription msg := None)"
proof (cases "fmlookup (subscriptions br) (Unsubscribe_Subscription msg)")
  case None
  then show ?thesis by (simp add: broker_Unsubscribe_absent br_live_def fun_upd_idem)
next
  case (Some t)
  note d = br_invD [OF assms]
  show ?thesis
    by (rule ext) (auto simp: br_live_def broker_Unsubscribe_maps [OF d(2,3) Some] split: option.splits)
qed

text \<open>One turn of the loop of \<open>RemoveSession\<close>, then the loop.\<close>

lemma br_RemoveSession_step:
  assumes "br_routes_ok br"
  shows "sessions (broker_RemoveSession_step i br) = sessions br"
    and "subscriptions (broker_RemoveSession_step i br) = fmdrop i (subscriptions br)"
    and "get2 (routes (broker_RemoveSession_step i br)) t j =
           (if j = i then None else get2 (routes br) t j)"
    and "no_empty (routes (broker_RemoveSession_step i br))"
proof -
  note d = br_routes_okD [OF assms]
  have n: "get2 (routes br) t i = None" if "fmlookup (subscriptions br) i \<noteq> Some t" for t
    using d(2) [of t i] that by (cases "get2 (routes br) t i") auto
  show "sessions (broker_RemoveSession_step i br) = sessions br"
    and "subscriptions (broker_RemoveSession_step i br) = fmdrop i (subscriptions br)"
    and "no_empty (routes (broker_RemoveSession_step i br))"
    using d(1) by (auto simp: broker_RemoveSession_step_def drop_route_maps fmdrop_absent
        split: option.splits)
  show "get2 (routes (broker_RemoveSession_step i br)) t j =
          (if j = i then None else get2 (routes br) t j)"
    using d(1) n [of t] by (auto simp: broker_RemoveSession_step_def drop_route_maps
        split: option.splits)
qed

lemma br_routes_ok_RemoveSession_step:
  assumes "br_routes_ok br"
  shows "br_routes_ok (broker_RemoveSession_step i br)"
  using br_routes_okD [OF assms] br_RemoveSession_step(4) [OF assms]
  unfolding br_routes_ok_def br_RemoveSession_step [OF assms] by (auto split: if_splits)

lemma br_RemoveSession_loop:
  assumes "br_routes_ok br"
  shows "br_routes_ok (fold broker_RemoveSession_step ids br)
    \<and> sessions (fold broker_RemoveSession_step ids br) = sessions br
    \<and> (\<forall>j. fmlookup (subscriptions (fold broker_RemoveSession_step ids br)) j =
           (if j \<in> set ids then None else fmlookup (subscriptions br) j))
    \<and> (\<forall>t j. get2 (routes (fold broker_RemoveSession_step ids br)) t j =
           (if j \<in> set ids then None else get2 (routes br) t j))"
  using assms
proof (induction ids arbitrary: br)
  case Nil
  then show ?case by simp
next
  case (Cons i ids)
  note ok = br_routes_ok_RemoveSession_step [OF Cons.prems]
  show ?case
    using Cons.IH [OF ok, of i] by (simp add: br_RemoveSession_step [OF Cons.prems])
qed

abbreviation owned_ids :: "defaultBroker \<Rightarrow> sess_ptr \<Rightarrow> (ID, unit) fmap" where
  "owned_ids br s \<equiv> (case fmlookup (sessions br) s of Some m \<Rightarrow> m | None \<Rightarrow> fmempty)"

lemma owned_ids_iff: "i \<in> fset (fmdom (owned_ids br s)) \<longleftrightarrow> get2 (sessions br) s i = Some ()"
  by (auto simp: get2_def fmlookup_dom_iff split: option.splits)

lemma br_routes_ok_sessions [simp]: "br_routes_ok (br\<lparr>sessions := x\<rparr>) = br_routes_ok br"
  by (simp add: br_routes_ok_def)

lemma br_RemoveSession_maps:
  assumes "br_routes_ok br" "map_order ord"
  shows "br_routes_ok (broker_RemoveSession ord s br)"
    and "sessions (broker_RemoveSession ord s br) = fmdrop s (sessions br)"
    and "fmlookup (subscriptions (broker_RemoveSession ord s br)) j =
           (if get2 (sessions br) s j = Some () then None else fmlookup (subscriptions br) j)"
    and "get2 (routes (broker_RemoveSession ord s br)) t j =
           (if get2 (sessions br) s j = Some () then None else get2 (routes br) t j)"
proof -
  let ?b = "fold broker_RemoveSession_step (ord (fmdom (owned_ids br s))) br"
  have e: "broker_RemoveSession ord s br = ?b\<lparr>sessions := fmdrop s (sessions ?b)\<rparr>"
    by (simp add: broker_RemoveSession_def Let_def)
  have i: "i \<in> set (ord (fmdom (owned_ids br s))) \<longleftrightarrow> get2 (sessions br) s i = Some ()" for i
    using map_order_set [OF assms(2)] owned_ids_iff by metis
  note L = br_RemoveSession_loop [OF assms(1), of "ord (fmdom (owned_ids br s))", unfolded i]
  from L show "br_routes_ok (broker_RemoveSession ord s br)"
    by (simp add: e)
  from L show "sessions (broker_RemoveSession ord s br) = fmdrop s (sessions br)"
    by (simp add: e)
  from L show "fmlookup (subscriptions (broker_RemoveSession ord s br)) j =
           (if get2 (sessions br) s j = Some () then None else fmlookup (subscriptions br) j)"
    by (simp add: e)
  from L show "get2 (routes (broker_RemoveSession ord s br)) t j =
           (if get2 (sessions br) s j = Some () then None else get2 (routes br) t j)"
    by (simp add: e)
qed

lemma br_inv_RemoveSession:
  assumes "br_inv br" "map_order ord"
  shows "br_inv (broker_RemoveSession ord s br)"
proof -
  note d = br_invD [OF assms(1)] and m = br_RemoveSession_maps [OF br_invD(1) [OF assms(1)] assms(2)]
  show ?thesis
    using d m(1) unfolding br_inv_def br_owned_ok_def m(2,4) by (auto split: if_splits)
qed

lemma br_live_RemoveSession:
  assumes "br_inv br" "map_order ord"
  shows "br_live (broker_RemoveSession ord s br) i =
    (case br_live br i of None \<Rightarrow> None | Some (t, s') \<Rightarrow> if s' = s then None else Some (t, s'))"
proof -
  note d = br_invD [OF assms(1)] and m = br_RemoveSession_maps [OF br_invD(1) [OF assms(1)] assms(2)]
  show ?thesis
  proof (cases "br_live br i")
    case None
    then have "br_live (broker_RemoveSession ord s br) i = None"
      using br_live_None_iff [OF d(1), of i] br_live_None_iff [OF m(1), of s i] m(3) [of s i]
      by (simp split: if_splits)
    with None show ?thesis by simp
  next
    case (Some x)
    obtain t s' where x: "x = (t, s')" by (cases x)
    with Some have r: "get2 (routes br) t i = Some s'" using br_live_iff [OF d(1)] by simp
    have o: "get2 (sessions br) s i = Some () \<longleftrightarrow> s' = s"
      using d(6) [OF r] d(7) [of s i s'] by auto
    show ?thesis
    proof (cases "s' = s")
      case True
      then have "br_live (broker_RemoveSession ord s br) i = None"
        using o br_live_None_iff [OF m(1), of s i] m(3) [of s i] by simp
      with True Some x show ?thesis by simp
    next
      case False
      then have "br_live (broker_RemoveSession ord s br) i = Some (t, s')"
        using o r br_live_iff [OF m(1), of s i t s'] m(4) [of s t i] by simp
      with False Some x show ?thesis by simp
    qed
  qed
qed

section \<open>The broker's subscriptions are a table of entries owned by sessions\<close>

text \<open>
  The contract's operations on the model's own: \<open>add\<close> is \<open>Subscribe\<close> with a draw that makes
  the given identifier (the identity draw, for identifiers below \<open>2^53\<close>).
\<close>

definition br_addable :: "defaultBroker \<Rightarrow> ID \<Rightarrow> URI \<Rightarrow> bool" where
  "br_addable br i t \<longleftrightarrow> unat i < 2 ^ 53 \<and> br_fresh br i"

definition subscribe_msg :: "URI \<Rightarrow> Subscribe" where
  "subscribe_msg t = \<lparr>Subscribe_Request = 0, Subscribe_Options = dict_make, Subscribe_Topic = t\<rparr>"

definition unsubscribe_msg :: "ID \<Rightarrow> Unsubscribe" where
  "unsubscribe_msg i = \<lparr>Unsubscribe_Request = 0, Unsubscribe_Subscription = i\<rparr>"

interpretation subs: session_table br_inv br_live br_addable NewDefaultBroker
  "\<lambda>i s t br. fst (broker_Subscribe i s (subscribe_msg t) br)"
  "\<lambda>s i br. fst (broker_Unsubscribe s (unsubscribe_msg i) br)"
  "broker_RemoveSession sorted_list_of_fset"
proof unfold_locales
  fix br i t s
  assume a: "br_inv br" "br_addable br i t"
  then have f: "br_fresh br (NewID i)" and i: "NewID i = i"
    by (simp_all add: br_addable_def NewID_id)
  show "br_inv (fst (broker_Subscribe i s (subscribe_msg t) br))"
    using a(1) f by (rule br_inv_Subscribe)
  show "br_live (fst (broker_Subscribe i s (subscribe_msg t) br)) = (br_live br)(i := Some (t, s))"
    using br_live_Subscribe [OF a(1) f] i by (simp add: subscribe_msg_def)
  show "br_live br i = None"
    using a br_live_None_iff [OF br_invD(1) [OF a(1)]] by (simp add: br_addable_def br_fresh_def)
qed (simp_all add: br_inv_New br_live_New br_inv_Unsubscribe br_live_Unsubscribe
      br_inv_RemoveSession br_live_RemoveSession unsubscribe_msg_def)

section \<open>What a publication sends\<close>

lemma set_publish_loop:
  "set (publish_loop ex pub ev r ids) =
     {(s, MEvent (ev\<lparr>Event_Subscription := i\<rparr>)) | i s.
        i \<in> set ids \<and> fmlookup r i = Some s \<and> \<not> (s = pub \<and> ex)}"
  by (induction ex pub ev r ids rule: publish_loop.induct) (auto split: option.splits)

lemma event_eq_iff:
  "ev\<lparr>Event_Subscription := i\<rparr> = ev\<lparr>Event_Subscription := j\<rparr> \<longleftrightarrow> i = j" for ev :: Event
  by (cases ev) simp

lemma distinct_publish_loop: "distinct ids \<Longrightarrow> distinct (publish_loop ex pub ev r ids)"
  by (induction ex pub ev r ids rule: publish_loop.induct)
     (auto simp: set_publish_loop event_eq_iff split: option.splits)

abbreviation topic_route :: "defaultBroker \<Rightarrow> URI \<Rightarrow> (ID, sess_ptr) fmap" where
  "topic_route br t \<equiv> (case fmlookup (routes br) t of Some r \<Rightarrow> r | None \<Rightarrow> fmempty)"

lemma topic_route_get2: "fmlookup (topic_route br t) i = get2 (routes br) t i"
  by (simp add: get2_def split: option.splits)

lemma publish_events:
  assumes "br_routes_ok br" "map_order ord"
  shows "set (publish_loop ex pub ev (topic_route br t) (ord (fmdom (topic_route br t)))) =
     {(s, MEvent (ev\<lparr>Event_Subscription := i\<rparr>)) | i s. br_live br i = Some (t, s) \<and> \<not> (s = pub \<and> ex)}"
  using assms
  by (auto simp: set_publish_loop br_live_iff topic_route_get2 fmlookup_dom_iff)

lemma br_fresh_New [simp]: "br_fresh NewDefaultBroker i"
  by (simp add: br_fresh_def NewDefaultBroker_def)

text \<open>A small broker for the witnesses: session 1 subscribed to topic \<open>a\<close> as subscription 7.\<close>

definition demo_broker :: defaultBroker where
  "demo_broker = fst (broker_Subscribe 7 1 (subscribe_msg ''a'') NewDefaultBroker)"

lemma demo_broker_inv [simp]: "br_inv demo_broker"
  unfolding demo_broker_def by (rule br_inv_Subscribe [OF br_inv_New]) simp

lemma demo_broker_live [simp]:
  "br_live demo_broker = (\<lambda>i. if i = 7 then Some (''a'', 1) else None)"
  unfolding demo_broker_def br_live_Subscribe [OF br_inv_New br_fresh_New]
  by (rule ext) (simp add: br_live_New NewID_id subscribe_msg_def)

definition demo_publish :: Publish where
  "demo_publish = \<lparr>Publish_Request = 5, Publish_Options = None, Publish_Topic = ''a'',
     Publish_Arguments = Some [VBool True], Publish_ArgumentsKw = None\<rparr>"

section \<open>Properties of the broker\<close>

text \<open>
  The states the broker reaches when every identifier it draws is one none of its maps uses.
\<close>

inductive broker_reach :: "(ID fset \<Rightarrow> ID list) \<Rightarrow> defaultBroker \<Rightarrow> bool"
  for ord :: "ID fset \<Rightarrow> ID list" where
  new: "broker_reach ord NewDefaultBroker"
| subscribe: "broker_reach ord br \<Longrightarrow> br_fresh br (NewID draw) \<Longrightarrow>
     broker_reach ord (fst (broker_Subscribe draw sub msg br))"
| unsubscribe: "broker_reach ord br \<Longrightarrow> broker_reach ord (fst (broker_Unsubscribe sub umsg br))"
| remove: "broker_reach ord br \<Longrightarrow> broker_reach ord (broker_RemoveSession ord sub br)"

text \<open>
  In every state the broker reaches (with fresh subscription identifiers, whatever the
  iteration order of its maps and whoever unsubscribes what), its three maps agree: each
  routed subscription is in \<open>subscriptions\<close> under its topic and in the set of the session it
  is routed to, each subscription is routed, no inner map is empty, and no identifier is in the
  sets of two sessions.
\<close>

theorem broker_reach_inv:
  assumes "map_order ord" and "broker_reach ord br"
  shows "br_inv br"
  using assms(2)
  by (induction rule: broker_reach.induct)
     (auto intro: br_inv_New br_inv_Subscribe br_inv_Unsubscribe br_inv_RemoveSession assms(1))

theorem broker_reach_inv_witness:
  "br_inv (fst (broker_Unsubscribe 2 (unsubscribe_msg 7) demo_broker))"
proof (rule broker_reach_inv [OF map_order_sorted])
  show "broker_reach sorted_list_of_fset (fst (broker_Unsubscribe 2 (unsubscribe_msg 7) demo_broker))"
    unfolding demo_broker_def by (intro broker_reach.intros br_fresh_New)
qed

text \<open>
  C14. \<open>Publish\<close> sends one EVENT for every live subscription to the topic and no other, each
  to the session that owns it, with that subscription's identifier and the arguments of the
  publication, leaving the publisher out unless \<open>exclude_me\<close> is false; after them, and only
  when \<open>acknowledge\<close> is true, one PUBLISHED for the publisher.
\<close>

theorem publish_delivers:
  assumes "br_inv br" and "map_order ord"
  shows "\<exists>evs. broker_Publish ord draw pub msg br = evs @
           (if dict_bool (Publish_Options msg) ''acknowledge'' = Some True
            then [(pub, MPublished \<lparr>Published_Request = Publish_Request msg,
                                     Published_Publication = NewID draw\<rparr>)]
            else [])
         \<and> distinct evs
         \<and> set evs = {(s, MEvent ((event_template (NewID draw) msg)\<lparr>Event_Subscription := i\<rparr>)) | i s.
             br_live br i = Some (Publish_Topic msg, s) \<and> \<not> (s = pub \<and> exclude_publisher msg)}"
  unfolding broker_Publish_def Let_def
  using publish_events [OF br_invD(1) [OF assms(1)] assms(2)]
    distinct_publish_loop [OF map_order_distinct [OF assms(2)]]
  by (intro exI conjI refl) simp_all

theorem publish_delivers_witness:
  "\<exists>evs. broker_Publish sorted_list_of_fset 9 2 demo_publish demo_broker = evs \<and> distinct evs
     \<and> set evs = {(1, MEvent ((event_template 9 demo_publish)\<lparr>Event_Subscription := 7\<rparr>))}"
  using publish_delivers [OF demo_broker_inv map_order_sorted, of 9 2 demo_publish]
  by (simp add: demo_publish_def NewID_id split: if_splits)

text \<open>
  A subscription lasts from its SUBSCRIBED to its UNSUBSCRIBED: the reply to SUBSCRIBE
  names an identifier under which another session's next publication to the topic reaches the
  subscriber, and after UNSUBSCRIBE of that identifier no publication produces an event for it.
\<close>

theorem subscribe_publish_unsubscribe:
  assumes inv: "br_inv br" and fresh: "br_fresh br (NewID draw)" and ord: "map_order ord"
    and topic: "Publish_Topic pmsg = Subscribe_Topic smsg" and other: "pub \<noteq> sub"
    and uid: "Unsubscribe_Subscription umsg = NewID draw"
  defines "br1 \<equiv> fst (broker_Subscribe draw sub smsg br)"
  shows "snd (broker_Subscribe draw sub smsg br) =
           [(sub, MSubscribed \<lparr>Subscribed_Request = Subscribe_Request smsg,
                               Subscribed_Subscription = NewID draw\<rparr>)]
         \<and> (sub, MEvent ((event_template (NewID draw') pmsg)\<lparr>Event_Subscription := NewID draw\<rparr>))
             \<in> set (broker_Publish ord draw' pub pmsg br1)
         \<and> (\<forall>s e. (s, MEvent e) \<in> set (broker_Publish ord draw' pub pmsg
                                      (fst (broker_Unsubscribe sub umsg br1)))
               \<longrightarrow> Event_Subscription e \<noteq> NewID draw)"
proof (intro conjI)
  have i1: "br_inv br1" unfolding br1_def using inv fresh by (rule br_inv_Subscribe)
  have l1: "br_live br1 (NewID draw) = Some (Publish_Topic pmsg, sub)"
    unfolding br1_def br_live_Subscribe [OF inv fresh] by (simp add: topic)
  show "snd (broker_Subscribe draw sub smsg br) =
      [(sub, MSubscribed \<lparr>Subscribed_Request = Subscribe_Request smsg,
                          Subscribed_Subscription = NewID draw\<rparr>)]"
    by (simp add: broker_Subscribe_def Let_def)
  show "(sub, MEvent ((event_template (NewID draw') pmsg)\<lparr>Event_Subscription := NewID draw\<rparr>))
      \<in> set (broker_Publish ord draw' pub pmsg br1)"
    unfolding broker_Publish_def Let_def
    using publish_events [OF br_invD(1) [OF i1] ord] l1 other by auto
  show "\<forall>s e. (s, MEvent e) \<in> set (broker_Publish ord draw' pub pmsg
                (fst (broker_Unsubscribe sub umsg br1))) \<longrightarrow> Event_Subscription e \<noteq> NewID draw"
    unfolding broker_Publish_def Let_def
    using publish_events [OF br_invD(1) [OF br_inv_Unsubscribe [OF i1]] ord]
    by (auto simp: br_live_Unsubscribe [OF i1] uid split: if_splits)
qed

theorem subscribe_publish_unsubscribe_witness:
  "(1, MEvent ((event_template 9 demo_publish)\<lparr>Event_Subscription := 7\<rparr>))
     \<in> set (broker_Publish sorted_list_of_fset 9 2 demo_publish demo_broker)"
  using subscribe_publish_unsubscribe [OF br_inv_New br_fresh_New map_order_sorted,
      of demo_publish "subscribe_msg ''a''" 2 1 "unsubscribe_msg 7" 7 9]
  by (simp add: demo_broker_def demo_publish_def subscribe_msg_def unsubscribe_msg_def NewID_id)

text \<open>
  A session that has been removed receives no event: whatever is published afterwards by
  other sessions, nothing is sent to it, and the subscriptions of the other sessions are kept.
\<close>

theorem removed_session_silent:
  assumes inv: "br_inv br" and ord: "map_order ord" "map_order ord'" and other: "pub \<noteq> s"
  shows "sent_to s (broker_Publish ord draw pub msg (broker_RemoveSession ord' s br)) = []
         \<and> (\<forall>i t s'. s' \<noteq> s \<longrightarrow>
              (br_live (broker_RemoveSession ord' s br) i = Some (t, s')) = (br_live br i = Some (t, s')))"
proof (intro conjI allI impI)
  let ?b = "broker_RemoveSession ord' s br"
  have "br_live ?b i \<noteq> Some (t, s)" for i t
    by (auto simp: br_live_RemoveSession [OF inv ord(2)] split: option.splits if_splits)
  then have "\<forall>x \<in> set (broker_Publish ord draw pub msg ?b). fst x \<noteq> s"
    unfolding broker_Publish_def Let_def
    using publish_events [OF br_invD(1) [OF br_inv_RemoveSession [OF inv ord(2)]] ord(1)] other
    by auto
  then show "sent_to s (broker_Publish ord draw pub msg ?b) = []"
    by (simp add: sent_to_def)
next
  fix i t s'
  assume "s' \<noteq> s"
  then show "(br_live (broker_RemoveSession ord' s br) i = Some (t, s')) = (br_live br i = Some (t, s'))"
    by (auto simp: br_live_RemoveSession [OF inv ord(2)] split: option.splits if_splits)
qed

theorem removed_session_silent_witness:
  "sent_to 1 (broker_Publish sorted_list_of_fset 9 2 demo_publish
     (broker_RemoveSession sorted_list_of_fset 1 demo_broker)) = []"
  using removed_session_silent [OF demo_broker_inv map_order_sorted map_order_sorted, of 2 1 9 demo_publish]
  by simp

text \<open>
  \<open>Unsubscribe\<close> does not ask who owns the subscription: a session that names another
  session's subscription cancels it and is told UNSUBSCRIBED, the owner is told nothing, and the
  owner's set keeps the cancelled identifier.
\<close>

theorem unsubscribe_by_stranger:
  assumes inv: "br_inv br" and live: "br_live br (Unsubscribe_Subscription msg) = Some (t, owner)"
    and stranger: "s \<noteq> owner"
  shows "br_live (fst (broker_Unsubscribe s msg br)) (Unsubscribe_Subscription msg) = None
         \<and> snd (broker_Unsubscribe s msg br) =
             [(s, MUnsubscribed \<lparr>Unsubscribed_Request = Unsubscribe_Request msg\<rparr>)]
         \<and> get2 (sessions (fst (broker_Unsubscribe s msg br))) owner (Unsubscribe_Subscription msg)
             = Some ()"
proof -
  note d = br_invD [OF inv]
  have r: "get2 (routes br) t (Unsubscribe_Subscription msg) = Some owner"
    using live br_live_iff [OF d(1)] by simp
  have "get2 (sessions br) owner (Unsubscribe_Subscription msg) = Some ()"
    using r by (rule d(6))
  with stranger have "get2 (sessions (fst (broker_Unsubscribe s msg br))) owner
      (Unsubscribe_Subscription msg) = Some ()"
    by (simp add: broker_Unsubscribe_maps [OF d(2,3) d(4) [OF r]])
  moreover have "snd (broker_Unsubscribe s msg br) =
      [(s, MUnsubscribed \<lparr>Unsubscribed_Request = Unsubscribe_Request msg\<rparr>)]"
    using d(4) [OF r] by (simp add: broker_Unsubscribe_def Let_def)
  ultimately show ?thesis
    by (simp add: br_live_Unsubscribe [OF inv])
qed

theorem unsubscribe_by_stranger_witness:
  "br_live (fst (broker_Unsubscribe 2 (unsubscribe_msg 7) demo_broker)) 7 = None
   \<and> get2 (sessions (fst (broker_Unsubscribe 2 (unsubscribe_msg 7) demo_broker))) 1 7 = Some ()"
  using unsubscribe_by_stranger [OF demo_broker_inv, of "unsubscribe_msg 7" "''a''" 1 2]
  by (simp add: unsubscribe_msg_def)

text \<open>
  Identifiers are drawn at random and not checked: when the same number is drawn for two
  subscriptions, removing the first subscriber's session cancels the second subscriber's
  subscription and leaves the first one's route, so events keep being sent to the session
  that has left.
\<close>

theorem subscription_id_collision:
  fixes draw :: "64 word"
  assumes ord: "map_order ord" "map_order ord'" and s: "s1 \<noteq> s2" and t: "t1 \<noteq> t2" and p: "pub \<noteq> s1"
    and topic: "Publish_Topic msg = t1"
  defines "br2 \<equiv> fst (broker_Subscribe draw s2 (subscribe_msg t2)
                   (fst (broker_Subscribe draw s1 (subscribe_msg t1) NewDefaultBroker)))"
  shows "br_live (broker_RemoveSession ord' s1 br2) (NewID draw) = None
         \<and> (s1, MEvent ((event_template (NewID draw') msg)\<lparr>Event_Subscription := NewID draw\<rparr>))
             \<in> set (broker_Publish ord draw' pub msg (broker_RemoveSession ord' s1 br2))"
  using s t p topic ord
  by (simp add: br2_def broker_Subscribe_def subscribe_msg_def NewDefaultBroker_def Let_def
      broker_RemoveSession_def broker_RemoveSession_step_def drop_route_def br_live_def
      broker_Publish_def gomap_simps)

theorem subscription_id_collision_witness:
  "br_live (broker_RemoveSession sorted_list_of_fset 1
     (fst (broker_Subscribe 7 2 (subscribe_msg ''b'')
       (fst (broker_Subscribe 7 1 (subscribe_msg ''a'') NewDefaultBroker))))) 7 = None"
  using subscription_id_collision [OF map_order_sorted map_order_sorted,
      of 1 2 "''a''" "''b''" 3 demo_publish 7 9]
  by (simp add: NewID_id demo_publish_def)

end
