(* ===== verification/Realm.thy ===== *)
theory Realm
  imports Auth Broker Dealer
begin

text \<open>
  \<^verbatim>\<open>realm.go\<close>, the sequential parts: the realm's state, the handshake
  (\<open>authenticate\<close>, \<open>handleAuth\<close>, \<open>checkResponse\<close>), and the body of \<open>handleSession\<close>'s loop
  for one message.  How the sessions' goroutines and the realm's own goroutine interleave is
  in \<open>Realm_Steps\<close>.  The record \<open>Realm\<close> is the struct after \<open>init\<close>;
  \<open>RealmConfig\<close> is the struct as its user fills it, where a nil interface is \<open>None\<close>.
\<close>

record Realm =
  Realm_URI :: URI
  Realm_Broker :: defaultBroker
  Realm_Dealer :: defaultDealer
  Realm_Authorizer :: Authorizer
  Realm_Interceptor :: Interceptor
  CRAuthenticators :: "(string, CRAuthenticator) fmap"
  Authenticators :: "(string, Authenticator) fmap"
  AuthTimeout :: "64 word"
  clients :: "(ID, sess_ptr) fmap"

record RealmConfig =
  cfg_URI :: URI
  cfg_Broker :: "defaultBroker option"
  cfg_Dealer :: "defaultDealer option"
  cfg_Authorizer :: "Authorizer option"
  cfg_Interceptor :: "Interceptor option"
  cfg_CRAuthenticators :: "(string, CRAuthenticator) fmap"
  cfg_Authenticators :: "(string, Authenticator) fmap"
  cfg_AuthTimeout :: "64 word"

text \<open>Two minutes, in nanoseconds.\<close>

definition defaultAuthTimeout :: "64 word" where
  "defaultAuthTimeout = 120000000000"

definition Realm_init :: "RealmConfig \<Rightarrow> Realm" where
  "Realm_init r =
     \<lparr>Realm_URI = cfg_URI r,
      Realm_Broker = (case cfg_Broker r of None \<Rightarrow> NewDefaultBroker | Some b \<Rightarrow> b),
      Realm_Dealer = (case cfg_Dealer r of None \<Rightarrow> NewDefaultDealer | Some d \<Rightarrow> d),
      Realm_Authorizer = (case cfg_Authorizer r of None \<Rightarrow> defaultAuthorizer_Authorize | Some a \<Rightarrow> a),
      Realm_Interceptor = (case cfg_Interceptor r of None \<Rightarrow> defaultInterceptor_Intercept | Some i \<Rightarrow> i),
      CRAuthenticators = cfg_CRAuthenticators r, Authenticators = cfg_Authenticators r,
      AuthTimeout = (if cfg_AuthTimeout r = 0 then defaultAuthTimeout else cfg_AuthTimeout r),
      clients = fmempty\<rparr>"

section \<open>The handshake\<close>

definition addAuthMethod :: "dict \<Rightarrow> string \<Rightarrow> dict" where
  "addAuthMethod details mth = dict_set ''authmethod'' (VString mth) details"

text \<open>\<open>details["authmethods"].([]interface{})\<close>, then the strings among its elements.\<close>

definition details_authmethods :: "dict \<Rightarrow> gval list option" where
  "details_authmethods details =
     (case dict_get details ''authmethods'' of
        Some (VSlice (Some ms)) \<Rightarrow> Some ms
      | Some (VSlice None) \<Rightarrow> Some []
      | _ \<Rightarrow> None)"

fun string_values :: "gval list \<Rightarrow> string list" where
  "string_values [] = []"
| "string_values (VString m # vs) = m # string_values vs"
| "string_values (_ # vs) = string_values vs"

fun try_methods :: "Realm \<Rightarrow> dict \<Rightarrow> string list \<Rightarrow> go_error + message" where
  "try_methods r details [] = Inl ''could not authenticate with any method''"
| "try_methods r details (mth # ms) =
     (case fmlookup (CRAuthenticators r) mth of
        Some auth \<Rightarrow>
          (case CRAuthenticator_Challenge auth details of
             Inl err \<Rightarrow> Inl err
           | Inr challenge \<Rightarrow> Inr (MChallenge \<lparr>Challenge_AuthMethod = mth, Challenge_Extra = challenge\<rparr>))
      | None \<Rightarrow>
          (case fmlookup (Authenticators r) mth of
             Some auth \<Rightarrow>
               (case Authenticator_Authenticate auth details of
                  Inl err \<Rightarrow> Inl err
                | Inr authDetails \<Rightarrow>
                    Inr (MWelcome \<lparr>Welcome_Id = 0, Welcome_Details = addAuthMethod authDetails mth\<rparr>))
           | None \<Rightarrow> try_methods r details ms))"

definition authenticate :: "Realm \<Rightarrow> dict \<Rightarrow> go_error + message" where
  "authenticate r details =
     (if Authenticators r = fmempty \<and> CRAuthenticators r = fmempty
      then Inr (MWelcome \<lparr>Welcome_Id = 0, Welcome_Details = None\<rparr>)
      else case details_authmethods details of
             None \<Rightarrow> Inl ''No authentication supplied''
           | Some ms \<Rightarrow> try_methods r details (string_values ms))"

definition checkResponse :: "Realm \<Rightarrow> Challenge \<Rightarrow> Authenticate \<Rightarrow> go_error + Welcome" where
  "checkResponse r chal auth =
     (case fmlookup (CRAuthenticators r) (Challenge_AuthMethod chal) of
        None \<Rightarrow> Inl ''authentication method has been removed''
      | Some authenticator \<Rightarrow>
          (case CRAuthenticator_Authenticate authenticator (Challenge_Extra chal)
                  (Authenticate_Signature auth) of
             Inl err \<Rightarrow> Inl err
           | Inr details \<Rightarrow>
               Inr \<lparr>Welcome_Id = 0,
                    Welcome_Details = addAuthMethod details (Challenge_AuthMethod chal)\<rparr>))"

text \<open>
  \<open>handleAuth\<close> sends at most one message and reads at most one; it returns the messages it
  sent and its result.  Its failing type assertion would be a panic.
\<close>

definition unexpected_message :: "message \<Rightarrow> go_error" where
  "unexpected_message msg =
     ''unexpected '' @ the (MessageType_String (MessageType_of msg)) @ '' message received''"

definition handleAuth ::
  "Realm \<Rightarrow> (message \<Rightarrow> go_error option) \<Rightarrow> peer_read \<Rightarrow> dict \<Rightarrow> message list \<times> Welcome go_result" where
  "handleAuth r send rd details =
     (case authenticate r details of
        Inl err \<Rightarrow> ([], Err err)
      | Inr (MWelcome w) \<Rightarrow> ([], Ok w)
      | Inr (MChallenge challenge) \<Rightarrow>
          (case send (MChallenge challenge) of
             Some err \<Rightarrow> ([MChallenge challenge], Err err)
           | None \<Rightarrow>
               ([MChallenge challenge],
                case GetMessageTimeout rd of
                  Inl err \<Rightarrow> Err err
                | Inr (MAuthenticate a) \<Rightarrow>
                    (case checkResponse r challenge a of Inl err \<Rightarrow> Err err | Inr w \<Rightarrow> Ok w)
                | Inr msg \<Rightarrow> Err (unexpected_message msg)))
      | Inr _ \<Rightarrow> ([], Panic))"

section \<open>One message of a session\<close>

fun error_request :: "message \<Rightarrow> ID" where
  "error_request (MPublish m) = Publish_Request m"
| "error_request (MSubscribe m) = Subscribe_Request m"
| "error_request (MUnsubscribe m) = Unsubscribe_Request m"
| "error_request (MRegister m) = Register_Request m"
| "error_request (MUnregister m) = Unregister_Request m"
| "error_request (MCall m) = Call_Request m"
| "error_request (MYield m) = Yield_Request m"
| "error_request _ = 0"

definition authz_error :: "message \<Rightarrow> go_error option \<Rightarrow> message" where
  "authz_error msg err = MError \<lparr>Error_Type = MessageType_of msg, Error_Request = error_request msg,
     Error_Details = None,
     Error_Error = (case err of Some _ \<Rightarrow> ErrAuthorizationFailed | None \<Rightarrow> ErrNotAuthorized),
     Error_Arguments = None, Error_ArgumentsKw = None\<rparr>"

text \<open>Whether the loop of \<open>handleSession\<close> goes on (\<open>continue\<close>, or falling off its end) or returns.\<close>

datatype loop_next = Continue | Return

text \<open>
  The orders in which the maps are iterated, the draw of the identifier generator and the
  addresses of the sessions: everything a handler uses besides the realm's own state.
\<close>

record env =
  env_ord :: "ID fset \<Rightarrow> ID list"
  env_heap :: session_heap

fun route_message ::
  "env \<Rightarrow> 64 word \<Rightarrow> sess_ptr \<Rightarrow> message \<Rightarrow> Realm \<Rightarrow> Realm \<times> sends \<times> loop_next" where
  "route_message e draw sess (MGoodbye m) r =
     (r, [(sess, MGoodbye \<lparr>Goodbye_Details = dict_make, Goodbye_Reason = ErrGoodbyeAndOut\<rparr>)], Return)"
| "route_message e draw sess (MPublish m) r =
     (r, broker_Publish (env_ord e) draw sess m (Realm_Broker r), Continue)"
| "route_message e draw sess (MSubscribe m) r =
     (let (b, out) = broker_Subscribe draw sess m (Realm_Broker r)
      in (r\<lparr>Realm_Broker := b\<rparr>, out, Continue))"
| "route_message e draw sess (MUnsubscribe m) r =
     (let (b, out) = broker_Unsubscribe sess m (Realm_Broker r)
      in (r\<lparr>Realm_Broker := b\<rparr>, out, Continue))"
| "route_message e draw sess (MRegister m) r =
     (let (d, out) = dealer_Register draw sess m (Realm_Dealer r)
      in (r\<lparr>Realm_Dealer := d\<rparr>, out, Continue))"
| "route_message e draw sess (MUnregister m) r =
     (let (d, out) = dealer_Unregister sess m (Realm_Dealer r)
      in (r\<lparr>Realm_Dealer := d\<rparr>, out, Continue))"
| "route_message e draw sess (MCall m) r =
     (let (d, out) = dealer_Call (env_heap e) draw sess m (Realm_Dealer r)
      in (r\<lparr>Realm_Dealer := d\<rparr>, out, Continue))"
| "route_message e draw sess (MYield m) r =
     (let (d, out) = dealer_Yield sess m (Realm_Dealer r)
      in (r\<lparr>Realm_Dealer := d\<rparr>, out, Continue))"
| "route_message e draw sess (MError m) r =
     (if Error_Type m = INVOCATION
      then (let (d, out) = dealer_Error sess m (Realm_Dealer r)
            in (r\<lparr>Realm_Dealer := d\<rparr>, out, Continue))
      else (r, [], Continue))"
| "route_message e draw sess _ r = (r, [], Continue)"

definition handle_message ::
  "env \<Rightarrow> 64 word \<Rightarrow> sess_ptr \<Rightarrow> message \<Rightarrow> Realm \<Rightarrow> Realm \<times> sends \<times> loop_next" where
  "handle_message e draw sess msg r =
     (case Realm_Authorizer r (env_heap e sess) msg of
        (isAuthz, err) \<Rightarrow>
          if \<not> isAuthz then (r, [(sess, authz_error msg err)], Continue)
          else route_message e draw sess (Realm_Interceptor r (env_heap e sess) msg) r)"

definition kill_message :: "URI \<Rightarrow> message" where
  "kill_message reason = MGoodbye \<lparr>Goodbye_Details = dict_make, Goodbye_Reason = reason\<rparr>"

text \<open>What the local client publishes when a session joins and when it leaves.\<close>

definition client_Publish_msg :: "64 word \<Rightarrow> string \<Rightarrow> dict \<Rightarrow> glist \<Rightarrow> dict \<Rightarrow> message" where
  "client_Publish_msg draw topic options args kwargs =
     MPublish \<lparr>Publish_Request = NewID draw,
       Publish_Options = (case options of None \<Rightarrow> dict_make | Some _ \<Rightarrow> options),
       Publish_Topic = topic, Publish_Arguments = args, Publish_ArgumentsKw = kwargs\<rparr>"

definition onJoin_msg :: "64 word \<Rightarrow> dict \<Rightarrow> message" where
  "onJoin_msg draw details =
     client_Publish_msg draw ''wamp.session.on_join'' None (Some [VDict details]) None"

definition onLeave_msg :: "64 word \<Rightarrow> ID \<Rightarrow> message" where
  "onLeave_msg draw session =
     client_Publish_msg draw ''wamp.session.on_leave'' None (Some [VID session]) None"

section \<open>The handshake is sound\<close>

lemma addAuthMethod_get: "dict_get (addAuthMethod d mth) ''authmethod'' = Some (VString mth)"
  by (simp add: addAuthMethod_def)

text \<open>The method the realm uses: the first one offered that it supports.\<close>

definition supported :: "Realm \<Rightarrow> string \<Rightarrow> bool" where
  "supported r mth \<longleftrightarrow>
     fmlookup (CRAuthenticators r) mth \<noteq> None \<or> fmlookup (Authenticators r) mth \<noteq> None"

definition use_method :: "Realm \<Rightarrow> dict \<Rightarrow> string \<Rightarrow> go_error + message" where
  "use_method r details mth =
     (case fmlookup (CRAuthenticators r) mth of
        Some auth \<Rightarrow> map_sum id (\<lambda>ch. MChallenge \<lparr>Challenge_AuthMethod = mth, Challenge_Extra = ch\<rparr>)
                       (CRAuthenticator_Challenge auth details)
      | None \<Rightarrow> map_sum id (\<lambda>d. MWelcome \<lparr>Welcome_Id = 0, Welcome_Details = addAuthMethod d mth\<rparr>)
                  (Authenticator_Authenticate (the (fmlookup (Authenticators r) mth)) details))"

lemma try_methods_find:
  "try_methods r details ms =
     (case find (supported r) ms of
        None \<Rightarrow> Inl ''could not authenticate with any method''
      | Some mth \<Rightarrow> use_method r details mth)"
  by (induction ms) (auto simp: supported_def use_method_def split: option.splits sum.splits)

lemma try_methods_reply:
  "try_methods r details ms = Inr msg \<Longrightarrow>
     (\<exists>w. msg = MWelcome w) \<or> (\<exists>ch. msg = MChallenge ch)"
  by (induction ms) (auto split: option.splits sum.splits)

lemma authenticate_reply:
  "authenticate r details = Inr msg \<Longrightarrow> (\<exists>w. msg = MWelcome w) \<or> (\<exists>ch. msg = MChallenge ch)"
  by (auto simp: authenticate_def split: if_splits option.splits dest: try_methods_reply)

lemma handleAuth_no_panic: "snd (handleAuth r send rd details) \<noteq> Panic"
proof (cases "authenticate r details")
  case (Inr msg)
  with authenticate_reply [OF Inr] show ?thesis
    by (auto simp: handleAuth_def split: option.splits sum.splits message.splits)
qed (simp add: handleAuth_def)

lemma find_SomeD: "find P xs = Some x \<Longrightarrow> P x \<and> x \<in> set xs"
  by (induction xs) (auto split: if_splits)

lemma use_method_Welcome:
  "supported r mth \<Longrightarrow> use_method r details mth = Inr (MWelcome w) \<Longrightarrow>
   \<exists>auth d. fmlookup (Authenticators r) mth = Some auth
     \<and> Authenticator_Authenticate auth details = Inr d \<and> Welcome_Details w = addAuthMethod d mth"
  by (auto simp: use_method_def supported_def map_sum_def split: option.splits sum.splits)

lemma use_method_Challenge:
  "use_method r details mth = Inr (MChallenge ch) \<Longrightarrow>
   \<exists>auth. fmlookup (CRAuthenticators r) (Challenge_AuthMethod ch) = Some auth
     \<and> CRAuthenticator_Challenge auth details = Inr (Challenge_Extra ch)"
  by (auto simp: use_method_def map_sum_def split: option.splits sum.splits)

abbreviation no_authentication :: "Realm \<Rightarrow> bool" where
  "no_authentication r \<equiv> Authenticators r = fmempty \<and> CRAuthenticators r = fmempty"

lemma authenticate_via:
  assumes "authenticate r details = Inr msg" "\<not> no_authentication r"
  obtains mth where "supported r mth" "use_method r details mth = Inr msg"
  using assms
  by (auto simp: authenticate_def try_methods_find split: option.splits dest!: find_SomeD)

lemma authenticate_Challenge:
  "authenticate r details = Inr (MChallenge ch) \<Longrightarrow>
   \<exists>auth. fmlookup (CRAuthenticators r) (Challenge_AuthMethod ch) = Some auth
     \<and> CRAuthenticator_Challenge auth details = Inr (Challenge_Extra ch)"
  by (cases "no_authentication r")
     (simp add: authenticate_def, blast elim: authenticate_via dest: use_method_Challenge)

lemma checkResponse_Ok:
  "checkResponse r ch a = Inr w \<Longrightarrow>
   \<exists>auth d. fmlookup (CRAuthenticators r) (Challenge_AuthMethod ch) = Some auth
     \<and> CRAuthenticator_Authenticate auth (Challenge_Extra ch) (Authenticate_Signature a) = Inr d
     \<and> Welcome_Details w = addAuthMethod d (Challenge_AuthMethod ch)"
  by (auto simp: checkResponse_def split: option.splits sum.splits)

lemma handleAuth_Ok_cases:
  assumes "handleAuth r send rd details = (out, Ok w)"
  obtains (direct) "out = []" "authenticate r details = Inr (MWelcome w)"
  | (response) ch a where "out = [MChallenge ch]" "authenticate r details = Inr (MChallenge ch)"
      "rd = Got (MAuthenticate a)" "checkResponse r ch a = Inr w"
proof (cases "authenticate r details")
  case (Inl err)
  with assms show ?thesis by (simp add: handleAuth_def)
next
  case (Inr msg)
  from authenticate_reply [OF Inr] consider w' where "msg = MWelcome w'" | ch where "msg = MChallenge ch"
    by blast
  then show ?thesis
  proof cases
    case 1
    with assms Inr show ?thesis by (intro direct) (simp_all add: handleAuth_def)
  next
    case 2
    obtain a where "out = [MChallenge ch]" "rd = Got (MAuthenticate a)" "checkResponse r ch a = Inr w"
      using assms Inr 2
      by (cases rd) (auto simp: handleAuth_def split: option.splits sum.splits message.splits)
    with Inr 2 show ?thesis by (intro response) simp_all
  qed
qed

section \<open>One message: lemmas\<close>

lemma handle_unauthorized:
  "Realm_Authorizer r (env_heap e s) msg = (False, err) \<Longrightarrow>
   handle_message e draw s msg r = (r, [(s, authz_error msg err)], Continue)"
  by (simp add: handle_message_def)

text \<open>The identifier a message makes the realm draw is free.\<close>

fun draw_fresh :: "64 word \<Rightarrow> message \<Rightarrow> Realm \<Rightarrow> bool" where
  "draw_fresh draw (MSubscribe m) r = br_fresh (Realm_Broker r) (NewID draw)"
| "draw_fresh draw (MRegister m) r = dl_fresh (Realm_Dealer r) (NewID draw)"
| "draw_fresh draw (MCall m) r = (fmlookup (invocations (Realm_Dealer r)) (NewID draw) = None)"
| "draw_fresh draw _ r = True"

text \<open>The message the handlers see, if the authorizer lets it through.\<close>

definition seen_fresh :: "env \<Rightarrow> 64 word \<Rightarrow> sess_ptr \<Rightarrow> message \<Rightarrow> Realm \<Rightarrow> bool" where
  "seen_fresh e draw s msg r \<longleftrightarrow> draw_fresh draw (Realm_Interceptor r (env_heap e s) msg) r"

definition realm_ok :: "Realm \<Rightarrow> bool" where
  "realm_ok r \<longleftrightarrow> br_inv (Realm_Broker r) \<and> dl_inv (Realm_Dealer r)"

lemma route_message_frame:
  "clients (fst (route_message e draw s msg r)) = clients r"
  "Realm_Authorizer (fst (route_message e draw s msg r)) = Realm_Authorizer r"
  "Realm_Interceptor (fst (route_message e draw s msg r)) = Realm_Interceptor r"
  by (cases msg; simp add: case_prod_beta Let_def)+

lemma handle_message_frame:
  "clients (fst (handle_message e draw s msg r)) = clients r"
  "Realm_Authorizer (fst (handle_message e draw s msg r)) = Realm_Authorizer r"
  "Realm_Interceptor (fst (handle_message e draw s msg r)) = Realm_Interceptor r"
  by (simp_all add: handle_message_def route_message_frame split: prod.split)

lemma route_message_ok:
  "realm_ok r \<Longrightarrow> draw_fresh draw msg r \<Longrightarrow> realm_ok (fst (route_message e draw s msg r))"
  by (cases msg)
     (simp_all add: realm_ok_def case_prod_beta Let_def br_inv_Subscribe br_inv_Unsubscribe
       dl_inv_Register dl_inv_Unregister dl_inv_Call dl_inv_Yield dl_inv_Error)

lemma handle_message_ok:
  "realm_ok r \<Longrightarrow> seen_fresh e draw s msg r \<Longrightarrow> realm_ok (fst (handle_message e draw s msg r))"
  by (simp add: handle_message_def seen_fresh_def route_message_ok split: prod.split)

text \<open>A message of session \<open>s\<close> adds entries owned by \<open>s\<close> only.\<close>

lemma dl_live_cong: "procedures d' = procedures d \<Longrightarrow> dl_live d' = dl_live d"
  by (rule ext) (simp add: dl_live_def)

lemma Call_procedures: "procedures (fst (dealer_Call heap draw c msg d)) = procedures d"
  by (cases rule: Call_cases [of heap draw c msg d]) simp_all

lemma Error_procedures: "procedures (fst (dealer_Error s msg d)) = procedures d"
  by (simp add: Error_state [of s msg d s] Yield_maps)

lemma Register_live_new:
  "dl_live (fst (dealer_Register draw s m d)) i = Some (u, s') \<Longrightarrow> s' = s \<or> dl_live d i = Some (u, s')"
  by (cases "fmlookup (registrations d) (Register_Procedure m)")
     (auto simp: Register_exists dl_live_Register split: if_splits)

lemma route_message_owner:
  assumes ok: "realm_ok r" and fresh: "draw_fresh draw msg r"
  shows "br_live (Realm_Broker (fst (route_message e draw s msg r))) i = Some (t, s') \<Longrightarrow>
           s' = s \<or> br_live (Realm_Broker r) i = Some (t, s')"
    and "dl_live (Realm_Dealer (fst (route_message e draw s msg r))) i = Some (u, s') \<Longrightarrow>
           s' = s \<or> dl_live (Realm_Dealer r) i = Some (u, s')"
proof -
  have inv: "br_inv (Realm_Broker r)" using ok by (simp add: realm_ok_def)
  show "s' = s \<or> br_live (Realm_Broker r) i = Some (t, s')"
    if "br_live (Realm_Broker (fst (route_message e draw s msg r))) i = Some (t, s')"
    using that fresh
    by (cases msg) (auto simp: case_prod_beta Let_def br_live_Subscribe [OF inv]
        br_live_Unsubscribe [OF inv] split: if_splits)
  show "s' = s \<or> dl_live (Realm_Dealer r) i = Some (u, s')"
    if "dl_live (Realm_Dealer (fst (route_message e draw s msg r))) i = Some (u, s')"
    using that
    by (cases msg) (auto simp: case_prod_beta Let_def dl_live_Unregister
        dl_live_cong [OF Call_procedures] dl_live_cong [OF Yield_maps(1)]
        dl_live_cong [OF Error_procedures] dest: Register_live_new split: if_splits)
qed

lemma handle_message_owner:
  assumes "realm_ok r" and "seen_fresh e draw s msg r"
  shows "br_live (Realm_Broker (fst (handle_message e draw s msg r))) i = Some (t, s') \<Longrightarrow>
           s' = s \<or> br_live (Realm_Broker r) i = Some (t, s')"
    and "dl_live (Realm_Dealer (fst (handle_message e draw s msg r))) i = Some (u, s') \<Longrightarrow>
           s' = s \<or> dl_live (Realm_Dealer r) i = Some (u, s')"
  using route_message_owner [OF assms(1), where msg = "Realm_Interceptor r (env_heap e s) msg"
      and draw = draw and s = s] assms(2)
  by (auto simp: handle_message_def seen_fresh_def split: prod.splits if_splits)

text \<open>EVENTs and INVOCATIONs go to the owners of live entries.\<close>

lemma Publish_event_live:
  assumes "br_routes_ok b" "map_order ord" "(s, MEvent ev) \<in> set (broker_Publish ord draw pub m b)"
  shows "\<exists>i t. br_live b i = Some (t, s)"
  using assms(3) publish_events [OF assms(1,2)]
  unfolding broker_Publish_def Let_def by auto

lemma Call_invocation_live:
  assumes "dl_inv d" "(s, MInvocation iv) \<in> set (snd (dealer_Call heap draw c m d))"
  shows "\<exists>i u. dl_live d i = Some (u, s)"
proof (cases "fmlookup (registrations d) (Call_Procedure m)")
  case None
  with assms(2) show ?thesis by (simp add: Call_unknown dealer_error_def)
next
  case (Some reg)
  then obtain e' where e: "dl_live d reg = Some (Call_Procedure m, e')"
    using registration_dl_live [OF assms(1)] by blast
  with assms show ?thesis by (auto simp: Call_live)
qed

fun is_delivery :: "message \<Rightarrow> bool" where
  "is_delivery (MEvent _) = True"
| "is_delivery (MInvocation _) = True"
| "is_delivery _ = False"

lemma is_delivery_cases: "is_delivery m \<Longrightarrow> (\<exists>ev. m = MEvent ev) \<or> (\<exists>iv. m = MInvocation iv)"
  by (cases m) auto

lemma no_delivery_others:
  "(s', m') \<in> set (snd (broker_Subscribe draw s sm b)) \<Longrightarrow> \<not> is_delivery m'"
  "(s', m') \<in> set (snd (broker_Unsubscribe s um b)) \<Longrightarrow> \<not> is_delivery m'"
  "(s', m') \<in> set (snd (dealer_Register draw s rm d)) \<Longrightarrow> \<not> is_delivery m'"
  "(s', m') \<in> set (snd (dealer_Unregister s urm d)) \<Longrightarrow> \<not> is_delivery m'"
  "(s', m') \<in> set (snd (dealer_Yield s ym d)) \<Longrightarrow> \<not> is_delivery m'"
  "(s', m') \<in> set (snd (dealer_Error s em d)) \<Longrightarrow> \<not> is_delivery m'"
  by (auto simp: broker_Subscribe_def broker_Unsubscribe_def dealer_Register_def dealer_Unregister_def
      dealer_Yield_def dealer_Error_def dealer_error_def Let_def split: option.splits)

lemma route_message_quiet:
  assumes "\<forall>m. msg \<noteq> MPublish m" "\<forall>m. msg \<noteq> MCall m"
    and "(s', m') \<in> set (fst (snd (route_message e draw s msg r)))"
  shows "\<not> is_delivery m'"
  using assms
  by (cases msg) (simp_all add: case_prod_beta Let_def no_delivery_others split: if_splits)

lemma Publish_delivery_live:
  assumes "br_routes_ok b" "map_order ord" and out: "(s', m') \<in> set (broker_Publish ord draw s m b)"
    and del: "is_delivery m'"
  shows "\<exists>i t. br_live b i = Some (t, s')"
proof -
  have "\<exists>ev. m' = MEvent ev"
    using out del unfolding broker_Publish_def Let_def
    by (auto simp: set_publish_loop split: if_splits)
  with out show ?thesis using Publish_event_live [OF assms(1,2)] by blast
qed

lemma Call_delivery_live:
  assumes inv: "dl_inv d" and out: "(s', m') \<in> set (snd (dealer_Call heap draw c m d))"
    and del: "is_delivery m'"
  shows "\<exists>i u. dl_live d i = Some (u, s')"
proof -
  have "\<exists>iv. m' = MInvocation iv"
    by (cases rule: Call_cases [of heap draw c m d]) (use out del in \<open>auto simp: dealer_error_def\<close>)
  then obtain iv where "m' = MInvocation iv" ..
  with out have "(s', MInvocation iv) \<in> set (snd (dealer_Call heap draw c m d))" by simp
  then show ?thesis by (rule Call_invocation_live [OF inv])
qed

lemma route_message_delivery:
  assumes ok: "realm_ok r" and ord: "map_order (env_ord e)"
    and out: "(s', m') \<in> set (fst (snd (route_message e draw s msg r)))" and del: "is_delivery m'"
  shows "(\<exists>i t. br_live (Realm_Broker r) i = Some (t, s')) \<or> (\<exists>i u. dl_live (Realm_Dealer r) i = Some (u, s'))"
proof -
  consider m where "msg = MPublish m" | m where "msg = MCall m"
    | "\<forall>m. msg \<noteq> MPublish m" "\<forall>m. msg \<noteq> MCall m" by blast
  then show ?thesis
  proof cases
    case (1 m)
    have "br_routes_ok (Realm_Broker r)" using ok by (simp add: realm_ok_def br_inv_def)
    moreover have "(s', m') \<in> set (broker_Publish (env_ord e) draw s m (Realm_Broker r))"
      using out 1 by simp
    ultimately show ?thesis using Publish_delivery_live ord del by blast
  next
    case (2 m)
    have "dl_inv (Realm_Dealer r)" using ok by (simp add: realm_ok_def)
    moreover have "(s', m') \<in> set (snd (dealer_Call (env_heap e) draw s m (Realm_Dealer r)))"
      using out 2 by (simp add: case_prod_beta Let_def)
    ultimately show ?thesis using Call_delivery_live del by blast
  next
    case 3
    then show ?thesis using route_message_quiet [OF 3 out] del by blast
  qed
qed

lemma handle_message_delivery:
  assumes ok: "realm_ok r" and ord: "map_order (env_ord e)"
    and out: "(s', m') \<in> set (fst (snd (handle_message e draw s msg r)))" and del: "is_delivery m'"
  shows "(\<exists>i t. br_live (Realm_Broker r) i = Some (t, s')) \<or> (\<exists>i u. dl_live (Realm_Dealer r) i = Some (u, s'))"
proof (cases "fst (Realm_Authorizer r (env_heap e s) msg)")
  case True
  with out have "(s', m') \<in> set (fst (snd (route_message e draw s (Realm_Interceptor r (env_heap e s) msg) r)))"
    by (simp add: handle_message_def case_prod_beta)
  then show ?thesis using del by (rule route_message_delivery [OF ok ord])
next
  case False
  with out del show ?thesis by (simp add: handle_message_def case_prod_beta authz_error_def)
qed

section \<open>Properties of the handshake and of message handling\<close>

text \<open>
  C24. A realm admits a peer only after one of its authenticators has accepted it: when
  \<open>handleAuth\<close> returns a WELCOME, either the realm has no authenticator at all, or an
  \<open>Authenticator\<close> accepted the HELLO details and nothing was sent, or a \<open>CRAuthenticator\<close>
  made a challenge that was sent (and nothing else), the peer's next message was an AUTHENTICATE,
  and the same authenticator accepted its signature for that challenge.  In the last two cases the
  WELCOME names the method that accepted.
\<close>

theorem handshake_sound:
  assumes "handleAuth r send rd details = (out, Ok w)"
  shows "no_authentication r
    \<or> (\<exists>mth auth d. fmlookup (Authenticators r) mth = Some auth
         \<and> Authenticator_Authenticate auth details = Inr d \<and> out = []
         \<and> Welcome_Details w = addAuthMethod d mth)
    \<or> (\<exists>ch auth a d. fmlookup (CRAuthenticators r) (Challenge_AuthMethod ch) = Some auth
         \<and> CRAuthenticator_Challenge auth details = Inr (Challenge_Extra ch)
         \<and> out = [MChallenge ch] \<and> rd = Got (MAuthenticate a)
         \<and> CRAuthenticator_Authenticate auth (Challenge_Extra ch) (Authenticate_Signature a) = Inr d
         \<and> Welcome_Details w = addAuthMethod d (Challenge_AuthMethod ch))"
  using assms
proof (cases rule: handleAuth_Ok_cases)
  case direct
  show ?thesis
  proof (cases "no_authentication r")
    case False
    with direct(2) obtain mth where "supported r mth" "use_method r details mth = Inr (MWelcome w)"
      by (rule authenticate_via)
    from use_method_Welcome [OF this] direct(1) show ?thesis by blast
  qed blast
next
  case (response ch a)
  from authenticate_Challenge [OF response(2)] checkResponse_Ok [OF response(4)]
  obtain auth d where "fmlookup (CRAuthenticators r) (Challenge_AuthMethod ch) = Some auth"
    "CRAuthenticator_Challenge auth details = Inr (Challenge_Extra ch)"
    "CRAuthenticator_Authenticate auth (Challenge_Extra ch) (Authenticate_Signature a) = Inr d"
    "Welcome_Details w = addAuthMethod d (Challenge_AuthMethod ch)" by auto
  with response(1,3) show ?thesis by blast
qed

text \<open>A realm for the witnesses: tickets \<open>t\<close> only, everything else as \<open>init\<close> leaves it.\<close>

definition ticket_config :: RealmConfig where
  "ticket_config = \<lparr>cfg_URI = ''realm1'', cfg_Broker = None, cfg_Dealer = None, cfg_Authorizer = None,
     cfg_Interceptor = None,
     cfg_CRAuthenticators = fmupd ''ticket'' (NewBasicTicketAuthenticator [''t'']) fmempty,
     cfg_Authenticators = fmempty, cfg_AuthTimeout = 0\<rparr>"

definition offer :: "string list \<Rightarrow> dict" where
  "offer ms = Some (fmupd ''authmethods'' (VSlice (Some (map VString ms))) fmempty)"

definition signed :: "string \<Rightarrow> peer_read" where
  "signed sig = Got (MAuthenticate \<lparr>Authenticate_Signature = sig, Authenticate_Extra = None\<rparr>)"

lemma ticket_realm [simp]:
  "CRAuthenticators (Realm_init ticket_config) =
     fmupd ''ticket'' (NewBasicTicketAuthenticator [''t'']) fmempty"
  "Authenticators (Realm_init ticket_config) = fmempty"
  by (simp_all add: Realm_init_def ticket_config_def)

lemma offer_authmethods: "details_authmethods (offer ms) = Some (map VString ms)"
  by (simp add: details_authmethods_def offer_def)

lemma string_values_VString [simp]: "string_values (map VString ms) = ms"
  by (induction ms) auto

lemma fmupd_not_empty [simp]: "fmupd k v m \<noteq> fmempty"
  by (metis fmap_eq_empty_iff fmupd_lookup option.distinct(1))

theorem handshake_sound_witness:
  "\<exists>extra a d. signed ''t'' = Got (MAuthenticate a) \<and>
     CRAuthenticator_Authenticate (NewBasicTicketAuthenticator [''t'']) extra (Authenticate_Signature a) = Inr d"
proof -
  have "handleAuth (Realm_init ticket_config) (\<lambda>_. None) (signed ''t'') (offer [''ticket'']) =
      ([MChallenge \<lparr>Challenge_AuthMethod = ''ticket'', Challenge_Extra = dict_make\<rparr>],
       Ok \<lparr>Welcome_Id = 0, Welcome_Details = addAuthMethod None ''ticket''\<rparr>)"
    by (simp add: handleAuth_def authenticate_def offer_authmethods ticket_Challenge signed_def
        checkResponse_def ticket_Authenticate)
  from handshake_sound [OF this] show ?thesis by auto
qed

text \<open>
  Methods are tried in the order the peer offers them: on a realm with authenticators the
  outcome of \<open>authenticate\<close> is that of the first offered method (elements of \<open>authmethods\<close> that
  are no strings skipped) for which the realm has an authenticator, challenge-response ones
  first; later methods are never tried, even when that one fails.
\<close>

theorem authenticate_first_supported:
  assumes "\<not> no_authentication r" and "details_authmethods details = Some vs"
  shows "authenticate r details =
    (case find (supported r) (string_values vs) of
       None \<Rightarrow> Inl ''could not authenticate with any method''
     | Some mth \<Rightarrow> use_method r details mth)"
  using assms by (auto simp: authenticate_def try_methods_find)

theorem authenticate_first_supported_witness:
  "authenticate (Realm_init ticket_config) (offer [''wampcra'', ''ticket'']) =
     use_method (Realm_init ticket_config) (offer [''wampcra'', ''ticket'']) ''ticket''"
  using authenticate_first_supported [of "Realm_init ticket_config" "offer [''wampcra'', ''ticket'']"]
  by (simp add: offer_authmethods supported_def)

lemma find_only: "(\<And>x. P x \<longleftrightarrow> x = a) \<Longrightarrow> a \<in> set xs \<Longrightarrow> find P xs = Some a"
  by (induction xs) auto

text \<open>
  A realm whose only authenticator is a ticket authenticator.
\<close>

lemma ticket_handshake:
  assumes "CRAuthenticators r = fmupd ''ticket'' (NewBasicTicketAuthenticator ts) fmempty"
    and "Authenticators r = fmempty" and "details_authmethods details = Some vs"
    and "VString ''ticket'' \<in> set vs" and "\<And>m. send m = None"
  shows "(\<exists>w. snd (handleAuth r send rd details) = Ok w) \<longleftrightarrow>
    (\<exists>a. rd = Got (MAuthenticate a) \<and> Authenticate_Signature a \<in> set ts)"
proof -
  have "VString m \<in> set vs \<Longrightarrow> m \<in> set (string_values vs)" for m
    by (induction vs rule: string_values.induct) auto
  then have "find (supported r) (string_values vs) = Some ''ticket''"
    using assms(1,2,4) by (intro find_only) (simp_all add: supported_def)
  then have "authenticate r details =
      Inr (MChallenge \<lparr>Challenge_AuthMethod = ''ticket'', Challenge_Extra = dict_make\<rparr>)"
    using assms(1-3) by (simp add: authenticate_def try_methods_find use_method_def ticket_Challenge)
  then show ?thesis
    using assms(1,5)
    by (cases rd) (auto simp: handleAuth_def checkResponse_def ticket_Authenticate
        split: message.splits option.splits sum.splits)
qed

text \<open>
  C34. A message the authorizer refuses has no effect: the realm is unchanged, the session stays,
  and the sender alone gets one ERROR, with the code of the refused message, the refused
  message's request identifier if it is one of the seven requests, and the reason
  \<open>authorization_failed\<close> or \<open>not_authorized\<close> according to whether the authorizer returned an
  error.  A refused GOODBYE or ERROR is answered with request 0.
\<close>

theorem unauthorized_no_effect:
  assumes "Realm_Authorizer r (env_heap e s) msg = (False, err)"
  shows "handle_message e draw s msg r =
     (r, [(s, MError \<lparr>Error_Type = MessageType_of msg,
        Error_Request = (case msg of MPublish m \<Rightarrow> Publish_Request m | MSubscribe m \<Rightarrow> Subscribe_Request m
          | MUnsubscribe m \<Rightarrow> Unsubscribe_Request m | MRegister m \<Rightarrow> Register_Request m
          | MUnregister m \<Rightarrow> Unregister_Request m | MCall m \<Rightarrow> Call_Request m
          | MYield m \<Rightarrow> Yield_Request m | _ \<Rightarrow> 0),
        Error_Details = None,
        Error_Error = (if err = None then ErrNotAuthorized else ErrAuthorizationFailed),
        Error_Arguments = None, Error_ArgumentsKw = None\<rparr>)], Continue)"
  using assms by (cases msg; cases err) (simp_all add: handle_unauthorized authz_error_def)

text \<open>An authorizer that refuses every CALL, and the ticket realm with it.\<close>

definition no_calls :: Authorizer where
  "no_calls sess msg = (case msg of MCall _ \<Rightarrow> (False, None) | _ \<Rightarrow> (True, None))"

definition demo_env :: env where
  "demo_env = \<lparr>env_ord = sorted_list_of_fset, env_heap = (\<lambda>s. \<lparr>Session_Id = of_nat s, Session_Details = None\<rparr>)\<rparr>"

definition demo_call_msg :: message where
  "demo_call_msg = MCall \<lparr>Call_Request = 4, Call_Options = None, Call_Procedure = ''p'',
     Call_Arguments = None, Call_ArgumentsKw = None\<rparr>"

theorem unauthorized_no_effect_witness:
  "\<exists>m. handle_message demo_env 9 2 demo_call_msg ((Realm_init ticket_config)\<lparr>Realm_Authorizer := no_calls\<rparr>) =
     ((Realm_init ticket_config)\<lparr>Realm_Authorizer := no_calls\<rparr>, [(2, MError m)], Continue)
     \<and> Error_Request m = 4 \<and> Error_Error m = ErrNotAuthorized"
  using unauthorized_no_effect [of "(Realm_init ticket_config)\<lparr>Realm_Authorizer := no_calls\<rparr>"
      demo_env 2 demo_call_msg None 9]
  by (simp add: no_calls_def demo_call_msg_def)

end
