(* ===== verification/Realm_Steps.thy ===== *)
theory Realm_Steps
  imports Realm
begin

text \<open>
  \<^verbatim>\<open>realm.go\<close>, the concurrent parts.  A realm runs one goroutine for its acts
  (\<open>run\<close>: it alone touches \<open>clients\<close>), one per session (\<open>handleSession\<close>), and the
  local client's; \<open>Close\<close> runs in its caller's.  \<open>world\<close> holds the realm, the point each
  goroutine has reached, the channels (\<open>kill\<close> of every session, with room for one reason; the
  pipe to the local session, with room for ten messages; \<open>acts\<close>, which has no room, so that a
  send to it is a meeting with \<open>run\<close>), and \<open>realm_step\<close> is one atomic action of one of them.
  The broker and the dealer lock themselves for each operation, so each operation is atomic.
\<close>

section \<open>The goroutines\<close>

text \<open>
  Where \<open>handleSession\<close> is for a session: not called yet; at the first \<open>r.acts <-\<close>; its join
  act running (it waits on \<open>sync\<close>); in the loop; at the deferred \<open>r.acts <-\<close>; returned.
\<close>

datatype phase = NotStarted | WantJoin | InJoin | Running | WantLeave | Gone

text \<open>
  Where \<open>run\<close> is: waiting for an act; in a join act, about to call \<open>onJoin\<close>; in a leave act,
  about to call \<open>Dealer.RemoveSession\<close>, \<open>Broker.RemoveSession\<close> or \<open>onLeave\<close>.
\<close>

datatype act = Idle | JoinPublish sess_ptr | LeaveDealer sess_ptr | LeaveBroker sess_ptr
  | LeavePublish sess_ptr

text \<open>Where \<open>Close\<close> is: not called; polling the number of clients; past the loop; returned.\<close>

datatype closing = NotClosing | Polling | Drained | Closed

text \<open>\<open>Close\<close> only goes forward: its points are ordered (\<open>closing_mono\<close>).\<close>

fun closing_rank :: "closing \<Rightarrow> nat" where
  "closing_rank NotClosing = 0"
| "closing_rank Polling = 1"
| "closing_rank Drained = 2"
| "closing_rank Closed = 3"

lemma closing_rank_inj: "closing_rank x = closing_rank y \<longleftrightarrow> x = y"
  by (cases x; cases y) simp_all

instantiation closing :: linorder
begin

definition less_eq_closing :: "closing \<Rightarrow> closing \<Rightarrow> bool" where
  "less_eq_closing x y \<longleftrightarrow> closing_rank x \<le> closing_rank y"

definition less_closing :: "closing \<Rightarrow> closing \<Rightarrow> bool" where
  "less_closing x y \<longleftrightarrow> closing_rank x < closing_rank y"

instance
  by standard (auto simp: less_eq_closing_def less_closing_def closing_rank_inj dest: antisym)

end

lemma closing_order [simp]: "NotClosing \<le> x" "x \<le> Closed" "Polling \<le> Drained"
  by (cases x; simp add: less_eq_closing_def)+

lemma Closed_le [simp]: "Closed \<le> x \<longleftrightarrow> x = Closed"
  by (cases x) (simp_all add: less_eq_closing_def)

record world =
  w_realm :: Realm
  w_act :: act
  w_phase :: "sess_ptr \<Rightarrow> phase"
  w_kill :: "sess_ptr \<Rightarrow> URI list"
  w_pipe :: "message list"
  w_closing :: closing

definition pipe_cap :: nat where "pipe_cap = 10"

abbreviation acts_open :: "world \<Rightarrow> bool" where
  "acts_open w \<equiv> w_closing w \<noteq> Closed"

definition set_phase :: "sess_ptr \<Rightarrow> phase \<Rightarrow> world \<Rightarrow> world" where
  "set_phase s p w = w\<lparr>w_phase := (w_phase w)(s := p)\<rparr>"

text \<open>The loop body's effect on the world: \<open>handle_message\<close>, and the deferred call on \<open>Return\<close>.\<close>

definition take_message :: "env \<Rightarrow> 64 word \<Rightarrow> sess_ptr \<Rightarrow> message \<Rightarrow> world \<Rightarrow> world \<times> sends" where
  "take_message e draw s msg w =
     (let (r, out, nxt) = handle_message e draw s msg (w_realm w)
      in (set_phase s (if nxt = Return then WantLeave else Running) (w\<lparr>w_realm := r\<rparr>), out))"

text \<open>
  The acts, one definition for each part that another goroutine can observe.
\<close>

definition join_begin :: "env \<Rightarrow> sess_ptr \<Rightarrow> world \<Rightarrow> world" where
  "join_begin e s w =
     set_phase s InJoin
       (w\<lparr>w_realm := (w_realm w)\<lparr>clients := fmupd (Session_Id (env_heap e s)) s (clients (w_realm w))\<rparr>,
          w_act := JoinPublish s\<rparr>)"

definition join_end :: "env \<Rightarrow> 64 word \<Rightarrow> sess_ptr \<Rightarrow> world \<Rightarrow> world" where
  "join_end e draw s w =
     set_phase s Running
       (w\<lparr>w_pipe := w_pipe w @ [onJoin_msg draw (Session_Details (env_heap e s))], w_act := Idle\<rparr>)"

definition leave_begin :: "env \<Rightarrow> sess_ptr \<Rightarrow> world \<Rightarrow> world" where
  "leave_begin e s w =
     set_phase s Gone
       (w\<lparr>w_realm := (w_realm w)\<lparr>clients := fmdrop (Session_Id (env_heap e s)) (clients (w_realm w))\<rparr>,
          w_act := LeaveDealer s\<rparr>)"

definition leave_dealer :: "env \<Rightarrow> sess_ptr \<Rightarrow> world \<Rightarrow> world" where
  "leave_dealer e s w =
     w\<lparr>w_realm := (w_realm w)\<lparr>Realm_Dealer := dealer_RemoveSession (env_ord e) s (Realm_Dealer (w_realm w))\<rparr>,
       w_act := LeaveBroker s\<rparr>"

definition leave_broker :: "env \<Rightarrow> sess_ptr \<Rightarrow> world \<Rightarrow> world" where
  "leave_broker e s w =
     w\<lparr>w_realm := (w_realm w)\<lparr>Realm_Broker := broker_RemoveSession (env_ord e) s (Realm_Broker (w_realm w))\<rparr>,
       w_act := LeavePublish s\<rparr>"

definition leave_end :: "env \<Rightarrow> 64 word \<Rightarrow> sess_ptr \<Rightarrow> world \<Rightarrow> world" where
  "leave_end e draw s w =
     w\<lparr>w_pipe := w_pipe w @ [onLeave_msg draw (Session_Id (env_heap e s))], w_act := Idle\<rparr>"

text \<open>\<open>Close\<close>'s first act: one reason into the \<open>kill\<close> channel of every client.\<close>

definition close_kill :: "world \<Rightarrow> world" where
  "close_kill w =
     w\<lparr>w_kill := (\<lambda>s. if s \<in> fset (fmran (clients (w_realm w))) then w_kill w s @ [ErrSystemShutdown]
                      else w_kill w s),
       w_closing := Polling\<rparr>"

text \<open>
  \<open>realm_step e l w out w'\<close>: one action that sends \<open>out\<close>; \<open>l\<close> is the local session.  A message of
  another session's peer can be any message at any time; the local session's messages come from
  the pipe, into which \<open>onJoin\<close>, \<open>onLeave\<close> and the program that owns the realm (it can call the
  methods of the local client) write.  A step that needs an identifier draws a free one.
\<close>

inductive realm_step :: "env \<Rightarrow> sess_ptr \<Rightarrow> world \<Rightarrow> sends \<Rightarrow> world \<Rightarrow> bool"
  for e :: env and l :: sess_ptr where
  connect: "w_phase w s = NotStarted \<Longrightarrow> realm_step e l w [] (set_phase s WantJoin w)"
| join_begin: "w_act w = Idle \<Longrightarrow> acts_open w \<Longrightarrow> w_phase w s = WantJoin \<Longrightarrow>
    realm_step e l w [] (join_begin e s w)"
| join_end: "w_act w = JoinPublish s \<Longrightarrow> length (w_pipe w) < pipe_cap \<Longrightarrow>
    realm_step e l w [] (join_end e draw s w)"
| message: "w_phase w s = Running \<Longrightarrow> s \<noteq> l \<Longrightarrow> seen_fresh e draw s msg (w_realm w) \<Longrightarrow>
    take_message e draw s msg w = (w', out) \<Longrightarrow> realm_step e l w out w'"
| local_message: "w_phase w l = Running \<Longrightarrow> w_pipe w = msg # pipe \<Longrightarrow>
    seen_fresh e draw l msg (w_realm w) \<Longrightarrow>
    take_message e draw l msg (w\<lparr>w_pipe := pipe\<rparr>) = (w', out) \<Longrightarrow> realm_step e l w out w'"
| local_send: "length (w_pipe w) < pipe_cap \<Longrightarrow>
    realm_step e l w [] (w\<lparr>w_pipe := w_pipe w @ [msg]\<rparr>)"
| lost: "w_phase w s = Running \<Longrightarrow> s \<noteq> l \<Longrightarrow> realm_step e l w [] (set_phase s WantLeave w)"
| killed: "w_phase w s = Running \<Longrightarrow> w_kill w s = reason # reasons \<Longrightarrow>
    realm_step e l w [(s, kill_message reason)]
      (set_phase s WantLeave (w\<lparr>w_kill := (w_kill w)(s := reasons)\<rparr>))"
| leave_begin: "w_act w = Idle \<Longrightarrow> acts_open w \<Longrightarrow> w_phase w s = WantLeave \<Longrightarrow>
    realm_step e l w [] (leave_begin e s w)"
| leave_dealer: "w_act w = LeaveDealer s \<Longrightarrow> realm_step e l w [] (leave_dealer e s w)"
| leave_broker: "w_act w = LeaveBroker s \<Longrightarrow> realm_step e l w [] (leave_broker e s w)"
| leave_end: "w_act w = LeavePublish s \<Longrightarrow> length (w_pipe w) < pipe_cap \<Longrightarrow>
    realm_step e l w [] (leave_end e draw s w)"
| close_kill: "w_act w = Idle \<Longrightarrow> w_closing w = NotClosing \<Longrightarrow>
    (\<And>s. s \<in> fset (fmran (clients (w_realm w))) \<Longrightarrow> w_kill w s = []) \<Longrightarrow>
    realm_step e l w [] (close_kill w)"
| close_poll: "w_act w = Idle \<Longrightarrow> w_closing w = Polling \<Longrightarrow> clients (w_realm w) = fmempty \<Longrightarrow>
    realm_step e l w [] (w\<lparr>w_closing := Drained\<rparr>)"
| close_acts: "w_closing w = Drained \<Longrightarrow> realm_step e l w [] (w\<lparr>w_closing := Closed\<rparr>)"

text \<open>
  The world after \<open>RegisterRealm\<close>: \<open>init\<close> has started the local session.
\<close>

definition init_world :: "RealmConfig \<Rightarrow> sess_ptr \<Rightarrow> world" where
  "init_world cfg l =
     \<lparr>w_realm = Realm_init cfg, w_act = Idle,
      w_phase = (\<lambda>s. if s = l then WantJoin else NotStarted), w_kill = (\<lambda>_. []), w_pipe = [],
      w_closing = NotClosing\<rparr>"

inductive realm_steps :: "env \<Rightarrow> sess_ptr \<Rightarrow> world \<Rightarrow> sends \<Rightarrow> world \<Rightarrow> bool"
  for e :: env and l :: sess_ptr where
  refl: "realm_steps e l w [] w"
| step: "realm_steps e l w out w1 \<Longrightarrow> realm_step e l w1 out1 w2 \<Longrightarrow>
    realm_steps e l w (out @ out1) w2"

definition reachable :: "env \<Rightarrow> RealmConfig \<Rightarrow> sess_ptr \<Rightarrow> world \<Rightarrow> bool" where
  "reachable e cfg l w \<longleftrightarrow> (\<exists>out. realm_steps e l (init_world cfg l) out w)"

inductive_cases realm_stepE: "realm_step e l w out w'"

section \<open>What a session owns, and when\<close>

text \<open>The phases in which a session may own subscriptions, and registrations.\<close>

definition may_subscribe :: "world \<Rightarrow> sess_ptr \<Rightarrow> bool" where
  "may_subscribe w s \<longleftrightarrow>
     w_phase w s \<in> {Running, WantLeave} \<or> w_act w \<in> {LeaveDealer s, LeaveBroker s}"

definition may_register :: "world \<Rightarrow> sess_ptr \<Rightarrow> bool" where
  "may_register w s \<longleftrightarrow> w_phase w s \<in> {Running, WantLeave} \<or> w_act w = LeaveDealer s"

definition owners_ok :: "world \<Rightarrow> bool" where
  "owners_ok w \<longleftrightarrow>
     (\<forall>i t s. br_live (Realm_Broker (w_realm w)) i = Some (t, s) \<longrightarrow> may_subscribe w s)
     \<and> (\<forall>i u s. dl_live (Realm_Dealer (w_realm w)) i = Some (u, s) \<longrightarrow> may_register w s)"

text \<open>The clients of the realm are the sessions that have joined and not left.\<close>

definition clients_ok :: "env \<Rightarrow> world \<Rightarrow> bool" where
  "clients_ok e w \<longleftrightarrow>
     (\<forall>s i. fmlookup (clients (w_realm w)) i = Some s \<longleftrightarrow>
        Session_Id (env_heap e s) = i \<and> w_phase w s \<in> {InJoin, Running, WantLeave})"

text \<open>A session that waits for its join act to end has it running.\<close>

definition acts_ok :: "world \<Rightarrow> bool" where
  "acts_ok w \<longleftrightarrow>
     (\<forall>s. w_phase w s = InJoin \<longleftrightarrow> w_act w = JoinPublish s)
     \<and> (\<forall>s. w_act w \<in> {LeaveDealer s, LeaveBroker s, LeavePublish s} \<longrightarrow> w_phase w s = Gone)"

definition world_ok :: "world \<Rightarrow> bool" where
  "world_ok w \<longleftrightarrow> realm_ok (w_realm w) \<and> owners_ok w \<and> acts_ok w"

lemma world_okD:
  assumes "world_ok w"
  shows "realm_ok (w_realm w)" "owners_ok w" "acts_ok w"
  using assms unfolding world_ok_def by blast+

lemma owners_okD:
  assumes "owners_ok w"
  shows "br_live (Realm_Broker (w_realm w)) i = Some (t, s) \<Longrightarrow> may_subscribe w s"
    and "dl_live (Realm_Dealer (w_realm w)) i = Some (u, s) \<Longrightarrow> may_register w s"
  using assms unfolding owners_ok_def by blast+

lemma acts_okD:
  assumes "acts_ok w"
  shows "w_phase w s = InJoin \<longleftrightarrow> w_act w = JoinPublish s"
    and "w_act w = LeaveDealer s \<Longrightarrow> w_phase w s = Gone"
    and "w_act w = LeaveBroker s \<Longrightarrow> w_phase w s = Gone"
    and "w_act w = LeavePublish s \<Longrightarrow> w_phase w s = Gone"
  using assms unfolding acts_ok_def by blast+

lemma acts_ok_phase:
  assumes ok: "acts_ok w" and old: "w_phase w s \<notin> {InJoin, Gone}" and new: "p \<noteq> InJoin"
    and w': "w_act w' = w_act w" "w_phase w' = (w_phase w)(s := p)"
  shows "acts_ok w'"
proof -
  have n: "w_act w \<notin> {JoinPublish s, LeaveDealer s, LeaveBroker s, LeavePublish s}"
    using acts_okD [OF ok, of s] old by auto
  have "((w_phase w)(s := p)) s' = InJoin \<longleftrightarrow> w_act w = JoinPublish s'" for s'
    using acts_okD(1) [OF ok, of s'] n new by (cases "s' = s") auto
  moreover have "((w_phase w)(s := p)) s' = Gone"
    if "w_act w \<in> {LeaveDealer s', LeaveBroker s', LeavePublish s'}" for s'
    using acts_okD(2-4) [OF ok, of s'] that n by (cases "s' = s") auto
  ultimately show ?thesis unfolding acts_ok_def w' by blast
qed

text \<open>\<open>Close\<close> goes forward.\<close>

lemma closing_mono: "realm_step e l w out w' \<Longrightarrow> w_closing w \<le> w_closing w'"
  by (erule realm_step.cases)
     (auto simp: set_phase_def join_begin_def join_end_def leave_begin_def leave_dealer_def leave_broker_def leave_end_def
        close_kill_def take_message_def Let_def split: prod.splits)

text \<open>A step that leaves broker and dealer alone keeps \<open>owners_ok\<close> if nobody loses his rights.\<close>

lemma owners_ok_frame:
  assumes "owners_ok w"
    and "Realm_Broker (w_realm w') = Realm_Broker (w_realm w)"
    and "Realm_Dealer (w_realm w') = Realm_Dealer (w_realm w)"
    and "\<And>s. may_subscribe w s \<Longrightarrow> may_subscribe w' s"
    and "\<And>s. may_register w s \<Longrightarrow> may_register w' s"
  shows "owners_ok w'"
  using assms(4,5) owners_okD [OF assms(1)] unfolding owners_ok_def assms(2,3) by blast

lemmas world_steps = set_phase_def join_begin_def join_end_def leave_begin_def leave_dealer_def
  leave_broker_def leave_end_def close_kill_def

lemma take_message_fields:
  assumes "take_message e draw s msg w = (w', out)"
  shows "w_realm w' = fst (handle_message e draw s msg (w_realm w))"
    and "out = fst (snd (handle_message e draw s msg (w_realm w)))"
    and "w_act w' = w_act w" "w_pipe w' = w_pipe w" "w_kill w' = w_kill w" "w_closing w' = w_closing w"
    and "w_phase w' = (w_phase w)(s :=
           if snd (snd (handle_message e draw s msg (w_realm w))) = Return then WantLeave else Running)"
  using assms by (auto simp: take_message_def set_phase_def case_prod_beta Let_def)

lemma take_message_phase:
  "take_message e draw s msg w = (w', out) \<Longrightarrow>
     w_phase w' s \<in> {Running, WantLeave} \<and> (\<forall>s'. s' \<noteq> s \<longrightarrow> w_phase w' s' = w_phase w s')"
  by (simp add: take_message_fields(7))

lemma take_message_ok:
  assumes ok: "world_ok w" and run: "w_phase w s = Running"
    and fresh: "seen_fresh e draw s msg (w_realm w)"
    and take: "take_message e draw s msg w = (w', out)"
  shows "world_ok w'"
proof -
  note f = take_message_fields [OF take] and p = take_message_phase [OF take]
  note o = owners_okD [OF world_okD(2) [OF ok]] and h = handle_message_owner [OF world_okD(1) [OF ok] fresh]
  have keep: "may_subscribe w' s'" "may_register w' s'" if "s' = s" for s'
    using p that by (simp_all add: may_subscribe_def may_register_def)
  have keep': "may_subscribe w s' \<Longrightarrow> may_subscribe w' s'" "may_register w s' \<Longrightarrow> may_register w' s'" for s'
    using p keep by (cases "s' = s"; simp add: may_subscribe_def may_register_def f(3))+
  have "realm_ok (w_realm w')"
    unfolding f(1) using world_okD(1) [OF ok] fresh by (rule handle_message_ok)
  moreover have "owners_ok w'"
    unfolding owners_ok_def f(1) using o h keep keep' by blast
  moreover have "acts_ok w'"
    by (rule acts_ok_phase [OF world_okD(3) [OF ok] _ _ f(3,7)]) (simp_all add: run)
  ultimately show ?thesis by (simp add: world_ok_def)
qed

lemma realm_ok_drop:
  assumes "realm_ok r" "map_order ord"
  shows "realm_ok (r\<lparr>Realm_Dealer := dealer_RemoveSession ord s (Realm_Dealer r)\<rparr>)"
    and "realm_ok (r\<lparr>Realm_Broker := broker_RemoveSession ord s (Realm_Broker r)\<rparr>)"
  using assms by (simp_all add: realm_ok_def dl_inv_RemoveSession br_inv_RemoveSession)

lemma leave_dealer_ok:
  assumes ok: "world_ok w" and ord: "map_order (env_ord e)" and act: "w_act w = LeaveDealer s"
  shows "world_ok (leave_dealer e s w)"
proof -
  have inv: "dl_inv (Realm_Dealer (w_realm w))"
    using world_okD(1) [OF ok] by (simp add: realm_ok_def)
  have r: "may_register (leave_dealer e s w) s'" 
    if "dl_live (Realm_Dealer (w_realm (leave_dealer e s w))) i = Some (u, s')" for i u s'
  proof -
    from that have "dl_live (Realm_Dealer (w_realm w)) i = Some (u, s')" "s' \<noteq> s"
      by (auto simp: leave_dealer_def dl_live_RemoveSession [OF inv ord] split: option.splits if_splits)
    with owners_okD(2) [OF world_okD(2) [OF ok]] act show ?thesis
      by (fastforce simp: may_register_def leave_dealer_def)
  qed
  have b: "may_subscribe (leave_dealer e s w) s'" if "may_subscribe w s'" for s'
    using that act by (auto simp: may_subscribe_def leave_dealer_def)
  have "owners_ok (leave_dealer e s w)"
    unfolding owners_ok_def using r b owners_okD(1) [OF world_okD(2) [OF ok]]
    by (simp add: leave_dealer_def)
  moreover have "acts_ok (leave_dealer e s w)"
    using acts_okD [OF world_okD(3) [OF ok]] act by (auto simp: acts_ok_def leave_dealer_def)
  ultimately show ?thesis
    using realm_ok_drop(1) [OF world_okD(1) [OF ok] ord] by (simp add: world_ok_def leave_dealer_def)
qed

lemma leave_broker_ok:
  assumes ok: "world_ok w" and ord: "map_order (env_ord e)" and act: "w_act w = LeaveBroker s"
  shows "world_ok (leave_broker e s w)"
proof -
  have inv: "br_inv (Realm_Broker (w_realm w))"
    using world_okD(1) [OF ok] by (simp add: realm_ok_def)
  have r: "may_subscribe (leave_broker e s w) s'" 
    if "br_live (Realm_Broker (w_realm (leave_broker e s w))) i = Some (u, s')" for i u s'
  proof -
    from that have "br_live (Realm_Broker (w_realm w)) i = Some (u, s')" "s' \<noteq> s"
      by (auto simp: leave_broker_def br_live_RemoveSession [OF inv ord] split: option.splits if_splits)
    with owners_okD(1) [OF world_okD(2) [OF ok]] act show ?thesis
      by (fastforce simp: may_subscribe_def leave_broker_def)
  qed
  have b: "may_register (leave_broker e s w) s'" if "may_register w s'" for s'
    using that act by (auto simp: may_register_def leave_broker_def)
  have "owners_ok (leave_broker e s w)"
    unfolding owners_ok_def using r b owners_okD(2) [OF world_okD(2) [OF ok]]
    by (simp add: leave_broker_def)
  moreover have "acts_ok (leave_broker e s w)"
    using acts_okD [OF world_okD(3) [OF ok]] act by (auto simp: acts_ok_def leave_broker_def)
  ultimately show ?thesis
    using realm_ok_drop(2) [OF world_okD(1) [OF ok] ord] by (simp add: world_ok_def leave_broker_def)
qed

lemma frame_ok:
  assumes ok: "world_ok w" and acts: "acts_ok w'"
    and "Realm_Broker (w_realm w') = Realm_Broker (w_realm w)"
    and "Realm_Dealer (w_realm w') = Realm_Dealer (w_realm w)"
    and "\<And>s. may_subscribe w s \<Longrightarrow> may_subscribe w' s"
    and "\<And>s. may_register w s \<Longrightarrow> may_register w' s"
  shows "world_ok w'"
  using owners_ok_frame [OF world_okD(2) [OF ok] assms(3-6)] world_okD(1) [OF ok] acts
  by (simp add: world_ok_def realm_ok_def assms(3,4))

lemma world_ok_step:
  assumes "realm_step e l w out w'" and "map_order (env_ord e)" and "world_ok w"
  shows "world_ok w'"
  using assms(1)
proof cases
  case (connect s)
  have "acts_ok w'"
    by (rule acts_ok_phase [OF world_okD(3) [OF assms(3)], where s = s]) (simp_all add: connect set_phase_def)
  then show ?thesis
    by (rule frame_ok [OF assms(3)])
       (auto simp: connect may_subscribe_def may_register_def set_phase_def)
next
  case (join_begin s)
  show ?thesis
    by (rule frame_ok [OF assms(3)]; use acts_okD [OF world_okD(3) [OF assms(3)]] join_begin in
        \<open>auto simp: acts_ok_def may_subscribe_def may_register_def world_steps\<close>)
next
  case (join_end s draw)
  show ?thesis
    by (rule frame_ok [OF assms(3)]; use acts_okD [OF world_okD(3) [OF assms(3)]] join_end in
        \<open>auto simp: acts_ok_def may_subscribe_def may_register_def world_steps\<close>)
next
  case (message s draw msg)
  show ?thesis
    by (rule take_message_ok [OF assms(3) message(1,3,4)])
next
  case (local_message msg pipe draw)
  have "world_ok (w\<lparr>w_pipe := pipe\<rparr>)"
    using assms(3) by (simp add: world_ok_def owners_ok_def acts_ok_def may_subscribe_def may_register_def)
  then show ?thesis
    using local_message by (auto intro: take_message_ok)
next
  case (local_send msg)
  then show ?thesis
    using assms(3) by (simp add: world_ok_def owners_ok_def acts_ok_def may_subscribe_def may_register_def)
next
  case (lost s)
  have "acts_ok w'"
    by (rule acts_ok_phase [OF world_okD(3) [OF assms(3)], where s = s]) (simp_all add: lost set_phase_def)
  then show ?thesis
    by (rule frame_ok [OF assms(3)])
       (auto simp: lost may_subscribe_def may_register_def set_phase_def)
next
  case (killed s reason reasons)
  have "acts_ok w'"
    by (rule acts_ok_phase [OF world_okD(3) [OF assms(3)], where s = s]) (simp_all add: killed set_phase_def)
  then show ?thesis
    by (rule frame_ok [OF assms(3)])
       (auto simp: killed may_subscribe_def may_register_def set_phase_def)
next
  case (leave_begin s)
  show ?thesis
    by (rule frame_ok [OF assms(3)]; use acts_okD [OF world_okD(3) [OF assms(3)]] leave_begin in
        \<open>auto simp: acts_ok_def may_subscribe_def may_register_def world_steps\<close>)
next
  case (leave_dealer s)
  then show ?thesis by (simp add: leave_dealer_ok assms(2,3))
next
  case (leave_broker s)
  then show ?thesis by (simp add: leave_broker_ok assms(2,3))
next
  case (leave_end s draw)
  show ?thesis
    by (rule frame_ok [OF assms(3)]; use acts_okD [OF world_okD(3) [OF assms(3)]] leave_end in
        \<open>auto simp: acts_ok_def may_subscribe_def may_register_def world_steps\<close>)
next
  case close_kill
  then show ?thesis
    using assms(3)
    by (simp add: world_ok_def owners_ok_def acts_ok_def may_subscribe_def may_register_def world_steps)
next
  case close_poll
  then show ?thesis
    using assms(3) by (simp add: world_ok_def owners_ok_def acts_ok_def may_subscribe_def may_register_def)
next
  case close_acts
  then show ?thesis
    using assms(3) by (simp add: world_ok_def owners_ok_def acts_ok_def may_subscribe_def may_register_def)
qed

section \<open>Reachable worlds\<close>

definition default_stores :: "RealmConfig \<Rightarrow> bool" where
  "default_stores cfg \<longleftrightarrow> cfg_Broker cfg = None \<and> cfg_Dealer cfg = None"

lemma realm_ok_init: "default_stores cfg \<Longrightarrow> realm_ok (Realm_init cfg)"
  by (simp add: default_stores_def realm_ok_def Realm_init_def br_inv_New dl_inv_New)

lemma world_ok_init: "default_stores cfg \<Longrightarrow> world_ok (init_world cfg l)"
  using realm_ok_init [of cfg]
  by (simp add: world_ok_def owners_ok_def acts_ok_def init_world_def Realm_init_def default_stores_def
      br_live_New dl_live_New)

lemma world_ok_steps:
  "realm_steps e l w out w' \<Longrightarrow> map_order (env_ord e) \<Longrightarrow> world_ok w \<Longrightarrow> world_ok w'"
  by (induction rule: realm_steps.induct) (auto intro: world_ok_step)

lemma reachable_ok:
  "reachable e cfg l w \<Longrightarrow> map_order (env_ord e) \<Longrightarrow> default_stores cfg \<Longrightarrow> world_ok w"
  unfolding reachable_def using world_ok_steps world_ok_init by blast

lemma steps_one: "realm_step e l w out w' \<Longrightarrow> realm_steps e l w out w'"
  using realm_steps.step [OF realm_steps.refl, of e l w out w'] by simp

lemma steps_trans:
  "realm_steps e l w1 out2 w2 \<Longrightarrow> realm_steps e l w out1 w1 \<Longrightarrow> realm_steps e l w (out1 @ out2) w2"
  by (induction rule: realm_steps.induct) (auto simp flip: append_assoc intro: realm_steps.step)

lemma reachable_init: "reachable e cfg l (init_world cfg l)"
  unfolding reachable_def by (blast intro: realm_steps.refl)

lemma reachable_step: "reachable e cfg l w \<Longrightarrow> realm_step e l w out w' \<Longrightarrow> reachable e cfg l w'"
  unfolding reachable_def by (blast intro: realm_steps.step)

lemma reachable_induct [consumes 1, case_names init step]:
  assumes "reachable e cfg l w" and "P (init_world cfg l)"
    and "\<And>w out w'. reachable e cfg l w \<Longrightarrow> P w \<Longrightarrow> realm_step e l w out w' \<Longrightarrow> P w'"
  shows "P w"
proof -
  obtain out where "realm_steps e l (init_world cfg l) out w"
    using assms(1) by (auto simp: reachable_def)
  then have "reachable e cfg l w \<and> P w"
  proof (induction "init_world cfg l" out w rule: realm_steps.induct)
    case refl
    show ?case using reachable_init assms(2) by simp
  next
    case (step out w1 out1 w2)
    then show ?case using reachable_step assms(3) by blast
  qed
  then show ?thesis ..
qed

section \<open>The clients of a realm\<close>

text \<open>No two sessions that have been started have the same identifier.\<close>

definition distinct_ids :: "env \<Rightarrow> world \<Rightarrow> bool" where
  "distinct_ids e w \<longleftrightarrow> inj_on (\<lambda>s. Session_Id (env_heap e s)) {s. w_phase w s \<noteq> NotStarted}"

lemma distinct_idsD:
  "distinct_ids e w \<Longrightarrow> Session_Id (env_heap e s) = Session_Id (env_heap e s') \<Longrightarrow>
   w_phase w s \<noteq> NotStarted \<Longrightarrow> w_phase w s' \<noteq> NotStarted \<Longrightarrow> s = s'"
  by (simp add: distinct_ids_def inj_on_def)

lemma started_step:
  assumes "realm_step e l w out w'" "w_phase w s \<noteq> NotStarted"
  shows "w_phase w' s \<noteq> NotStarted"
  using assms(1)
proof cases
  case (message s draw msg)
  then show ?thesis using assms(2) by (auto simp: take_message_fields(7))
next
  case (local_message msg pipe draw)
  then show ?thesis using assms(2) by (auto simp: take_message_fields(7))
qed (use assms(2) in \<open>auto simp: world_steps\<close>)

lemma distinct_ids_step: "realm_step e l w out w' \<Longrightarrow> distinct_ids e w' \<Longrightarrow> distinct_ids e w"
  unfolding distinct_ids_def by (erule inj_on_subset) (auto dest: started_step)

lemma clients_okD:
  "clients_ok e w \<Longrightarrow> fmlookup (clients (w_realm w)) i = Some s \<longleftrightarrow>
     Session_Id (env_heap e s) = i \<and> w_phase w s \<in> {InJoin, Running, WantLeave}"
  unfolding clients_ok_def by blast

text \<open>A step that leaves \<open>clients\<close> alone and moves one session within, or outside, the joined phases.\<close>

lemma clients_ok_phase:
  assumes "clients_ok e w" and "clients (w_realm w') = clients (w_realm w)"
    and "w_phase w' = (w_phase w)(s := p)"
    and "p \<in> {InJoin, Running, WantLeave} \<longleftrightarrow> w_phase w s \<in> {InJoin, Running, WantLeave}"
  shows "clients_ok e w'"
  using assms(4) unfolding clients_ok_def assms(2,3) clients_okD [OF assms(1)] by auto

lemma clients_ok_same:
  "clients_ok e w \<Longrightarrow> clients (w_realm w') = clients (w_realm w) \<Longrightarrow> w_phase w' = w_phase w \<Longrightarrow>
   clients_ok e w'"
  by (simp add: clients_ok_def)

lemma clients_ok_join:
  assumes ok: "clients_ok e w" and ids: "distinct_ids e w" and ph: "w_phase w s \<noteq> NotStarted"
  shows "clients_ok e (join_begin e s w)"
proof -
  have "fmlookup (clients (w_realm (join_begin e s w))) i = Some s' \<longleftrightarrow>
      Session_Id (env_heap e s') = i \<and> w_phase (join_begin e s w) s' \<in> {InJoin, Running, WantLeave}" for i s'
    using clients_okD [OF ok, of i s'] distinct_idsD [OF ids, of s s'] ph
    by (cases "s' = s") (auto simp: world_steps)
  then show ?thesis unfolding clients_ok_def by blast
qed

lemma clients_ok_leave:
  assumes ok: "clients_ok e w" and ids: "distinct_ids e w" and ph: "w_phase w s \<noteq> NotStarted"
  shows "clients_ok e (leave_begin e s w)"
proof -
  have "fmlookup (clients (w_realm (leave_begin e s w))) i = Some s' \<longleftrightarrow>
      Session_Id (env_heap e s') = i \<and> w_phase (leave_begin e s w) s' \<in> {InJoin, Running, WantLeave}" for i s'
    using clients_okD [OF ok, of i s'] distinct_idsD [OF ids, of s s'] ph
    by (cases "s' = s") (auto simp: world_steps)
  then show ?thesis unfolding clients_ok_def by blast
qed

lemma clients_ok_take:
  assumes "clients_ok e w" "w_phase w s = Running" "take_message e draw s msg w = (w', out)"
  shows "clients_ok e w'"
  using take_message_fields [OF assms(3)]
  by (intro clients_ok_phase [OF assms(1), where s = s])
     (auto simp: handle_message_frame assms(2))

lemma clients_ok_step:
  assumes "realm_step e l w out w'" and ok: "clients_ok e w" and ids: "distinct_ids e w" and acts: "acts_ok w"
  shows "clients_ok e w'"
  using assms(1)
proof cases
  case (connect s)
  then show ?thesis
    by (intro clients_ok_phase [OF ok, where s = s and p = WantJoin]) (simp_all add: world_steps)
next
  case (join_begin s)
  then show ?thesis using ok ids by (simp add: clients_ok_join)
next
  case (join_end s draw)
  with acts_okD(1) [OF acts, of s] show ?thesis
    by (intro clients_ok_phase [OF ok, where s = s and p = Running]) (simp_all add: world_steps)
next
  case (message s draw msg)
  then show ?thesis using ok by (blast intro: clients_ok_take)
next
  case (local_message msg pipe draw)
  have "clients_ok e (w\<lparr>w_pipe := pipe\<rparr>)" by (rule clients_ok_same [OF ok]) simp_all
  then show ?thesis using local_message by (auto intro: clients_ok_take)
next
  case (local_send msg)
  then show ?thesis by (intro clients_ok_same [OF ok]) simp_all
next
  case (lost s)
  then show ?thesis
    by (intro clients_ok_phase [OF ok, where s = s and p = WantLeave]) (simp_all add: world_steps)
next
  case (killed s reason reasons)
  then show ?thesis
    by (intro clients_ok_phase [OF ok, where s = s and p = WantLeave]) (simp_all add: world_steps)
next
  case (leave_begin s)
  then show ?thesis using ok ids by (simp add: clients_ok_leave)
next
  case (leave_dealer s)
  then show ?thesis by (intro clients_ok_same [OF ok]) (simp_all add: world_steps)
next
  case (leave_broker s)
  then show ?thesis by (intro clients_ok_same [OF ok]) (simp_all add: world_steps)
next
  case (leave_end s draw)
  then show ?thesis by (intro clients_ok_same [OF ok]) (simp_all add: world_steps)
next
  case close_kill
  then show ?thesis by (intro clients_ok_same [OF ok]) (simp_all add: world_steps)
next
  case close_poll
  then show ?thesis by (intro clients_ok_same [OF ok]) simp_all
next
  case close_acts
  then show ?thesis by (intro clients_ok_same [OF ok]) simp_all
qed

lemma clients_ok_init: "clients_ok e (init_world cfg l)"
  by (simp add: clients_ok_def init_world_def Realm_init_def)

lemma reachable_clients_ok:
  assumes "reachable e cfg l w" and "map_order (env_ord e)" "default_stores cfg" "distinct_ids e w"
  shows "clients_ok e w"
  using assms(1,4)
proof (induction rule: reachable_induct)
  case init
  show ?case by (rule clients_ok_init)
next
  case (step w out w')
  have "acts_ok w" using reachable_ok [OF step(1) assms(2,3)] by (rule world_okD)
  moreover have "distinct_ids e w" using step.hyps(2) step.prems by (rule distinct_ids_step)
  ultimately show ?case using step clients_ok_step by blast
qed

end
