(* ===== verification/Realm_Props.thy ===== *)
theory Realm_Props
  imports Realm_Steps
begin

text \<open>
  What holds of every run of a realm (\<open>Realm_Steps\<close>): the invariants of broker, dealer and
  clients under any interleaving, what a session that has left still owns and receives, the
  meta events, and two ways in which closing a realm fails.
\<close>

section \<open>Runs of one session\<close>

definition plain_realm :: "Realm \<Rightarrow> bool" where
  "plain_realm r \<longleftrightarrow> Realm_Authorizer r = defaultAuthorizer_Authorize
     \<and> Realm_Interceptor r = defaultInterceptor_Intercept"

lemma handle_plain: "plain_realm r \<Longrightarrow> handle_message e draw s msg r = route_message e draw s msg r"
  by (simp add: plain_realm_def handle_message_def defaultAuthorizer_Authorize_def
      defaultInterceptor_Intercept_def)

lemma seen_fresh_plain: "plain_realm r \<Longrightarrow> seen_fresh e draw s msg r = draw_fresh draw msg r"
  by (simp add: plain_realm_def seen_fresh_def defaultInterceptor_Intercept_def)

text \<open>Two steps, then the rest: runs are built by chaining.\<close>

lemma steps_Cons:
  assumes "realm_step e l w out1 w1" and "realm_steps e l w1 out2 w2"
  shows "realm_steps e l w (out1 @ out2) w2"
  using steps_trans [OF assms(2) steps_one [OF assms(1)]] .

text \<open>A session joins and the local session takes the notification from the pipe.\<close>

definition joined :: "env \<Rightarrow> sess_ptr \<Rightarrow> world \<Rightarrow> world" where
  "joined e s w =
     w\<lparr>w_realm := (w_realm w)\<lparr>clients := fmupd (Session_Id (env_heap e s)) s (clients (w_realm w))\<rparr>,
       w_phase := (w_phase w)(s := Running)\<rparr>"

lemma joined_plain [simp]: "plain_realm (w_realm (joined e s w)) = plain_realm (w_realm w)"
  by (simp add: joined_def plain_realm_def)

lemma world_eqI:
  "w_realm w = w_realm w' \<Longrightarrow> w_act w = w_act w' \<Longrightarrow> w_phase w = w_phase w' \<Longrightarrow> w_kill w = w_kill w' \<Longrightarrow>
   w_pipe w = w_pipe w' \<Longrightarrow> w_closing w = w_closing w' \<Longrightarrow> w = (w' :: world)"
  by simp

lemma local_publish_step:
  assumes "plain_realm (w_realm w)" "w_phase w l = Running" "w_pipe w = [MPublish m]"
  shows "\<exists>out. realm_step e l w out (w\<lparr>w_pipe := []\<rparr>)"
proof -
  have "take_message e 0 l (MPublish m) (w\<lparr>w_pipe := []\<rparr>) =
      (w\<lparr>w_pipe := []\<rparr>, broker_Publish (env_ord e) 0 l m (Realm_Broker (w_realm w)))"
    using assms(1,2) by (simp add: take_message_def handle_plain set_phase_def fun_upd_idem)
  then have "realm_step e l w (broker_Publish (env_ord e) 0 l m (Realm_Broker (w_realm w))) (w\<lparr>w_pipe := []\<rparr>)"
    using assms by (intro realm_step.local_message) (simp_all add: seen_fresh_plain)
  then show ?thesis ..
qed

lemma join_run:
  assumes plain: "plain_realm (w_realm w)" and idle: "w_act w = Idle" and "acts_open w"
    and ph: "w_phase w s = WantJoin" and pipe: "w_pipe w = []" and l: "s = l \<or> w_phase w l = Running"
  shows "\<exists>out. realm_steps e l w out (joined e s w)"
proof -
  let ?w1 = "join_begin e s w"
  let ?w2 = "join_end e 0 s ?w1"
  have s1: "realm_step e l w [] ?w1"
    using assms by (intro realm_step.join_begin) simp_all
  have s2: "realm_step e l ?w1 [] ?w2"
    using pipe by (intro realm_step.join_end) (simp_all add: world_steps pipe_cap_def)
  have "\<exists>out. realm_step e l ?w2 out (?w2\<lparr>w_pipe := []\<rparr>)"
    using plain l pipe
    by (intro local_publish_step [where m = "case onJoin_msg 0 (Session_Details (env_heap e s)) of MPublish m \<Rightarrow> m"])
       (auto simp: world_steps plain_realm_def onJoin_msg_def client_Publish_msg_def)
  then obtain out where s3: "realm_step e l ?w2 out (?w2\<lparr>w_pipe := []\<rparr>)" ..
  have "?w2\<lparr>w_pipe := []\<rparr> = joined e s w"
    using idle pipe by (simp add: world_steps joined_def)
  with s3 have "realm_step e l ?w2 out (joined e s w)" by simp
  from steps_Cons [OF s1 steps_Cons [OF s2 steps_one [OF this]]] show ?thesis by blast
qed

lemma connect_join_run:
  assumes "plain_realm (w_realm w)" "w_act w = Idle" "acts_open w"
    and "w_phase w s = NotStarted" "w_pipe w = []" "w_phase w l = Running"
  shows "\<exists>out. realm_steps e l w out (joined e s w)"
proof -
  have s1: "realm_step e l w [] (set_phase s WantJoin w)"
    using assms(4) by (rule realm_step.connect)
  have "\<exists>out. realm_steps e l (set_phase s WantJoin w) out (joined e s (set_phase s WantJoin w))"
    by (rule join_run) (use assms in \<open>auto simp: set_phase_def\<close>)
  then obtain out where "realm_steps e l (set_phase s WantJoin w) out (joined e s (set_phase s WantJoin w))" ..
  moreover have "joined e s (set_phase s WantJoin w) = joined e s w"
    by (simp add: joined_def set_phase_def)
  ultimately show ?thesis using steps_Cons [OF s1] by metis
qed

text \<open>Any number of sessions join.\<close>

fun join_all :: "env \<Rightarrow> sess_ptr list \<Rightarrow> world \<Rightarrow> world" where
  "join_all e [] w = w"
| "join_all e (s # ss) w = join_all e ss (joined e s w)"

lemma join_all_fields:
  "w_act (join_all e ss w) = w_act w" "w_kill (join_all e ss w) = w_kill w"
  "w_pipe (join_all e ss w) = w_pipe w" "w_closing (join_all e ss w) = w_closing w"
  "w_phase (join_all e ss w) s = (if s \<in> set ss then Running else w_phase w s)"
  "plain_realm (w_realm (join_all e ss w)) = plain_realm (w_realm w)"
  by (induction ss arbitrary: w) (auto simp: joined_def plain_realm_def)

lemma join_all_run:
  assumes "plain_realm (w_realm w)" "w_act w = Idle" "acts_open w" "w_pipe w = []" "w_phase w l = Running"
    and "distinct ss" "\<And>s. s \<in> set ss \<Longrightarrow> w_phase w s = NotStarted"
  shows "\<exists>out. realm_steps e l w out (join_all e ss w)"
  using assms
proof (induction ss arbitrary: w)
  case Nil
  show ?case using realm_steps.refl by auto
next
  case (Cons s ss)
  obtain out1 where r1: "realm_steps e l w out1 (joined e s w)"
    using connect_join_run [of w s l e] Cons.prems by auto
  have "\<exists>out. realm_steps e l (joined e s w) out (join_all e ss (joined e s w))"
    by (rule Cons.IH) (use Cons.prems in \<open>auto simp: joined_def plain_realm_def\<close>)
  then show ?case using steps_trans [OF _ r1] by auto
qed

text \<open>A session leaves, and nobody takes the notification from the pipe.\<close>

definition left_clean :: "sess_ptr \<Rightarrow> world \<Rightarrow> world \<Rightarrow> bool" where
  "left_clean s w w' \<longleftrightarrow> w_act w' = Idle \<and> w_closing w' = w_closing w
     \<and> w_phase w' = (w_phase w)(s := Gone) \<and> w_kill w' = (w_kill w)(s := [])
     \<and> length (w_pipe w') = Suc (length (w_pipe w))"

text \<open>The run up to the point where \<open>onLeave\<close> writes into the pipe.\<close>

definition leaving :: "env \<Rightarrow> sess_ptr \<Rightarrow> world \<Rightarrow> world" where
  "leaving e s w = leave_broker e s (leave_dealer e s (leave_begin e s
     (set_phase s WantLeave (w\<lparr>w_kill := (w_kill w)(s := [])\<rparr>))))"

lemma leaving_fields:
  "w_act (leaving e s w) = LeavePublish s" "w_closing (leaving e s w) = w_closing w"
  "w_phase (leaving e s w) = (w_phase w)(s := Gone)" "w_kill (leaving e s w) = (w_kill w)(s := [])"
  "w_pipe (leaving e s w) = w_pipe w"
  by (simp_all add: leaving_def world_steps)

lemma kill_run:
  assumes idle: "w_act w = Idle" and "acts_open w" and "w_phase w s = Running"
    and "w_kill w s = [reason]"
  shows "\<exists>out. realm_steps e l w out (leaving e s w)"
proof -
  let ?w1 = "set_phase s WantLeave (w\<lparr>w_kill := (w_kill w)(s := [])\<rparr>)"
  let ?w2 = "leave_begin e s ?w1"
  let ?w3 = "leave_dealer e s ?w2"
  have s1: "realm_step e l w [(s, kill_message reason)] ?w1"
    using assms by (intro realm_step.killed) simp_all
  have s2: "realm_step e l ?w1 [] ?w2"
    using assms by (intro realm_step.leave_begin) (simp_all add: set_phase_def)
  have s3: "realm_step e l ?w2 [] ?w3"
    by (intro realm_step.leave_dealer) (simp add: world_steps)
  have s4: "realm_step e l ?w3 [] (leave_broker e s ?w3)"
    by (intro realm_step.leave_broker) (simp add: world_steps)
  from steps_Cons [OF s1 steps_Cons [OF s2 steps_Cons [OF s3 steps_one [OF s4]]]]
  show ?thesis by (auto simp: leaving_def)
qed

lemma leave_run:
  assumes "w_act w = Idle" "acts_open w" "w_phase w s = Running" "w_kill w s = [reason]"
    and room: "length (w_pipe w) < pipe_cap"
  shows "\<exists>out w'. realm_steps e l w out w' \<and> left_clean s w w'"
proof -
  obtain out where r: "realm_steps e l w out (leaving e s w)"
    using kill_run [OF assms(1-4)] by blast
  have "realm_step e l (leaving e s w) [] (leave_end e 0 s (leaving e s w))"
    using room by (intro realm_step.leave_end) (simp_all add: leaving_fields)
  from realm_steps.step [OF r this]
  have "realm_steps e l w out (leave_end e 0 s (leaving e s w))" by simp
  moreover have "left_clean s w (leave_end e 0 s (leaving e s w))"
    by (simp add: left_clean_def leave_end_def leaving_fields)
  ultimately show ?thesis by blast
qed

lemma leave_all_run:
  assumes "w_act w = Idle" "acts_open w" "distinct ss"
    and "\<And>s. s \<in> set ss \<Longrightarrow> w_phase w s = Running \<and> w_kill w s = [reason]"
    and "length (w_pipe w) + length ss \<le> pipe_cap"
  shows "\<exists>out w'. realm_steps e l w out w' \<and> w_act w' = Idle \<and> w_closing w' = w_closing w
    \<and> (\<forall>s. w_phase w' s = (if s \<in> set ss then Gone else w_phase w s))
    \<and> (\<forall>s. w_kill w' s = (if s \<in> set ss then [] else w_kill w s))
    \<and> length (w_pipe w') = length (w_pipe w) + length ss"
  using assms
proof (induction ss arbitrary: w)
  case Nil
  then show ?case using realm_steps.refl by fastforce
next
  case (Cons s ss)
  have "\<exists>out w'. realm_steps e l w out w' \<and> left_clean s w w'"
    by (rule leave_run [where reason = reason]) (use Cons.prems in auto)
  then obtain out1 w1 where r1: "realm_steps e l w out1 w1" and c: "left_clean s w w1" by blast
  have "\<exists>out w'. realm_steps e l w1 out w' \<and> w_act w' = Idle \<and> w_closing w' = w_closing w1
    \<and> (\<forall>s. w_phase w' s = (if s \<in> set ss then Gone else w_phase w1 s))
    \<and> (\<forall>s. w_kill w' s = (if s \<in> set ss then [] else w_kill w1 s))
    \<and> length (w_pipe w') = length (w_pipe w1) + length ss"
    by (rule Cons.IH) (use Cons.prems c in \<open>auto simp: left_clean_def\<close>)
  then obtain out2 w2 where r2: "realm_steps e l w1 out2 w2"
    and f: "w_act w2 = Idle" "w_closing w2 = w_closing w1"
      "\<forall>s. w_phase w2 s = (if s \<in> set ss then Gone else w_phase w1 s)"
      "\<forall>s. w_kill w2 s = (if s \<in> set ss then [] else w_kill w1 s)"
      "length (w_pipe w2) = length (w_pipe w1) + length ss" by blast
  show ?case
    using steps_trans [OF r2 r1] f c
    by (intro exI [of _ "out1 @ out2"] exI [of _ w2]) (simp add: left_clean_def)
qed

section \<open>A stuck realm\<close>

text \<open>
  \<open>run\<close> is blocked writing into a full pipe from which nobody reads any more.
\<close>

definition stuck :: "sess_ptr \<Rightarrow> world \<Rightarrow> bool" where
  "stuck l w \<longleftrightarrow> w_phase w l = Gone \<and> length (w_pipe w) = pipe_cap
     \<and> (\<exists>s. w_act w = JoinPublish s \<or> w_act w = LeavePublish s)"

lemma stuck_step:
  assumes "stuck l w" and "realm_step e l w out w'" and "w_closing w = Polling"
  shows "stuck l w' \<and> w_act w' = w_act w \<and> w_closing w' = Polling"
  using assms(2)
proof cases
  case (message s draw msg)
  then show ?thesis
    using assms(1,3) take_message_fields [OF message(4)] by (auto simp: stuck_def)
qed (use assms(1,3) in \<open>auto simp: stuck_def world_steps\<close>)

lemma stuck_steps:
  "realm_steps e l w out w' \<Longrightarrow> stuck l w \<Longrightarrow> w_closing w = Polling \<Longrightarrow>
   stuck l w' \<and> w_act w' = w_act w \<and> w_closing w' = Polling"
  by (induction rule: realm_steps.induct) (auto dest: stuck_step)

lemma realm_steps_reachable:
  "reachable e cfg l w \<Longrightarrow> realm_steps e l w out w' \<Longrightarrow> reachable e cfg l w'"
  unfolding reachable_def using steps_trans by blast

lemma plain_init:
  "cfg_Authorizer cfg = None \<Longrightarrow> cfg_Interceptor cfg = None \<Longrightarrow> plain_realm (w_realm (init_world cfg l))"
  by (simp add: plain_realm_def init_world_def Realm_init_def)

lemma clients_ran: "clients_ok e w \<Longrightarrow> w_phase w s = Running \<Longrightarrow> s \<in> fset (fmran (clients (w_realm w)))"
  using clients_okD [of e w "Session_Id (env_heap e s)" s] by (auto intro: fmranI)

text \<open>From the start to \<open>Close\<close>'s first act: the local session and the sessions \<open>ss\<close> have joined.\<close>

lemma closing_run:
  assumes cfg: "default_stores cfg" "cfg_Authorizer cfg = None" "cfg_Interceptor cfg = None"
    and env: "map_order (env_ord e)" "inj_on (\<lambda>s. Session_Id (env_heap e s)) (insert l (set ss))"
    and ss: "distinct ss" "l \<notin> set ss"
  shows "\<exists>w. reachable e cfg l w \<and> w_act w = Idle \<and> w_closing w = Polling \<and> w_pipe w = []
    \<and> (\<forall>s \<in> insert l (set ss). w_phase w s = Running \<and> w_kill w s = [ErrSystemShutdown])
    \<and> (\<forall>s. s \<notin> insert l (set ss) \<longrightarrow> w_phase w s = NotStarted)"
proof -
  let ?w0 = "init_world cfg l"
  note plain = plain_init [OF cfg(2,3), of l]
  obtain out1 where r1: "realm_steps e l ?w0 out1 (joined e l ?w0)"
    using join_run [OF plain, of l l e] by (auto simp: init_world_def)
  have "\<exists>out. realm_steps e l (joined e l ?w0) out (join_all e ss (joined e l ?w0))"
    by (rule join_all_run) (use plain ss in \<open>auto simp: joined_def init_world_def plain_realm_def\<close>)
  then obtain out2 where r2: "realm_steps e l (joined e l ?w0) out2 (join_all e ss (joined e l ?w0))" ..
  let ?w2 = "join_all e ss (joined e l ?w0)"
  have reach: "reachable e cfg l ?w2"
    using reachable_init r1 r2 by (blast intro: realm_steps_reachable)
  have f: "w_act ?w2 = Idle" "w_closing ?w2 = NotClosing" "w_pipe ?w2 = []" "w_kill ?w2 s = []"
    "w_phase ?w2 s = (if s \<in> insert l (set ss) then Running else NotStarted)" for s
    by (simp_all add: join_all_fields joined_def init_world_def)
  have s3: "realm_step e l ?w2 [] (close_kill ?w2)"
    by (rule realm_step.close_kill) (simp_all add: f(1,2,4))
  have "{s. w_phase ?w2 s \<noteq> NotStarted} = insert l (set ss)"
    using f(5) by (simp split: if_splits) blast
  then have "distinct_ids e ?w2" using env(2) by (simp add: distinct_ids_def)
  then have "clients_ok e ?w2"
    by (rule reachable_clients_ok [OF reach env(1) cfg(1)])
  then have ran: "s \<in> fset (fmran (clients (w_realm ?w2)))" if "s \<in> insert l (set ss)" for s
    by (rule clients_ran) (use that f(5) in simp)
  show ?thesis
    using reachable_step [OF reach s3] ran f
    by (intro exI [of _ "close_kill ?w2"]) (simp add: close_kill_def)
qed

section \<open>Properties of a realm's runs\<close>

text \<open>
  C15. Whatever sessions connect, send, break off or are killed, in whatever order their
  goroutines and the realm's run (identifiers free when drawn), the broker's maps agree, the
  dealer's maps agree and every pending call has its invocation; and if no two sessions have the
  same identifier, \<open>clients\<close> holds exactly the sessions that have joined and not left.
\<close>

theorem realm_reach_inv:
  assumes "reachable e cfg l w" and "default_stores cfg" and "map_order (env_ord e)"
    and "distinct_ids e w"
  shows "br_inv (Realm_Broker (w_realm w)) \<and> dl_inv (Realm_Dealer (w_realm w))
    \<and> (\<forall>i s. fmlookup (clients (w_realm w)) i = Some s \<longleftrightarrow>
         Session_Id (env_heap e s) = i \<and> w_phase w s \<in> {InJoin, Running, WantLeave})"
  using world_okD(1) [OF reachable_ok [OF assms(1,3,2)]] reachable_clients_ok [OF assms(1,3,2,4)]
  by (simp add: realm_ok_def clients_ok_def)

text \<open>For the witnesses: the ticket realm after its local session (session 0) has joined.\<close>

definition demo_world :: world where
  "demo_world = join_end demo_env 3 0 (join_begin demo_env 0 (init_world ticket_config 0))"

lemma demo_env_simps [simp]:
  "map_order (env_ord demo_env)" "Session_Id (env_heap demo_env s) = of_nat s"
  by (simp_all add: demo_env_def)

lemma default_ticket [simp]: "default_stores ticket_config"
  by (simp add: default_stores_def ticket_config_def)

lemma demo_world_reachable: "reachable demo_env ticket_config 0 demo_world"
proof -
  have "realm_step demo_env 0 (init_world ticket_config 0) [] (join_begin demo_env 0 (init_world ticket_config 0))"
    by (rule realm_step.join_begin) (simp_all add: init_world_def)
  moreover have "realm_step demo_env 0 (join_begin demo_env 0 (init_world ticket_config 0)) [] demo_world"
    unfolding demo_world_def
    by (rule realm_step.join_end) (simp_all add: init_world_def world_steps pipe_cap_def)
  ultimately show ?thesis by (blast intro: reachable_init reachable_step)
qed

lemma demo_world_phase: "w_phase demo_world s = (if s = 0 then Running else NotStarted)"
  by (simp add: demo_world_def world_steps init_world_def)

theorem realm_reach_inv_witness:
  "fmlookup (clients (w_realm demo_world)) 0 = Some 0 \<and> fmlookup (clients (w_realm demo_world)) 1 = None"
proof -
  have "distinct_ids demo_env demo_world"
    by (simp add: distinct_ids_def demo_world_phase inj_on_def)
  from realm_reach_inv [OF demo_world_reachable default_ticket demo_env_simps(1) this]
  have c: "fmlookup (clients (w_realm demo_world)) i = Some s \<longleftrightarrow> of_nat s = i \<and> s = 0" for i s
    by (auto simp: demo_world_phase)
  have "fmlookup (clients (w_realm demo_world)) 1 \<noteq> Some s" for s
    by (simp only: c) (cases s, simp_all)
  moreover have "fmlookup (clients (w_realm demo_world)) 0 = Some 0"
    by (simp only: c) simp
  ultimately show ?thesis by (meson not_None_eq)
qed

text \<open>
  A session owns nothing outside its life: before it has joined, and once the realm's act for
  its departure is past \<open>Dealer.RemoveSession\<close> and \<open>Broker.RemoveSession\<close>, no subscription and
  no registration of the realm belongs to it.
\<close>

theorem departed_session_owns_nothing:
  assumes "reachable e cfg l w" and "default_stores cfg" and "map_order (env_ord e)"
    and "w_phase w s \<notin> {Running, WantLeave}" and "w_act w \<notin> {LeaveDealer s, LeaveBroker s}"
  shows "br_live (Realm_Broker (w_realm w)) i \<noteq> Some (t, s)
    \<and> dl_live (Realm_Dealer (w_realm w)) j \<noteq> Some (u, s)"
  using owners_okD [OF world_okD(2) [OF reachable_ok [OF assms(1,3,2)]]] assms(4,5)
  unfolding may_subscribe_def may_register_def by blast

theorem departed_session_owns_nothing_witness:
  "br_live (Realm_Broker (w_realm demo_world)) 7 \<noteq> Some (''a'', 5)"
  using departed_session_owns_nothing [OF demo_world_reachable default_ticket demo_env_simps(1), of 5]
  by (simp add: demo_world_phase) (simp add: demo_world_def world_steps)


text \<open>For the witness: session 1 joins too and subscribes to \<open>a\<close> as subscription 7.\<close>

definition demo_world1 :: world where
  "demo_world1 = join_end demo_env 3 1 (join_begin demo_env 1 (set_phase 1 WantJoin demo_world))"

definition demo_world2 :: world where
  "demo_world2 = fst (take_message demo_env 7 1 (MSubscribe (subscribe_msg ''a'')) demo_world1)"

lemma plain_demo [simp]: "plain_realm (w_realm demo_world1)"
  by (simp add: demo_world1_def demo_world_def world_steps init_world_def plain_realm_def
      Realm_init_def ticket_config_def)

lemma demo_world1_fields:
  "w_phase demo_world1 1 = Running" "Realm_Broker (w_realm demo_world1) = NewDefaultBroker"
  by (simp_all add: demo_world1_def demo_world_def world_steps init_world_def Realm_init_def ticket_config_def)

lemma demo_world1_reachable: "reachable demo_env ticket_config 0 demo_world1"
proof -
  let ?w1 = "set_phase 1 WantJoin demo_world"
  have "realm_step demo_env 0 demo_world [] ?w1"
    by (rule realm_step.connect) (simp add: demo_world_phase)
  moreover have "realm_step demo_env 0 ?w1 [] (join_begin demo_env 1 ?w1)"
    by (rule realm_step.join_begin) (simp_all add: demo_world_def world_steps init_world_def)
  moreover have "realm_step demo_env 0 (join_begin demo_env 1 ?w1) [] demo_world1"
    unfolding demo_world1_def
    by (rule realm_step.join_end) (simp_all add: demo_world_def world_steps init_world_def pipe_cap_def)
  ultimately show ?thesis using demo_world_reachable by (blast intro: reachable_step)
qed

lemma demo_world2_fields:
  "w_phase demo_world2 1 = Running" "Realm_Broker (w_realm demo_world2) = demo_broker"
  "plain_realm (w_realm demo_world2)"
  using plain_demo demo_world1_fields
  by (simp_all add: demo_world2_def take_message_def handle_plain set_phase_def case_prod_beta Let_def
      demo_broker_def plain_realm_def handle_message_def defaultAuthorizer_Authorize_def
      defaultInterceptor_Intercept_def)

lemma demo_world2_reachable: "reachable demo_env ticket_config 0 demo_world2"
proof -
  have "realm_step demo_env 0 demo_world1
      (snd (take_message demo_env 7 1 (MSubscribe (subscribe_msg ''a'')) demo_world1)) demo_world2"
    by (rule realm_step.message [where s = 1 and draw = 7 and msg = "MSubscribe (subscribe_msg ''a'')"])
       (simp_all add: demo_world1_fields seen_fresh_plain demo_world2_def del: One_nat_def)
  then show ?thesis using demo_world1_reachable by (blast intro: reachable_step)
qed

definition demo_self_publish :: Publish where
  "demo_self_publish = demo_publish\<lparr>Publish_Options := Some (fmupd ''exclude_me'' (VBool False) fmempty)\<rparr>"

lemma demo_self_publish_step:
  "\<exists>out w. realm_step demo_env 0 demo_world2 out w
     \<and> (1, MEvent ((event_template (NewID 9) demo_self_publish)\<lparr>Event_Subscription := 7\<rparr>)) \<in> set out"
proof -
  let ?out = "snd (take_message demo_env 9 1 (MPublish demo_self_publish) demo_world2)"
  have "realm_step demo_env 0 demo_world2 ?out
      (fst (take_message demo_env 9 1 (MPublish demo_self_publish) demo_world2))"
    by (rule realm_step.message [where s = 1 and draw = 9 and msg = "MPublish demo_self_publish"])
       (simp_all add: demo_world2_fields seen_fresh_plain del: One_nat_def)
  moreover have "(1, MEvent ((event_template (NewID 9) demo_self_publish)\<lparr>Event_Subscription := 7\<rparr>)) \<in> set ?out"
    using publish_events [OF br_invD(1) [OF demo_broker_inv] demo_env_simps(1)]
    by (simp add: take_message_def handle_plain demo_world2_fields case_prod_beta Let_def broker_Publish_def
        demo_self_publish_def demo_publish_def exclude_publisher_def)
  ultimately show ?thesis by blast
qed


text \<open>
  A session that joins is announced: the PUBLISH that \<open>onJoin\<close> puts into the local pipe, when
  the local session takes it on a realm with the default authorizer and interceptor, sends to every
  other subscriber of \<open>wamp.session.on_join\<close> an EVENT whose one argument is the details of the new
  session; likewise \<open>onLeave\<close> with the identifier on \<open>wamp.session.on_leave\<close>.
\<close>

theorem meta_events_delivered:
  assumes "plain_realm r" and "realm_ok r" and "map_order (env_ord e)" and "s \<noteq> l"
    and "br_live (Realm_Broker r) i = Some (''wamp.session.on_join'', s)"
    and "br_live (Realm_Broker r) j = Some (''wamp.session.on_leave'', s)"
  shows "(\<exists>ev. (s, MEvent ev) \<in> set (fst (snd (handle_message e draw l (onJoin_msg d details) r)))
           \<and> Event_Subscription ev = i \<and> Event_Arguments ev = Some [VDict details])
    \<and> (\<exists>ev. (s, MEvent ev) \<in> set (fst (snd (handle_message e draw l (onLeave_msg d sid) r)))
           \<and> Event_Subscription ev = j \<and> Event_Arguments ev = Some [VID sid])"
proof -
  have b: "br_routes_ok (Realm_Broker r)" using assms(2) by (simp add: realm_ok_def br_inv_def)
  have deliver: "(s, MEvent ((event_template (NewID draw) m)\<lparr>Event_Subscription := k\<rparr>))
      \<in> set (fst (snd (handle_message e draw l (MPublish m) r)))"
    if "br_live (Realm_Broker r) k = Some (Publish_Topic m, s)" for k m
    using that assms(4) publish_events [OF b assms(3)]
    by (auto simp: handle_plain [OF assms(1)] broker_Publish_def Let_def)
  show ?thesis
    using deliver [of i "case onJoin_msg d details of MPublish m \<Rightarrow> m"] assms(5)
      deliver [of j "case onLeave_msg d sid of MPublish m \<Rightarrow> m"] assms(6)
    by (auto simp: onJoin_msg_def onLeave_msg_def client_Publish_msg_def event_template_def
        simp del: set_append intro!: exI)
qed

definition meta_broker :: defaultBroker where
  "meta_broker = fst (broker_Subscribe 8 1 (subscribe_msg ''wamp.session.on_leave'')
     (fst (broker_Subscribe 7 1 (subscribe_msg ''wamp.session.on_join'') NewDefaultBroker)))"

theorem meta_events_delivered_witness:
  "\<exists>ev. (1, MEvent ev) \<in> set (fst (snd (handle_message demo_env 9 0 (onLeave_msg 3 4)
        ((Realm_init ticket_config)\<lparr>Realm_Broker := meta_broker\<rparr>))))
     \<and> Event_Subscription ev = 8 \<and> Event_Arguments ev = Some [VID 4]"
proof -
  let ?b = "fst (broker_Subscribe 7 1 (subscribe_msg ''wamp.session.on_join'') NewDefaultBroker)"
  have b: "br_inv ?b" by (rule br_inv_Subscribe [OF br_inv_New]) simp
  have f: "br_fresh ?b (NewID 8)"
    by (simp add: br_fresh_def broker_Subscribe_maps NewDefaultBroker_def NewID_id)
  have inv: "br_inv meta_broker"
    unfolding meta_broker_def using b f by (rule br_inv_Subscribe)
  have live: "br_live meta_broker 7 = Some (''wamp.session.on_join'', 1)"
    "br_live meta_broker 8 = Some (''wamp.session.on_leave'', 1)"
    unfolding meta_broker_def br_live_Subscribe [OF b f] br_live_Subscribe [OF br_inv_New br_fresh_New]
    by (simp_all add: NewID_id subscribe_msg_def)
  let ?r = "(Realm_init ticket_config)\<lparr>Realm_Broker := meta_broker\<rparr>"
  have "plain_realm ?r" "realm_ok ?r"
    using inv by (simp_all add: plain_realm_def realm_ok_def Realm_init_def ticket_config_def dl_inv_New)
  from meta_events_delivered [OF this demo_env_simps(1), where s = 1 and l = 0 and i = 7 and j = 8
      and draw = 9 and d = 3 and sid = 4 and details = None] live
  show ?thesis by simp
qed

text \<open>
  C40. Closing a realm can block for ever.  On a realm with the default authorizer and interceptor
  and ten sessions beside its own local one, there is a run from the start in which \<open>Close\<close> has
  told every session to leave, the local session leaves first, nine others and then the tenth
  follow, and \<open>run\<close> blocks writing the eleventh \<open>on_leave\<close> into the pipe of the local session,
  which nobody reads: from then on, whatever else happens, no act is ever finished, so no session
  joins or leaves and \<open>Close\<close> never returns.
\<close>

theorem close_can_deadlock:
  assumes cfg: "default_stores cfg" "cfg_Authorizer cfg = None" "cfg_Interceptor cfg = None"
    and env: "map_order (env_ord e)" "inj_on (\<lambda>s. Session_Id (env_heap e s)) (insert l (set ss))"
    and ss: "distinct ss" "l \<notin> set ss" "length ss = 10"
  shows "\<exists>w s. reachable e cfg l w \<and> w_act w = LeavePublish s \<and> w_closing w = Polling
    \<and> (\<forall>out w'. realm_steps e l w out w' \<longrightarrow> w_act w' = LeavePublish s \<and> w_closing w' = Polling)"
proof -
  obtain w where reach: "reachable e cfg l w" and w: "w_act w = Idle" "w_closing w = Polling" "w_pipe w = []"
      "\<forall>s \<in> insert l (set ss). w_phase w s = Running \<and> w_kill w s = [ErrSystemShutdown]"
    using closing_run [OF cfg env ss(1,2)] by blast
  obtain s0 rest where ss_eq: "ss = s0 # rest" "length rest = 9"
    using ss(3) by (cases ss) auto
  have "\<exists>out w'. realm_steps e l w out w' \<and> w_act w' = Idle \<and> w_closing w' = w_closing w
    \<and> (\<forall>s. w_phase w' s = (if s \<in> set (l # rest) then Gone else w_phase w s))
    \<and> (\<forall>s. w_kill w' s = (if s \<in> set (l # rest) then [] else w_kill w s))
    \<and> length (w_pipe w') = length (w_pipe w) + length (l # rest)"
    by (rule leave_all_run [where reason = ErrSystemShutdown])
       (use w ss ss_eq in \<open>auto simp: pipe_cap_def\<close>)
  then obtain out w1 where r1: "realm_steps e l w out w1"
    and w1: "w_act w1 = Idle" "w_closing w1 = w_closing w" "w_phase w1 l = Gone"
      "w_phase w1 s0 = Running" "w_kill w1 s0 = [ErrSystemShutdown]" "length (w_pipe w1) = 10"
    using w ss ss_eq by fastforce
  obtain out2 where r2: "realm_steps e l w1 out2 (leaving e s0 w1)"
    using kill_run [OF w1(1) _ w1(4,5), of e l] w1(2) w(2) by auto
  have "stuck l (leaving e s0 w1)" "w_closing (leaving e s0 w1) = Polling"
    using w1 w(2) ss ss_eq by (auto simp: stuck_def leaving_fields pipe_cap_def)
  then show ?thesis
    using reach r1 r2 stuck_steps leaving_fields(1) by (metis realm_steps_reachable)
qed

theorem close_can_deadlock_witness:
  "\<exists>w s. reachable demo_env (ticket_config\<lparr>cfg_CRAuthenticators := fmempty\<rparr>) 0 w
     \<and> w_act w = LeavePublish s \<and> w_closing w = Polling"
proof -
  have "inj_on (\<lambda>s. Session_Id (env_heap demo_env s)) (insert 0 (set [1..<11]))"
    by (auto simp: inj_on_def word_of_nat_eq_iff take_bit_nat_eq_self)
  then show ?thesis
    using close_can_deadlock [of "ticket_config\<lparr>cfg_CRAuthenticators := fmempty\<rparr>" demo_env 0 "[1..<11]"]
    by (auto simp: default_stores_def ticket_config_def)
qed

text \<open>
  \<open>Close\<close> does not wait for sessions that connect while it runs: there is a run from the start
  in which every client has left, \<open>Close\<close> has seen no clients and closed the channel \<open>acts\<close>, and a
  session that was accepted meanwhile is about to send its join act on the closed channel, which
  in Go is a panic.
\<close>

theorem close_races_with_join:
  assumes cfg: "default_stores cfg" "cfg_Authorizer cfg = None" "cfg_Interceptor cfg = None"
    and ord: "map_order (env_ord e)" and s: "s \<noteq> l"
  shows "\<exists>w. reachable e cfg l w \<and> w_closing w = Closed \<and> w_phase w s = WantJoin"
proof -
  have "inj_on (\<lambda>s. Session_Id (env_heap e s)) (insert l (set []))" by simp
  from closing_run [OF cfg ord this] obtain w where reach: "reachable e cfg l w"
    and w: "w_act w = Idle" "w_closing w = Polling" "w_pipe w = []" "w_phase w l = Running"
      "w_kill w l = [ErrSystemShutdown]" "w_phase w s = NotStarted" "\<forall>s. s \<noteq> l \<longrightarrow> w_phase w s = NotStarted"
    using s by auto
  obtain out w1 where r1: "realm_steps e l w out w1" and c: "left_clean l w w1"
    using leave_run [OF w(1) _ w(4,5), of e l] w(2,3) by (auto simp: pipe_cap_def)
  have reach1: "reachable e cfg l w1" using reach r1 by (rule realm_steps_reachable)
  have ph: "w_phase w1 s' \<in> {Gone, NotStarted}" for s'
    using c w(7) by (auto simp: left_clean_def)
  have "distinct_ids e w1"
    using c w(7) by (auto simp: distinct_ids_def left_clean_def inj_on_def)
  then have "clients (w_realm w1) = fmempty"
    using clients_okD [OF reachable_clients_ok [OF reach1 ord cfg(1)]] ph
    by (intro fmap_ext) (metis fmempty_lookup insertE not_None_eq phase.distinct singletonD)
  then have s1: "realm_step e l w1 [] (w1\<lparr>w_closing := Drained\<rparr>)"
    using c w(2) by (intro realm_step.close_poll) (simp_all add: left_clean_def)
  have s2: "realm_step e l (w1\<lparr>w_closing := Drained\<rparr>) [] (w1\<lparr>w_closing := Closed\<rparr>)"
    using realm_step.close_acts [of "w1\<lparr>w_closing := Drained\<rparr>"] by simp
  have s3: "realm_step e l (w1\<lparr>w_closing := Closed\<rparr>) [] (set_phase s WantJoin (w1\<lparr>w_closing := Closed\<rparr>))"
    using c w(6) s by (intro realm_step.connect) (simp add: left_clean_def)
  have "reachable e cfg l (set_phase s WantJoin (w1\<lparr>w_closing := Closed\<rparr>))"
    using reach1 s1 s2 s3 by (blast intro: reachable_step)
  then show ?thesis
    by (intro exI [of _ "set_phase s WantJoin (w1\<lparr>w_closing := Closed\<rparr>)"]) (simp add: set_phase_def)
qed

theorem close_races_with_join_witness:
  "\<exists>w. reachable demo_env (ticket_config\<lparr>cfg_CRAuthenticators := fmempty\<rparr>) 0 w
     \<and> w_closing w = Closed \<and> w_phase w 5 = WantJoin"
  by (rule close_races_with_join) (simp_all add: default_stores_def ticket_config_def)

end
