(* ===== verification/Simulation.thy ===== *)
theory Simulation
  imports Go_Prelude
begin

text \<open>
  Runs of a labelled system, and the interface under which one system implements another: a
  functional abstraction of the states under which every step of the implementation, from a state
  satisfying its invariant, is a step of the specification with the same label and the same output.
  It is proved once that runs are then related too; broker, dealer and realm each provide the
  interface (\<open>Broker_Spec\<close>, \<open>Dealer_Spec\<close>, \<open>Realm_Spec\<close>).
\<close>

inductive runs ::
  "('s \<Rightarrow> 'l \<Rightarrow> 's \<Rightarrow> 'out \<Rightarrow> bool) \<Rightarrow> 's \<Rightarrow> 'l list \<Rightarrow> 's \<Rightarrow> 'out list \<Rightarrow> bool"
  for step :: "'s \<Rightarrow> 'l \<Rightarrow> 's \<Rightarrow> 'out \<Rightarrow> bool" where
  stop: "runs step s [] s []"
| go: "step s l s' out \<Longrightarrow> runs step s' ls s'' outs \<Longrightarrow> runs step s (l # ls) s'' (out # outs)"

inductive_cases runs_NilE: "runs step s [] s' outs"
inductive_cases runs_ConsE: "runs step s (l # ls) s' outs"

lemma runs_length: "runs step s ls s' outs \<Longrightarrow> length outs = length ls"
  by (induction rule: runs.induct) simp_all

lemma runs_snoc:
  "runs step s ls s' outs \<Longrightarrow> step s' l s'' out \<Longrightarrow> runs step s (ls @ [l]) s'' (outs @ [out])"
  by (induction rule: runs.induct) (auto intro: runs.intros)

lemma runs_append:
  "runs step s ls s' outs \<Longrightarrow> runs step s' ls' s'' outs' \<Longrightarrow> runs step s (ls @ ls') s'' (outs @ outs')"
  by (induction rule: runs.induct) (auto intro: runs.intros)

text \<open>Induction over a run from its beginning, one step at its end.\<close>

lemma runs_from:
  assumes "runs step s ls s' outs" and "runs step s0 ls0 s outs0" and "P ls0 s outs0"
    and "\<And>ls s1 outs l s2 out. runs step s0 ls s1 outs \<Longrightarrow> P ls s1 outs \<Longrightarrow> step s1 l s2 out \<Longrightarrow>
      P (ls @ [l]) s2 (outs @ [out])"
  shows "P (ls0 @ ls) s' (outs0 @ outs)"
  using assms(1-3)
proof (induction arbitrary: ls0 outs0 rule: runs.induct)
  case (go s l s' out ls s'' outs)
  from go.IH [OF runs_snoc [OF go.prems(1) go.hyps(1)] assms(4) [OF go.prems go.hyps(1)]] show ?case by simp
qed simp

lemma runs_rev_induct [consumes 1, case_names stop snoc]:
  assumes "runs step s ls s' outs" and "P [] s []"
    and "\<And>ls s1 outs l s2 out. runs step s ls s1 outs \<Longrightarrow> P ls s1 outs \<Longrightarrow> step s1 l s2 out \<Longrightarrow>
      P (ls @ [l]) s2 (outs @ [out])"
  shows "P ls s' outs"
  using runs_from [OF assms(1) runs.stop, where P = P, OF assms(2,3)] by simp

locale simulation =
  fixes inv :: "'s \<Rightarrow> bool"
    and abs :: "'s \<Rightarrow> 'a"
    and cstep :: "'s \<Rightarrow> 'l \<Rightarrow> 's \<Rightarrow> 'out \<Rightarrow> bool"
    and astep :: "'a \<Rightarrow> 'l \<Rightarrow> 'a \<Rightarrow> 'out \<Rightarrow> bool"
  assumes inv_step: "inv s \<Longrightarrow> cstep s l s' out \<Longrightarrow> inv s'"
    and sim_step: "inv s \<Longrightarrow> cstep s l s' out \<Longrightarrow> astep (abs s) l (abs s') out"
begin

lemma inv_runs: "runs cstep s ls s' outs \<Longrightarrow> inv s \<Longrightarrow> inv s'"
  by (induction rule: runs.induct) (auto dest: inv_step)

lemma sim_runs: "runs cstep s ls s' outs \<Longrightarrow> inv s \<Longrightarrow> runs astep (abs s) ls (abs s') outs"
  by (induction rule: runs.induct) (auto intro: runs.intros dest: inv_step sim_step)

end

text \<open>
  A specification that leaves open only what a relation \<open>same\<close> on outputs identifies determines the
  final state and, up to \<open>same\<close>, the outputs.
\<close>

locale determined =
  fixes astep :: "'a \<Rightarrow> 'l \<Rightarrow> 'a \<Rightarrow> 'out \<Rightarrow> bool"
    and same :: "'out \<Rightarrow> 'out \<Rightarrow> bool"
  assumes state_determined: "astep a l a1 out1 \<Longrightarrow> astep a l a2 out2 \<Longrightarrow> a1 = a2"
    and out_determined: "astep a l a1 out1 \<Longrightarrow> astep a l a2 out2 \<Longrightarrow> same out1 out2"
begin

lemma runs_determined:
  "runs astep a ls a1 outs1 \<Longrightarrow> runs astep a ls a2 outs2 \<Longrightarrow> a1 = a2 \<and> list_all2 same outs1 outs2"
proof (induction arbitrary: a2 outs2 rule: runs.induct)
  case (stop a)
  then show ?case by (auto elim: runs_NilE)
next
  case (go a l a' out ls a'' outs)
  from go.prems show ?case
  proof (rule runs_ConsE)
    fix b out2 outs2'
    assume h: "outs2 = out2 # outs2'" "astep a l b out2" "runs astep b ls a2 outs2'"
    have "a' = b" by (rule state_determined [OF go.hyps(1) h(2)])
    with go.IH h(3) have "a'' = a2 \<and> list_all2 same outs outs2'" by simp
    moreover have "same out out2" by (rule out_determined [OF go.hyps(1) h(2)])
    ultimately show ?thesis using h(1) by simp
  qed
qed

end

end
