(* ===== verification/Broker_Spec.thy ===== *)
theory Broker_Spec
  imports Broker Simulation "HOL-Library.Multiset"
begin

text \<open>
  What a WAMP broker promises, without its maps: the state is the table of live subscriptions
  (identifier to topic and subscriber), and \<open>pubsub_step\<close> says which messages each operation sends
  and how it changes the table, leaving open only the order in which subscribers are served.  The
  three-map broker of \<^verbatim>\<open>broker.go\<close> implements it, for every operation, whatever order its maps
  are iterated in, a different one each time.
\<close>

datatype broker_op =
    BPublish "64 word" sess_ptr Publish
  | BSubscribe "64 word" sess_ptr Subscribe
  | BUnsubscribe sess_ptr Unsubscribe
  | BRemove sess_ptr

section \<open>The specification\<close>

type_synonym pubsub = "ID \<Rightarrow> (URI \<times> sess_ptr) option"

definition without_session :: "sess_ptr \<Rightarrow> (ID \<Rightarrow> (URI \<times> sess_ptr) option) \<Rightarrow> ID \<Rightarrow> (URI \<times> sess_ptr) option" where
  "without_session s tab i =
     (case tab i of None \<Rightarrow> None | Some (u, s') \<Rightarrow> if s' = s then None else Some (u, s'))"

definition event_sends :: "pubsub \<Rightarrow> ID \<Rightarrow> sess_ptr \<Rightarrow> Publish \<Rightarrow> (sess_ptr \<times> message) set" where
  "event_sends tab pubID pub msg =
     {(s, MEvent ((event_template pubID msg)\<lparr>Event_Subscription := i\<rparr>)) | i s.
        tab i = Some (Publish_Topic msg, s) \<and> \<not> (s = pub \<and> exclude_publisher msg)}"

definition acknowledgement :: "ID \<Rightarrow> sess_ptr \<Rightarrow> Publish \<Rightarrow> sends" where
  "acknowledgement pubID pub msg =
     (if dict_bool (Publish_Options msg) ''acknowledge'' = Some True
      then [(pub, MPublished \<lparr>Published_Request = Publish_Request msg, Published_Publication = pubID\<rparr>)]
      else [])"

definition unsubscribe_error :: "Unsubscribe \<Rightarrow> message" where
  "unsubscribe_error msg = MError \<lparr>Error_Type = UNSUBSCRIBE, Error_Request = Unsubscribe_Request msg,
     Error_Details = None, Error_Error = ErrNoSuchSubscription, Error_Arguments = None,
     Error_ArgumentsKw = None\<rparr>"

inductive pubsub_step :: "pubsub \<Rightarrow> broker_op \<Rightarrow> pubsub \<Rightarrow> sends \<Rightarrow> bool" where
  publish: "distinct evs \<Longrightarrow> set evs = event_sends tab (NewID draw) pub msg \<Longrightarrow>
    out = evs @ acknowledgement (NewID draw) pub msg \<Longrightarrow>
    pubsub_step tab (BPublish draw pub msg) tab out"
| subscribe: "tab (NewID draw) = None \<Longrightarrow>
    pubsub_step tab (BSubscribe draw s msg) (tab(NewID draw \<mapsto> (Subscribe_Topic msg, s)))
      [(s, MSubscribed \<lparr>Subscribed_Request = Subscribe_Request msg, Subscribed_Subscription = NewID draw\<rparr>)]"
| unsubscribe: "tab (Unsubscribe_Subscription msg) \<noteq> None \<Longrightarrow>
    pubsub_step tab (BUnsubscribe s msg) (tab(Unsubscribe_Subscription msg := None))
      [(s, MUnsubscribed \<lparr>Unsubscribed_Request = Unsubscribe_Request msg\<rparr>)]"
| unsubscribe_unknown: "tab (Unsubscribe_Subscription msg) = None \<Longrightarrow>
    pubsub_step tab (BUnsubscribe s msg) tab [(s, unsubscribe_error msg)]"
| remove: "pubsub_step tab (BRemove s) (without_session s tab) []"

inductive_cases pubsub_publishE: "pubsub_step tab (BPublish draw pub msg) tab' out"
inductive_cases pubsub_subscribeE: "pubsub_step tab (BSubscribe draw s msg) tab' out"
inductive_cases pubsub_unsubscribeE: "pubsub_step tab (BUnsubscribe s msg) tab' out"
inductive_cases pubsub_removeE: "pubsub_step tab (BRemove s) tab' out"

lemmas pubsub_stepE = pubsub_publishE pubsub_subscribeE pubsub_unsubscribeE pubsub_removeE

lemma pubsub_state_determined:
  "pubsub_step tab oper tab1 out1 \<Longrightarrow> pubsub_step tab oper tab2 out2 \<Longrightarrow> tab1 = tab2"
  by (cases oper) (auto elim!: pubsub_stepE)

lemma pubsub_out_determined:
  "pubsub_step tab oper tab1 out1 \<Longrightarrow> pubsub_step tab oper tab2 out2 \<Longrightarrow> mset out1 = mset out2"
  by (cases oper) (auto elim!: pubsub_stepE iff: set_eq_iff_mset_eq_distinct [symmetric])

interpretation pubsub: determined pubsub_step "\<lambda>out1 out2. mset out1 = mset out2"
  by unfold_locales (rule pubsub_state_determined pubsub_out_determined; assumption)+

section \<open>The broker implements it\<close>

text \<open>A step of the broker: any iteration order, and a subscription identifier that is not in use.\<close>

fun broker_exec ::
  "(ID fset \<Rightarrow> ID list) \<Rightarrow> broker_op \<Rightarrow> defaultBroker \<Rightarrow> defaultBroker \<times> sends" where
  "broker_exec ord (BPublish draw s m) br = (br, broker_Publish ord draw s m br)"
| "broker_exec ord (BSubscribe draw s m) br = broker_Subscribe draw s m br"
| "broker_exec ord (BUnsubscribe s m) br = broker_Unsubscribe s m br"
| "broker_exec ord (BRemove s) br = (broker_RemoveSession ord s br, [])"

fun broker_op_fresh :: "defaultBroker \<Rightarrow> broker_op \<Rightarrow> bool" where
  "broker_op_fresh br (BSubscribe draw s m) = br_fresh br (NewID draw)"
| "broker_op_fresh br _ = True"

definition broker_step :: "defaultBroker \<Rightarrow> broker_op \<Rightarrow> defaultBroker \<Rightarrow> sends \<Rightarrow> bool" where
  "broker_step br oper br' out \<longleftrightarrow>
     (\<exists>ord. map_order ord \<and> broker_op_fresh br oper \<and> broker_exec ord oper br = (br', out))"

lemma Subscribe_out: "snd (broker_Subscribe draw s m br) =
    [(s, MSubscribed \<lparr>Subscribed_Request = Subscribe_Request m, Subscribed_Subscription = NewID draw\<rparr>)]"
  by (simp add: broker_Subscribe_def Let_def)

lemma Unsubscribe_out: "snd (broker_Unsubscribe s m br) =
    (if fmlookup (subscriptions br) (Unsubscribe_Subscription m) = None then [(s, unsubscribe_error m)]
     else [(s, MUnsubscribed \<lparr>Unsubscribed_Request = Unsubscribe_Request m\<rparr>)])"
  by (simp add: broker_Unsubscribe_def unsubscribe_error_def Let_def split: option.split)

lemma Publish_out:
  assumes "br_inv br" "map_order ord"
  obtains evs where "broker_Publish ord draw s m br = evs @ acknowledgement (NewID draw) s m"
    "distinct evs" "set evs = event_sends (br_live br) (NewID draw) s m"
proof
  show "broker_Publish ord draw s m br =
      publish_loop (exclude_publisher m) s (event_template (NewID draw) m) (topic_route br (Publish_Topic m))
        (ord (fmdom (topic_route br (Publish_Topic m)))) @ acknowledgement (NewID draw) s m"
    by (simp add: broker_Publish_def acknowledgement_def Let_def)
  show "set (publish_loop (exclude_publisher m) s (event_template (NewID draw) m)
      (topic_route br (Publish_Topic m)) (ord (fmdom (topic_route br (Publish_Topic m))))) =
      event_sends (br_live br) (NewID draw) s m"
    unfolding event_sends_def by (rule publish_events [OF br_invD(1) [OF assms(1)] assms(2)])
qed (intro distinct_publish_loop map_order_distinct assms)

lemma br_inv_exec:
  "br_inv br \<Longrightarrow> broker_step br oper br' out \<Longrightarrow> br_inv br'"
  by (cases oper)
     (auto simp: broker_step_def prod_eq_iff
       intro: br_inv_Subscribe br_inv_Unsubscribe br_inv_RemoveSession)

lemma live_Remove:
  "br_inv br \<Longrightarrow> map_order ord \<Longrightarrow> br_live (broker_RemoveSession ord s br) = without_session s (br_live br)"
  by (rule ext) (simp add: br_live_RemoveSession without_session_def)

lemma broker_step_spec:
  assumes inv: "br_inv br" and step: "broker_step br oper br' out"
  shows "pubsub_step (br_live br) oper (br_live br') out"
proof -
  from step obtain ord where ord: "map_order ord" and fresh: "broker_op_fresh br oper"
    and ex: "broker_exec ord oper br = (br', out)" by (auto simp: broker_step_def)
  show ?thesis
  proof (cases oper)
    case (BPublish draw s m)
    obtain evs where "broker_Publish ord draw s m br = evs @ acknowledgement (NewID draw) s m"
      "distinct evs" "set evs = event_sends (br_live br) (NewID draw) s m"
      by (rule Publish_out [OF inv ord])
    with BPublish ex show ?thesis by (auto intro: pubsub_step.publish)
  next
    case (BSubscribe draw s m)
    then have f: "br_fresh br (NewID draw)" using fresh by simp
    then have "br_live br (NewID draw) = None"
      using br_live_None_iff [OF br_invD(1) [OF inv]] by (simp add: br_fresh_def)
    moreover have "br_live br' = (br_live br)(NewID draw \<mapsto> (Subscribe_Topic m, s))"
      using br_live_Subscribe [OF inv f, of s m] BSubscribe ex by simp
    moreover have "out = [(s, MSubscribed \<lparr>Subscribed_Request = Subscribe_Request m,
        Subscribed_Subscription = NewID draw\<rparr>)]"
      using Subscribe_out [of draw s m br] BSubscribe ex by simp
    ultimately show ?thesis using BSubscribe by (simp add: pubsub_step.subscribe)
  next
    case (BUnsubscribe s m)
    then have st: "br_live br' = (br_live br)(Unsubscribe_Subscription m := None)"
      using br_live_Unsubscribe [OF inv, of s m] ex by simp
    have out: "out = snd (broker_Unsubscribe s m br)" using BUnsubscribe ex by simp
    show ?thesis
    proof (cases "br_live br (Unsubscribe_Subscription m) = None")
      case True
      then have "(br_live br)(Unsubscribe_Subscription m := None) = br_live br"
        by (rule fun_upd_idem)
      moreover have "out = [(s, unsubscribe_error m)]"
        using True br_live_None_iff [OF br_invD(1) [OF inv]] by (simp add: out Unsubscribe_out)
      ultimately show ?thesis
        using True BUnsubscribe st by (simp add: pubsub_step.unsubscribe_unknown)
    next
      case False
      moreover have "out = [(s, MUnsubscribed \<lparr>Unsubscribed_Request = Unsubscribe_Request m\<rparr>)]"
        using False br_live_None_iff [OF br_invD(1) [OF inv]] by (auto simp: out Unsubscribe_out)
      ultimately show ?thesis
        using BUnsubscribe by (simp only: st) (rule pubsub_step.unsubscribe)
    qed
  next
    case (BRemove s)
    with ex have "br' = broker_RemoveSession ord s br" "out = []" by simp_all
    with BRemove show ?thesis
      by (simp add: live_Remove [OF inv ord] pubsub_step.remove)
  qed
qed

interpretation broker_sim: simulation br_inv br_live broker_step pubsub_step
  by unfold_locales (rule br_inv_exec broker_step_spec; assumption)+

section \<open>Properties\<close>

text \<open>
  C12. The broker refines the abstract table of subscriptions: every sequence of operations of any
  sessions, from an empty broker, each with its own iteration order of the maps and with fresh
  subscription identifiers, sends at every operation exactly what the specification allows there,
  and ends in a state whose live subscriptions are the specification's.
\<close>

theorem broker_refines:
  assumes "runs broker_step NewDefaultBroker ops br outs"
  shows "runs pubsub_step Map.empty ops (br_live br) outs"
proof -
  have "br_live NewDefaultBroker = Map.empty" by (rule ext) (simp add: br_live_New)
  then show ?thesis using broker_sim.sim_runs [OF assms br_inv_New] by simp
qed

text \<open>A run for the witnesses: session 1 subscribes and session 2 publishes, in two orders.\<close>

lemma demo_run:
  "map_order ord \<Longrightarrow> runs broker_step NewDefaultBroker
     [BSubscribe 7 1 (subscribe_msg ''a''), BPublish 9 2 demo_publish] demo_broker
     [[(1, MSubscribed \<lparr>Subscribed_Request = 0, Subscribed_Subscription = 7\<rparr>)],
      broker_Publish ord 9 2 demo_publish demo_broker]"
proof (rule runs.go [OF _ runs.go [OF _ runs.stop]])
  assume ord: "map_order ord"
  show "broker_step NewDefaultBroker (BSubscribe 7 1 (subscribe_msg ''a'')) demo_broker
      [(1, MSubscribed \<lparr>Subscribed_Request = 0, Subscribed_Subscription = 7\<rparr>)]"
    unfolding broker_step_def using ord Subscribe_out [of 7 1 "subscribe_msg ''a''" NewDefaultBroker]
    by (intro exI [of _ ord]) (simp add: demo_broker_def prod_eq_iff subscribe_msg_def NewID_take_bit)
  show "broker_step demo_broker (BPublish 9 2 demo_publish) demo_broker
      (broker_Publish ord 9 2 demo_publish demo_broker)"
    unfolding broker_step_def using ord by (intro exI [of _ ord]) simp
qed

theorem broker_refines_witness:
  "runs pubsub_step Map.empty [BSubscribe 7 1 (subscribe_msg ''a''), BPublish 9 2 demo_publish]
     (br_live demo_broker)
     [[(1, MSubscribed \<lparr>Subscribed_Request = 0, Subscribed_Subscription = 7\<rparr>)],
      broker_Publish sorted_list_of_fset 9 2 demo_publish demo_broker]"
  by (rule broker_refines [OF demo_run [OF map_order_sorted]])

text \<open>
  C31. The iteration order of Go's maps cannot be observed, except in the order of the messages of one
  operation: two runs of the same operations, with whatever orders, end with the same live
  subscriptions and send the same messages, counted with multiplicity, at every operation.
\<close>

theorem map_order_unobservable:
  assumes "runs broker_step NewDefaultBroker ops br1 outs1"
    and "runs broker_step NewDefaultBroker ops br2 outs2"
  shows "br_live br1 = br_live br2 \<and> list_all2 (\<lambda>out1 out2. mset out1 = mset out2) outs1 outs2"
  by (rule pubsub.runs_determined) (rule broker_sim.sim_runs; rule assms br_inv_New)+

theorem map_order_unobservable_witness:
  "mset (broker_Publish sorted_list_of_fset 9 2 demo_publish demo_broker) =
   mset (broker_Publish (rev \<circ> sorted_list_of_fset) 9 2 demo_publish demo_broker)"
  using map_order_unobservable [OF demo_run [OF map_order_sorted] demo_run [OF map_order_rev]] by simp

end
