(* ===== verification/Dealer_Spec.thy ===== *)
theory Dealer_Spec
  imports Dealer_Runs Simulation Broker_Spec
begin

text \<open>
  What a WAMP dealer promises, without its maps: the state is the table of registrations
  (identifier to URI and callee) and the table of pending invocations, each with the caller it
  answers and the caller's request identifier.  The five-map dealer of \<^verbatim>\<open>dealer.go\<close> implements
  it as long as no two pending invocations answer the same request identifier; what happens
  otherwise is \<open>Dealer_Runs.request_id_collision\<close>.
\<close>

section \<open>The specification\<close>

record rpc =
  r_procs :: "ID \<Rightarrow> (URI \<times> sess_ptr) option"
  r_pend :: "ID \<Rightarrow> (sess_ptr \<times> ID) option"

definition rpc_init :: rpc where
  "rpc_init = \<lparr>r_procs = Map.empty, r_pend = Map.empty\<rparr>"

definition result_of :: "ID \<Rightarrow> Yield \<Rightarrow> message" where
  "result_of req msg = MResult \<lparr>Result_Request = req, Result_Details = dict_make,
     Result_Arguments = Yield_Arguments msg, Result_ArgumentsKw = Yield_ArgumentsKw msg\<rparr>"

definition call_error_of :: "ID \<Rightarrow> Error \<Rightarrow> message" where
  "call_error_of req msg = MError \<lparr>Error_Type = CALL, Error_Request = req, Error_Details = dict_make,
     Error_Error = Error_Error msg, Error_Arguments = Error_Arguments msg,
     Error_ArgumentsKw = Error_ArgumentsKw msg\<rparr>"

definition invocation_of :: "session_heap \<Rightarrow> ID \<Rightarrow> ID \<Rightarrow> sess_ptr \<Rightarrow> Call \<Rightarrow> message" where
  "invocation_of heap i reg c msg = MInvocation \<lparr>Invocation_Request = i, Invocation_Registration = reg,
     Invocation_Details = call_details heap c msg, Invocation_Arguments = Call_Arguments msg,
     Invocation_ArgumentsKw = Call_ArgumentsKw msg\<rparr>"

inductive rpc_step :: "session_heap \<Rightarrow> rpc \<Rightarrow> dealer_op \<Rightarrow> rpc \<Rightarrow> sends \<Rightarrow> bool"
  for heap :: session_heap where
  register: "(\<forall>i s'. r_procs st i \<noteq> Some (Register_Procedure msg, s')) \<Longrightarrow>
    rpc_step heap st (DRegister draw s msg)
      (st\<lparr>r_procs := (r_procs st)(NewID draw \<mapsto> (Register_Procedure msg, s))\<rparr>)
      [(s, MRegistered \<lparr>Registered_Request = Register_Request msg, Registered_Registration = NewID draw\<rparr>)]"
| register_taken: "r_procs st i = Some (Register_Procedure msg, s') \<Longrightarrow>
    rpc_step heap st (DRegister draw s msg) st
      [(s, dealer_error REGISTER (Register_Request msg) ErrProcedureAlreadyExists)]"
| unregister: "r_procs st (Unregister_Registration msg) \<noteq> None \<Longrightarrow>
    rpc_step heap st (DUnregister s msg)
      (st\<lparr>r_procs := (r_procs st)(Unregister_Registration msg := None)\<rparr>)
      [(s, MUnregistered \<lparr>Unregistered_Request = Unregister_Request msg\<rparr>)]"
| unregister_unknown: "r_procs st (Unregister_Registration msg) = None \<Longrightarrow>
    rpc_step heap st (DUnregister s msg) st
      [(s, dealer_error UNREGISTER (Unregister_Request msg) ErrNoSuchRegistration)]"
| call: "r_procs st reg = Some (Call_Procedure msg, e) \<Longrightarrow>
    rpc_step heap st (DCall draw c msg)
      (st\<lparr>r_pend := (r_pend st)(NewID draw \<mapsto> (c, Call_Request msg))\<rparr>)
      [(e, invocation_of heap (NewID draw) reg c msg)]"
| call_unknown: "(\<forall>i s'. r_procs st i \<noteq> Some (Call_Procedure msg, s')) \<Longrightarrow>
    rpc_step heap st (DCall draw c msg) st
      [(c, dealer_error CALL (Call_Request msg) ErrNoSuchProcedure)]"
| yield: "r_pend st (Yield_Request msg) = Some (c, req) \<Longrightarrow>
    rpc_step heap st (DYield s msg) (st\<lparr>r_pend := (r_pend st)(Yield_Request msg := None)\<rparr>)
      [(c, result_of req msg)]"
| yield_unknown: "r_pend st (Yield_Request msg) = None \<Longrightarrow> rpc_step heap st (DYield s msg) st []"
| error: "r_pend st (Error_Request msg) = Some (c, req) \<Longrightarrow>
    rpc_step heap st (DError s msg) (st\<lparr>r_pend := (r_pend st)(Error_Request msg := None)\<rparr>)
      [(c, call_error_of req msg)]"
| error_unknown: "r_pend st (Error_Request msg) = None \<Longrightarrow> rpc_step heap st (DError s msg) st []"
| remove: "rpc_step heap st (DRemove s) (st\<lparr>r_procs := without_session s (r_procs st)\<rparr>) []"

section \<open>The dealer implements it\<close>

definition requests_distinct :: "defaultDealer \<Rightarrow> bool" where
  "requests_distinct d \<longleftrightarrow>
     (\<forall>i j r. fmlookup (invocations d) i = Some r \<longrightarrow> fmlookup (invocations d) j = Some r \<longrightarrow> i = j)"

definition dl_exact :: "defaultDealer \<Rightarrow> bool" where
  "dl_exact d \<longleftrightarrow> requests_distinct d
     \<and> (\<forall>i r. fmlookup (invocations d) i = Some r \<longrightarrow> fmlookup (calls d) r \<noteq> None)"

definition dl_pend :: "defaultDealer \<Rightarrow> ID \<Rightarrow> (sess_ptr \<times> ID) option" where
  "dl_pend d i = (case fmlookup (invocations d) i of
     None \<Rightarrow> None | Some r \<Rightarrow> map_option (\<lambda>c. (c, r)) (fmlookup (calls d) r))"

definition dl_abs :: "defaultDealer \<Rightarrow> rpc" where
  "dl_abs d = \<lparr>r_procs = dl_live d, r_pend = dl_pend d\<rparr>"

definition dealer_cstep ::
  "session_heap \<Rightarrow> defaultDealer \<Rightarrow> dealer_op \<Rightarrow> defaultDealer \<Rightarrow> sends \<Rightarrow> bool" where
  "dealer_cstep heap d oper d' out \<longleftrightarrow>
     (\<exists>ord. map_order ord \<and> op_fresh d oper \<and> dealer_step ord heap d oper = (d', out)) \<and> requests_distinct d'"

lemma requests_distinctD:
  "requests_distinct d \<Longrightarrow> fmlookup (invocations d) i = Some r \<Longrightarrow> fmlookup (invocations d) j = Some r \<Longrightarrow> i = j"
  by (simp add: requests_distinct_def)

lemma dl_exactD:
  assumes "dl_exact d"
  shows "requests_distinct d" and "fmlookup (invocations d) i = Some r \<Longrightarrow> \<exists>c. fmlookup (calls d) r = Some c"
  using assms by (auto simp: dl_exact_def)

lemma dl_abs_sel [simp]: "r_procs (dl_abs d) = dl_live d" "r_pend (dl_abs d) = dl_pend d"
  by (simp_all add: dl_abs_def)

lemma dl_abs_eqI: "dl_live d = r_procs st \<Longrightarrow> dl_pend d = r_pend st \<Longrightarrow> dl_abs d = st"
  by (simp add: dl_abs_def)

text \<open>Operations that leave calls and invocations alone.\<close>

lemma pend_cong:
  "calls d' = calls d \<Longrightarrow> invocations d' = invocations d \<Longrightarrow> dl_pend d' = dl_pend d"
  by (rule ext) (simp add: dl_pend_def cong: option.case_cong)

lemma exact_cong:
  "calls d' = calls d \<Longrightarrow> invocations d' = invocations d \<Longrightarrow> dl_exact d' = dl_exact d"
  by (simp add: dl_exact_def requests_distinct_def)

lemma Register_calls:
  "calls (fst (dealer_Register draw s m d)) = calls d"
  "invocations (fst (dealer_Register draw s m d)) = invocations d"
  by (simp_all add: dealer_Register_def addCallee_maps Let_def split: option.split)

lemma Unregister_calls:
  "calls (fst (dealer_Unregister s m d)) = calls d"
  "invocations (fst (dealer_Unregister s m d)) = invocations d"
  by (simp_all add: dealer_Unregister_def removeCallee_maps Let_def split: option.split)

lemma no_such_URI:
  "dl_inv d \<Longrightarrow> fmlookup (registrations d) u = None \<longleftrightarrow> (\<forall>i s. dl_live d i \<noteq> Some (u, s))"
  using dl_live_registration [of d _ u] registration_dl_live [of d u] by (metis option.exhaust option.distinct(1))

lemma register_spec:
  assumes inv: "dl_inv d"
  shows "rpc_step heap (dl_abs d) (DRegister draw s m) (dl_abs (fst (dealer_Register draw s m d)))
     (snd (dealer_Register draw s m d))"
proof (cases "fmlookup (registrations d) (Register_Procedure m)")
  case None
  have "dl_abs (fst (dealer_Register draw s m d)) =
      (dl_abs d)\<lparr>r_procs := (r_procs (dl_abs d))(NewID draw \<mapsto> (Register_Procedure m, s))\<rparr>"
    by (rule dl_abs_eqI) (simp_all add: dl_live_Register [OF None] pend_cong [OF Register_calls])
  moreover have "snd (dealer_Register draw s m d) = [(s, MRegistered
      \<lparr>Registered_Request = Register_Request m, Registered_Registration = NewID draw\<rparr>)]"
    using None by (simp add: dealer_Register_def Let_def)
  ultimately show ?thesis
    using None no_such_URI [OF inv] rpc_step.register [of "dl_abs d" m heap draw s] by simp
next
  case (Some i)
  then obtain s' where "dl_live d i = Some (Register_Procedure m, s')"
    using registration_dl_live [OF inv] by blast
  with Some show ?thesis by (simp add: Register_exists rpc_step.register_taken)
qed

lemma unregister_spec:
  "rpc_step heap (dl_abs d) (DUnregister s m) (dl_abs (fst (dealer_Unregister s m d)))
     (snd (dealer_Unregister s m d))"
proof (cases "fmlookup (procedures d) (Unregister_Registration m)")
  case None
  then have "dealer_Unregister s m d =
      (d, [(s, dealer_error UNREGISTER (Unregister_Request m) ErrNoSuchRegistration)])"
    by (simp add: dealer_Unregister_def)
  with None show ?thesis by (simp add: rpc_step.unregister_unknown dl_live_def)
next
  case (Some rp)
  have "dl_abs (fst (dealer_Unregister s m d)) =
      (dl_abs d)\<lparr>r_procs := (r_procs (dl_abs d))(Unregister_Registration m := None)\<rparr>"
    by (rule dl_abs_eqI) (simp_all add: dl_live_Unregister pend_cong [OF Unregister_calls])
  moreover have "snd (dealer_Unregister s m d) =
      [(s, MUnregistered \<lparr>Unregistered_Request = Unregister_Request m\<rparr>)]"
    using Some by (simp add: dealer_Unregister_def Let_def)
  moreover have "dl_live d (Unregister_Registration m) \<noteq> None" using Some by (simp add: dl_live_def)
  ultimately show ?thesis using rpc_step.unregister [of "dl_abs d" m heap s] by simp
qed

lemma remove_spec:
  assumes inv: "dl_inv d" and ord: "map_order ord"
  shows "rpc_step heap (dl_abs d) (DRemove s) (dl_abs (dealer_RemoveSession ord s d)) []"
proof -
  have "dl_abs (dealer_RemoveSession ord s d) = (dl_abs d)\<lparr>r_procs := without_session s (r_procs (dl_abs d))\<rparr>"
    using dl_RemoveSession_maps(5,6) [OF dl_invD(1) [OF inv] ord, of s]
    by (intro dl_abs_eqI ext) (simp_all add: dl_live_RemoveSession [OF inv ord] without_session_def dl_pend_def cong: option.case_cong)
  then show ?thesis using rpc_step.remove [of heap "dl_abs d" s] by simp
qed

lemma pend_None: "dl_exact d \<Longrightarrow> dl_pend d i = None \<longleftrightarrow> fmlookup (invocations d) i = None"
  using dl_exactD(2) [of d i] by (auto simp: dl_pend_def split: option.splits)

lemma call_exact:
  assumes ex: "dl_exact d" and dist: "requests_distinct (fst (dealer_Call heap draw c m d))"
  shows "dl_exact (fst (dealer_Call heap draw c m d))"
  using ex dist by (cases rule: Call_cases [of heap draw c m d]) (auto simp: dl_exact_def)

lemma call_pend:
  assumes d': "d' = d\<lparr>calls := fmupd r c (calls d), invocations := fmupd i r (invocations d)\<rparr>"
    and dist: "requests_distinct d'"
  shows "dl_pend d' = (dl_pend d)(i \<mapsto> (c, r))"
proof
  fix j
  show "dl_pend d' j = ((dl_pend d)(i \<mapsto> (c, r))) j"
  proof (cases "j = i")
    case False
    then have "fmlookup (invocations d) j \<noteq> Some r"
      using requests_distinctD [OF dist, of i r j] by (auto simp: d')
    with False show ?thesis by (auto simp: d' dl_pend_def split: option.split)
  qed (simp add: d' dl_pend_def)
qed

lemma call_spec:
  assumes inv: "dl_inv d" and dist: "requests_distinct (fst (dealer_Call heap draw c m d))"
  shows "rpc_step heap (dl_abs d) (DCall draw c m) (dl_abs (fst (dealer_Call heap draw c m d)))
     (snd (dealer_Call heap draw c m d))"
proof (cases "fmlookup (registrations d) (Call_Procedure m)")
  case None
  then show ?thesis
    using no_such_URI [OF inv] rpc_step.call_unknown [of "dl_abs d" m heap draw c] by (simp add: Call_unknown)
next
  case (Some reg)
  then obtain e where e: "dl_live d reg = Some (Call_Procedure m, e)"
    using registration_dl_live [OF inv] by blast
  note C = Call_live [OF inv e, of heap draw c]
  have "dl_abs (fst (dealer_Call heap draw c m d)) =
      (dl_abs d)\<lparr>r_pend := (r_pend (dl_abs d))(NewID draw \<mapsto> (c, Call_Request m))\<rparr>"
    using call_pend [where d = d and r = "Call_Request m" and c = c and i = "NewID draw", OF _ dist]
    by (intro dl_abs_eqI) (simp_all add: C dl_live_def fun_eq_iff)
  moreover have "snd (dealer_Call heap draw c m d) = [(e, invocation_of heap (NewID draw) reg c m)]"
    by (simp add: C invocation_of_def)
  ultimately show ?thesis using e rpc_step.call [of "dl_abs d" reg m e heap draw c] by simp
qed

text \<open>A YIELD, and an ERROR, for the invocation \<open>i\<close>.\<close>

lemma answer_pend:
  assumes ex: "dl_exact d" and i: "fmlookup (invocations d) i = Some r"
    and d': "invocations d' = fmdrop i (invocations d)" "calls d' = fmdrop r (calls d)"
  shows "dl_pend d' = (dl_pend d)(i := None)" and "dl_exact d'"
proof -
  have other: "r' \<noteq> r" if "fmlookup (invocations d) j = Some r'" "j \<noteq> i" for j r'
    using requests_distinctD [OF dl_exactD(1) [OF ex] i, of j] that by blast
  show "dl_pend d' = (dl_pend d)(i := None)"
    by (rule ext) (auto simp: dl_pend_def d' dest: other split: option.splits)
  show "dl_exact d'"
    unfolding dl_exact_def requests_distinct_def
    using ex other by (auto simp: d' dl_exact_def requests_distinct_def split: if_splits)
qed

lemma yield_spec:
  assumes ex: "dl_exact d"
  shows "rpc_step heap (dl_abs d) (DYield s m) (dl_abs (fst (dealer_Yield s m d))) (snd (dealer_Yield s m d))"
    and "dl_exact (fst (dealer_Yield s m d))"
proof -
  have "rpc_step heap (dl_abs d) (DYield s m) (dl_abs (fst (dealer_Yield s m d))) (snd (dealer_Yield s m d))
      \<and> dl_exact (fst (dealer_Yield s m d))"
  proof (cases "fmlookup (invocations d) (Yield_Request m)")
    case None
    then have "dealer_Yield s m d = (d, [])" by (simp add: dealer_Yield_def)
    with ex None show ?thesis by (simp add: rpc_step.yield_unknown pend_None)
  next
    case (Some r)
    then obtain c where c: "fmlookup (calls d) r = Some c" using dl_exactD(2) [OF ex] by blast
    note a = answer_pend [OF ex Some, of "fst (dealer_Yield s m d)"]
    have "dl_abs (fst (dealer_Yield s m d)) =
        (dl_abs d)\<lparr>r_pend := (r_pend (dl_abs d))(Yield_Request m := None)\<rparr>"
      using a(1) Some by (intro dl_abs_eqI) (simp_all add: Yield_maps dl_live_def fun_eq_iff)
    moreover have "snd (dealer_Yield s m d) = [(c, result_of r m)]"
      using Some c by (simp add: dealer_Yield_def result_of_def Let_def)
    moreover have "dl_pend d (Yield_Request m) = Some (c, r)" using Some c by (simp add: dl_pend_def)
    ultimately show ?thesis
      using a(2) Some rpc_step.yield [of "dl_abs d" m c r heap s] by (simp add: Yield_maps)
  qed
  then show "rpc_step heap (dl_abs d) (DYield s m) (dl_abs (fst (dealer_Yield s m d))) (snd (dealer_Yield s m d))"
    and "dl_exact (fst (dealer_Yield s m d))" by simp_all
qed

lemma error_spec:
  assumes ex: "dl_exact d"
  shows "rpc_step heap (dl_abs d) (DError s m) (dl_abs (fst (dealer_Error s m d))) (snd (dealer_Error s m d))"
    and "dl_exact (fst (dealer_Error s m d))"
proof -
  let ?y = "yield_of (Error_Request m)"
  have st: "fst (dealer_Error s m d) = fst (dealer_Yield s ?y d)" by (rule Error_state)
  show "dl_exact (fst (dealer_Error s m d))" unfolding st by (rule yield_spec(2) [OF ex])
  show "rpc_step heap (dl_abs d) (DError s m) (dl_abs (fst (dealer_Error s m d))) (snd (dealer_Error s m d))"
  proof (cases "fmlookup (invocations d) (Error_Request m)")
    case None
    then have "dealer_Error s m d = (d, [])" by (simp add: dealer_Error_def)
    with ex None show ?thesis by (simp add: rpc_step.error_unknown pend_None)
  next
    case (Some r)
    then obtain c where c: "fmlookup (calls d) r = Some c" using dl_exactD(2) [OF ex] by blast
    have "dl_abs (fst (dealer_Error s m d)) =
        (dl_abs d)\<lparr>r_pend := (r_pend (dl_abs d))(Error_Request m := None)\<rparr>"
      using answer_pend(1) [OF ex Some, of "fst (dealer_Yield s ?y d)"] Some
      unfolding st by (intro dl_abs_eqI) (simp_all add: Yield_maps dl_live_def fun_eq_iff yield_of_def)
    moreover have "snd (dealer_Error s m d) = [(c, call_error_of r m)]"
      using Some c by (simp add: dealer_Error_def call_error_of_def Let_def)
    moreover have "dl_pend d (Error_Request m) = Some (c, r)" using Some c by (simp add: dl_pend_def)
    ultimately show ?thesis using rpc_step.error [of "dl_abs d" m c r heap s] by simp
  qed
qed

lemma dealer_step_spec:
  assumes "dl_inv d \<and> dl_exact d" and "dealer_cstep heap d oper d' out"
  shows "rpc_step heap (dl_abs d) oper (dl_abs d') out" and "dl_inv d' \<and> dl_exact d'"
proof -
  from assms obtain ord where inv: "dl_inv d" and ex: "dl_exact d" and ord: "map_order ord"
    and fresh: "op_fresh d oper" and dist: "requests_distinct d'"
    and d': "d' = fst (dealer_step ord heap d oper)" "out = snd (dealer_step ord heap d oper)"
    by (auto simp: dealer_cstep_def)
  show "rpc_step heap (dl_abs d) oper (dl_abs d') out"
    using register_spec [OF inv] unregister_spec call_spec [OF inv] yield_spec(1) [OF ex]
      error_spec(1) [OF ex] remove_spec [OF inv ord] dist
    by (cases oper) (simp_all add: d')
  have "dl_exact d'"
    using yield_spec(2) [OF ex] error_spec(2) [OF ex] call_exact [OF ex] dist ex
      exact_cong [OF Register_calls] exact_cong [OF Unregister_calls]
      exact_cong [OF dl_RemoveSession_maps(5,6) [OF dl_invD(1) [OF inv] ord]]
    by (cases oper) (simp_all add: d')
  then show "dl_inv d' \<and> dl_exact d'"
    using dl_inv_step [OF inv ord fresh] by (simp add: d')
qed

interpretation dealer_sim: simulation "\<lambda>d. dl_inv d \<and> dl_exact d" dl_abs "dealer_cstep heap" "rpc_step heap"
  for heap
  by unfold_locales (rule dealer_step_spec; assumption)+

lemma dl_exact_New: "dl_inv NewDefaultDealer \<and> dl_exact NewDefaultDealer"
  by (simp add: dl_inv_New) (simp add: dl_exact_def requests_distinct_def NewDefaultDealer_def)

lemma dl_abs_New: "dl_abs NewDefaultDealer = rpc_init"
  by (simp add: dl_abs_def rpc_init_def fun_eq_iff dl_live_New dl_pend_def) (simp add: NewDefaultDealer_def)

section \<open>Property\<close>

text \<open>
  C13. The dealer refines the abstract tables of registrations and pending invocations: every sequence
  of operations of any sessions, from an empty dealer, in which identifiers are free when drawn and
  no two pending invocations answer the same request identifier, sends at every operation exactly
  what the specification says and ends in a state that stands for the specification's: in
  particular an answer always reaches the very caller whose call it answers.
\<close>

theorem dealer_refines:
  assumes "runs (dealer_cstep heap) NewDefaultDealer ops d outs"
  shows "runs (rpc_step heap) rpc_init ops (dl_abs d) outs"
  using dealer_sim.sim_runs [OF assms dl_exact_New] by (simp add: dl_abs_New)

lemma demo_dealer_run:
  "runs (dealer_cstep demo_heap) NewDefaultDealer
     [DRegister 7 1 (register_msg ''p''), DCall 8 2 demo_call]
     (fst (dealer_Call demo_heap 8 2 demo_call demo_dealer))
     [[(1, MRegistered \<lparr>Registered_Request = 0, Registered_Registration = 7\<rparr>)],
      snd (dealer_Call demo_heap 8 2 demo_call demo_dealer)]"
proof (rule runs.go [OF _ runs.go [OF _ runs.stop]])
  show "dealer_cstep demo_heap NewDefaultDealer (DRegister 7 1 (register_msg ''p'')) demo_dealer
      [(1, MRegistered \<lparr>Registered_Request = 0, Registered_Registration = 7\<rparr>)]"
    by (auto simp: dealer_cstep_def demo_dealer_def dealer_Register_def NewDefaultDealer_def register_msg_def
        NewID_take_bit addCallee_maps requests_distinct_def dl_fresh_def Let_def intro!: exI [of _ sorted_list_of_fset])
  have "dl_live demo_dealer 7 = Some (Call_Procedure demo_call, 1)" by (simp add: demo_call_def)
  note C = Call_live [OF demo_dealer_inv this, of demo_heap 8 2]
  show "dealer_cstep demo_heap demo_dealer (DCall 8 2 demo_call)
      (fst (dealer_Call demo_heap 8 2 demo_call demo_dealer)) (snd (dealer_Call demo_heap 8 2 demo_call demo_dealer))"
    by (auto simp: dealer_cstep_def C requests_distinct_def split: if_splits intro!: exI [of _ sorted_list_of_fset])
qed

theorem dealer_refines_witness:
  "\<exists>d outs. runs (rpc_step demo_heap) rpc_init [DRegister 7 1 (register_msg ''p''), DCall 8 2 demo_call] d outs"
  by (intro exI) (rule dealer_refines [OF demo_dealer_run])

end
