(* ===== verification/Realm_Spec.thy ===== *)
theory Realm_Spec
  imports Realm_Props Broker_Spec Dealer_Spec
begin

text \<open>
  What a realm promises to the sessions it joins: one table of subscriptions and one of registrations
  and pending invocations (\<open>Broker_Spec\<close>, \<open>Dealer_Spec\<close>), every message one atomic operation on
  them after authorization and interception, and a departure the removal from each.  The concurrent
  realm of \<open>Realm_Steps\<close>, with its goroutines, channels, acts and five plus three maps,
  implements it under every interleaving.
\<close>

section \<open>The steps of a realm, labelled\<close>

datatype realm_label =
    Received "64 word" sess_ptr message
  | DepartsDealer sess_ptr
  | DepartsBroker sess_ptr
  | Internal

definition same_stores :: "world \<Rightarrow> world \<Rightarrow> bool" where
  "same_stores w w' \<longleftrightarrow> Realm_Broker (w_realm w') = Realm_Broker (w_realm w)
     \<and> Realm_Dealer (w_realm w') = Realm_Dealer (w_realm w)
     \<and> Realm_Authorizer (w_realm w') = Realm_Authorizer (w_realm w)
     \<and> Realm_Interceptor (w_realm w') = Realm_Interceptor (w_realm w)"

text \<open>What the realm sends of its own accord: the GOODBYE of a session that is killed.\<close>

definition own_output :: "sends \<Rightarrow> bool" where
  "own_output out \<longleftrightarrow> out = [] \<or> (\<exists>s reason. out = [(s, kill_message reason)])"

inductive realm_event :: "env \<Rightarrow> sess_ptr \<Rightarrow> world \<Rightarrow> realm_label \<Rightarrow> sends \<Rightarrow> world \<Rightarrow> bool"
  for e :: env and l :: sess_ptr where
  received: "w_phase w s = Running \<Longrightarrow> s \<noteq> l \<Longrightarrow> seen_fresh e draw s msg (w_realm w) \<Longrightarrow>
    take_message e draw s msg w = (w', out) \<Longrightarrow> realm_event e l w (Received draw s msg) out w'"
| received_local: "w_phase w l = Running \<Longrightarrow> w_pipe w = msg # pipe \<Longrightarrow>
    seen_fresh e draw l msg (w_realm w) \<Longrightarrow> take_message e draw l msg (w\<lparr>w_pipe := pipe\<rparr>) = (w', out) \<Longrightarrow>
    realm_event e l w (Received draw l msg) out w'"
| departs_dealer: "w_act w = LeaveDealer s \<Longrightarrow> realm_event e l w (DepartsDealer s) [] (leave_dealer e s w)"
| departs_broker: "w_act w = LeaveBroker s \<Longrightarrow> realm_event e l w (DepartsBroker s) [] (leave_broker e s w)"
| internal: "realm_step e l w out w' \<Longrightarrow> same_stores w w' \<Longrightarrow> own_output out \<Longrightarrow>
    realm_event e l w Internal out w'"

text \<open>The labels leave nothing out and add nothing.\<close>

lemma realm_event_iff: "(\<exists>lab. realm_event e l w lab out w') \<longleftrightarrow> realm_step e l w out w'"
proof
  assume "\<exists>lab. realm_event e l w lab out w'"
  then show "realm_step e l w out w'"
    by (auto elim!: realm_event.cases intro: realm_step.message realm_step.local_message
        realm_step.leave_dealer realm_step.leave_broker)
next
  assume step: "realm_step e l w out w'"
  then show "\<exists>lab. realm_event e l w lab out w'"
  proof cases
    case (message s draw msg) then show ?thesis by (blast intro: realm_event.received)
  next
    case (local_message msg pipe draw) then show ?thesis by (blast intro: realm_event.received_local)
  next
    case (leave_dealer s) then show ?thesis by (blast intro: realm_event.departs_dealer)
  next
    case (leave_broker s) then show ?thesis by (blast intro: realm_event.departs_broker)
  next
    case (killed s reason reasons)
    then have "same_stores w w'" "own_output out"
      by (auto simp: same_stores_def own_output_def set_phase_def)
    with step show ?thesis by (blast intro: realm_event.internal)
  qed (use step in \<open>intro exI, rule realm_event.internal;
         auto simp: same_stores_def own_output_def world_steps\<close>)+
qed

section \<open>The specification\<close>

record wamp =
  wm_subs :: pubsub
  wm_rpc :: rpc

definition wamp_init :: wamp where
  "wamp_init = \<lparr>wm_subs = Map.empty, wm_rpc = rpc_init\<rparr>"

fun broker_op_of :: "64 word \<Rightarrow> sess_ptr \<Rightarrow> message \<Rightarrow> broker_op option" where
  "broker_op_of draw s (MPublish m) = Some (BPublish draw s m)"
| "broker_op_of draw s (MSubscribe m) = Some (BSubscribe draw s m)"
| "broker_op_of draw s (MUnsubscribe m) = Some (BUnsubscribe s m)"
| "broker_op_of draw s _ = None"

fun dealer_op_of :: "64 word \<Rightarrow> sess_ptr \<Rightarrow> message \<Rightarrow> dealer_op option" where
  "dealer_op_of draw s (MRegister m) = Some (DRegister draw s m)"
| "dealer_op_of draw s (MUnregister m) = Some (DUnregister s m)"
| "dealer_op_of draw s (MCall m) = Some (DCall draw s m)"
| "dealer_op_of draw s (MYield m) = Some (DYield s m)"
| "dealer_op_of draw s (MError m) = (if Error_Type m = INVOCATION then Some (DError s m) else None)"
| "dealer_op_of draw s _ = None"

text \<open>The message that is carried out for \<open>msg\<close> of a session, or the refusal.\<close>

definition admitted :: "Authorizer \<Rightarrow> Interceptor \<Rightarrow> Session \<Rightarrow> message \<Rightarrow> message + message" where
  "admitted auth icpt sess msg =
     (if fst (auth sess msg) then Inr (icpt sess msg) else Inl (authz_error msg (snd (auth sess msg))))"

definition goodbye_reply :: "sess_ptr \<Rightarrow> message \<Rightarrow> sends" where
  "goodbye_reply s msg = (case msg of
     MGoodbye m \<Rightarrow> [(s, MGoodbye \<lparr>Goodbye_Details = dict_make, Goodbye_Reason = ErrGoodbyeAndOut\<rparr>)]
   | _ \<Rightarrow> [])"

inductive wamp_step ::
  "Authorizer \<Rightarrow> Interceptor \<Rightarrow> session_heap \<Rightarrow> wamp \<Rightarrow> realm_label \<Rightarrow> wamp \<Rightarrow> sends \<Rightarrow> bool"
  for auth :: Authorizer and icpt :: Interceptor and heap :: session_heap where
  refused: "admitted auth icpt (heap s) msg = Inl err \<Longrightarrow>
    wamp_step auth icpt heap a (Received draw s msg) a [(s, err)]"
| pubsub: "admitted auth icpt (heap s) msg = Inr msg' \<Longrightarrow> broker_op_of draw s msg' = Some oper \<Longrightarrow>
    pubsub_step (wm_subs a) oper subs out \<Longrightarrow>
    wamp_step auth icpt heap a (Received draw s msg) (a\<lparr>wm_subs := subs\<rparr>) out"
| rpc: "admitted auth icpt (heap s) msg = Inr msg' \<Longrightarrow> dealer_op_of draw s msg' = Some oper \<Longrightarrow>
    rpc_step heap (wm_rpc a) oper r out \<Longrightarrow>
    wamp_step auth icpt heap a (Received draw s msg) (a\<lparr>wm_rpc := r\<rparr>) out"
| other: "admitted auth icpt (heap s) msg = Inr msg' \<Longrightarrow> broker_op_of draw s msg' = None \<Longrightarrow>
    dealer_op_of draw s msg' = None \<Longrightarrow>
    wamp_step auth icpt heap a (Received draw s msg) a (goodbye_reply s msg')"
| departs_dealer: "rpc_step heap (wm_rpc a) (DRemove s) r [] \<Longrightarrow>
    wamp_step auth icpt heap a (DepartsDealer s) (a\<lparr>wm_rpc := r\<rparr>) []"
| departs_broker: "pubsub_step (wm_subs a) (BRemove s) subs [] \<Longrightarrow>
    wamp_step auth icpt heap a (DepartsBroker s) (a\<lparr>wm_subs := subs\<rparr>) []"
| internal: "own_output out \<Longrightarrow> wamp_step auth icpt heap a Internal a out"

section \<open>The realm implements it\<close>

definition wm_abs :: "world \<Rightarrow> wamp" where
  "wm_abs w = \<lparr>wm_subs = br_live (Realm_Broker (w_realm w)), wm_rpc = dl_abs (Realm_Dealer (w_realm w))\<rparr>"

definition realm_cstep :: "env \<Rightarrow> sess_ptr \<Rightarrow> world \<Rightarrow> realm_label \<Rightarrow> world \<Rightarrow> sends \<Rightarrow> bool" where
  "realm_cstep e l w lab w' out \<longleftrightarrow>
     map_order (env_ord e) \<and> realm_event e l w lab out w' \<and> requests_distinct (Realm_Dealer (w_realm w'))"

definition realm_sim_inv :: "Authorizer \<Rightarrow> Interceptor \<Rightarrow> world \<Rightarrow> bool" where
  "realm_sim_inv auth icpt w \<longleftrightarrow> world_ok w \<and> dl_exact (Realm_Dealer (w_realm w))
     \<and> Realm_Authorizer (w_realm w) = auth \<and> Realm_Interceptor (w_realm w) = icpt"

lemma realm_sim_invD:
  assumes "realm_sim_inv auth icpt w"
  shows "world_ok w" "br_inv (Realm_Broker (w_realm w))" "dl_inv (Realm_Dealer (w_realm w))"
    "dl_exact (Realm_Dealer (w_realm w))"
    "Realm_Authorizer (w_realm w) = auth" "Realm_Interceptor (w_realm w) = icpt"
  using assms world_okD(1) [of w] by (simp_all add: realm_sim_inv_def realm_ok_def)

text \<open>\<open>route_message\<close> is the operation of the broker or the dealer that its message names.\<close>

lemma route_broker:
  assumes "broker_op_of draw s msg = Some oper"
  shows "route_message e draw s msg r =
    (r\<lparr>Realm_Broker := fst (broker_exec (env_ord e) oper (Realm_Broker r))\<rparr>,
     snd (broker_exec (env_ord e) oper (Realm_Broker r)), Continue)"
  using assms by (cases msg) (auto simp: case_prod_beta Let_def)

lemma route_dealer:
  assumes "dealer_op_of draw s msg = Some oper"
  shows "route_message e draw s msg r =
    (r\<lparr>Realm_Dealer := fst (dealer_step (env_ord e) (env_heap e) (Realm_Dealer r) oper)\<rparr>,
     snd (dealer_step (env_ord e) (env_heap e) (Realm_Dealer r) oper), Continue)"
  using assms by (cases msg) (auto simp: case_prod_beta Let_def split: if_splits)

lemma route_other:
  assumes "broker_op_of draw s msg = None" "dealer_op_of draw s msg = None"
  shows "fst (route_message e draw s msg r) = r"
    and "fst (snd (route_message e draw s msg r)) = goodbye_reply s msg"
  using assms by (cases msg; simp add: goodbye_reply_def split: if_splits)+

lemma op_fresh_of:
  "broker_op_of draw s msg = Some bop \<Longrightarrow> draw_fresh draw msg r \<Longrightarrow> broker_op_fresh (Realm_Broker r) bop"
  "dealer_op_of draw s msg = Some dop \<Longrightarrow> draw_fresh draw msg r \<Longrightarrow> op_fresh (Realm_Dealer r) dop"
  by (cases msg; auto split: if_splits)+

lemma handle_refused:
  "\<not> fst (Realm_Authorizer r (env_heap e s) msg) \<Longrightarrow>
   handle_message e draw s msg r =
     (r, [(s, authz_error msg (snd (Realm_Authorizer r (env_heap e s) msg)))], Continue)"
  by (simp add: handle_message_def case_prod_beta)

lemma handle_admitted:
  "fst (Realm_Authorizer r (env_heap e s) msg) \<Longrightarrow>
   handle_message e draw s msg r = route_message e draw s (Realm_Interceptor r (env_heap e s) msg) r"
  by (simp add: handle_message_def case_prod_beta)

lemma handle_message_spec:
  assumes inv: "br_inv (Realm_Broker r)" "dl_inv (Realm_Dealer r)" "dl_exact (Realm_Dealer r)"
    and ord: "map_order (env_ord e)" and fresh: "seen_fresh e draw s msg r"
    and h: "handle_message e draw s msg r = (r', out, nxt)"
    and dist: "requests_distinct (Realm_Dealer r')"
  shows "wamp_step (Realm_Authorizer r) (Realm_Interceptor r) (env_heap e)
      \<lparr>wm_subs = br_live (Realm_Broker r), wm_rpc = dl_abs (Realm_Dealer r)\<rparr> (Received draw s msg)
      \<lparr>wm_subs = br_live (Realm_Broker r'), wm_rpc = dl_abs (Realm_Dealer r')\<rparr> out
    \<and> dl_exact (Realm_Dealer r')"
proof (cases "fst (Realm_Authorizer r (env_heap e s) msg)")
  case False
  with h have "r' = r" "out = [(s, authz_error msg (snd (Realm_Authorizer r (env_heap e s) msg)))]"
    using False by (auto simp: handle_refused)
  with False inv(3) show ?thesis by (simp add: wamp_step.refused admitted_def)
next
  case True
  define msg' where "msg' = Realm_Interceptor r (env_heap e s) msg"
  have adm: "admitted (Realm_Authorizer r) (Realm_Interceptor r) (env_heap e s) msg = Inr msg'"
    using True by (simp add: admitted_def msg'_def)
  have route: "route_message e draw s msg' r = (r', out, nxt)"
    using h True by (simp add: handle_admitted msg'_def)
  have fr: "draw_fresh draw msg' r" using fresh by (simp add: seen_fresh_def msg'_def)
  consider (b) bop where "broker_op_of draw s msg' = Some bop"
    | (d) dop where "dealer_op_of draw s msg' = Some dop"
    | (none) "broker_op_of draw s msg' = None" "dealer_op_of draw s msg' = None"
    by blast
  then show ?thesis
  proof cases
    case b
    with route have r': "r' = r\<lparr>Realm_Broker := fst (broker_exec (env_ord e) bop (Realm_Broker r))\<rparr>"
      "out = snd (broker_exec (env_ord e) bop (Realm_Broker r))" by (simp_all add: route_broker)
    then have "broker_step (Realm_Broker r) bop (Realm_Broker r') out"
      using ord op_fresh_of(1) [OF b fr] by (auto simp: broker_step_def intro!: exI [of _ "env_ord e"])
    then have "pubsub_step (br_live (Realm_Broker r)) bop (br_live (Realm_Broker r')) out"
      by (rule broker_sim.sim_step [OF inv(1)])
    with wamp_step.pubsub [where a = "\<lparr>wm_subs = br_live (Realm_Broker r), wm_rpc = dl_abs (Realm_Dealer r)\<rparr>"
        and heap = "env_heap e", OF adm b] inv(3) show ?thesis by (simp add: r'(1))
  next
    case d
    with route have r': "r' = r\<lparr>Realm_Dealer := fst (dealer_step (env_ord e) (env_heap e) (Realm_Dealer r) dop)\<rparr>"
      "out = snd (dealer_step (env_ord e) (env_heap e) (Realm_Dealer r) dop)" by (simp_all add: route_dealer)
    then have step: "dealer_cstep (env_heap e) (Realm_Dealer r) dop (Realm_Dealer r') out"
      using ord dist op_fresh_of(2) [OF d fr] by (auto simp: dealer_cstep_def intro!: exI [of _ "env_ord e"])
    have i: "dl_inv (Realm_Dealer r) \<and> dl_exact (Realm_Dealer r)" using inv(2,3) by simp
    have "rpc_step (env_heap e) (dl_abs (Realm_Dealer r)) dop (dl_abs (Realm_Dealer r')) out"
      by (rule dealer_sim.sim_step [OF i step])
    moreover have "dl_exact (Realm_Dealer r')" using dealer_sim.inv_step [OF i step] by simp
    ultimately show ?thesis
      using wamp_step.rpc [where a = "\<lparr>wm_subs = br_live (Realm_Broker r), wm_rpc = dl_abs (Realm_Dealer r)\<rparr>"
        and heap = "env_heap e", OF adm d] by (simp add: r'(1))
  next
    case none
    with route have "r' = r" "out = goodbye_reply s msg'"
      using route_other [of draw s msg' e r] by simp_all
    with none adm inv(3) show ?thesis by (simp add: wamp_step.other)
  qed
qed

lemma take_message_spec:
  assumes inv: "realm_sim_inv auth icpt w" and ord: "map_order (env_ord e)"
    and fresh: "seen_fresh e draw s msg (w_realm w)"
    and take: "take_message e draw s msg (w\<lparr>w_pipe := pipe\<rparr>) = (w', out)"
    and dist: "requests_distinct (Realm_Dealer (w_realm w'))"
  shows "wamp_step auth icpt (env_heap e) (wm_abs w) (Received draw s msg) (wm_abs w') out"
    and "dl_exact (Realm_Dealer (w_realm w'))"
    and "Realm_Authorizer (w_realm w') = auth" "Realm_Interceptor (w_realm w') = icpt"
proof -
  note f = take_message_fields [OF take] and i = realm_sim_invD [OF inv]
  have h: "handle_message e draw s msg (w_realm w) =
      (w_realm w', out, snd (snd (handle_message e draw s msg (w_realm w))))"
    by (simp add: f(1,2))
  from handle_message_spec [OF i(2-4) ord fresh h dist]
  show "wamp_step auth icpt (env_heap e) (wm_abs w) (Received draw s msg) (wm_abs w') out"
    and "dl_exact (Realm_Dealer (w_realm w'))"
    by (simp_all add: wm_abs_def i(5,6))
  show "Realm_Authorizer (w_realm w') = auth" "Realm_Interceptor (w_realm w') = icpt"
    by (simp_all add: f(1) handle_message_frame i(5,6))
qed

lemma wm_abs_same: "same_stores w w' \<Longrightarrow> wm_abs w' = wm_abs w"
  by (simp add: wm_abs_def same_stores_def)

lemma realm_event_spec:
  assumes inv: "realm_sim_inv auth icpt w" and step: "realm_cstep e l w lab w' out"
  shows "wamp_step auth icpt (env_heap e) (wm_abs w) lab (wm_abs w') out
    \<and> dl_exact (Realm_Dealer (w_realm w'))
    \<and> Realm_Authorizer (w_realm w') = auth \<and> Realm_Interceptor (w_realm w') = icpt"
proof -
  note i = realm_sim_invD [OF inv]
  from step have ord: "map_order (env_ord e)" and ev: "realm_event e l w lab out w'"
    and dist: "requests_distinct (Realm_Dealer (w_realm w'))" by (simp_all add: realm_cstep_def)
  from ev show ?thesis
  proof cases
    case (received s draw msg)
    have "take_message e draw s msg (w\<lparr>w_pipe := w_pipe w\<rparr>) = (w', out)" using received by simp
    from take_message_spec [OF inv ord received(4) this dist] received(1) show ?thesis by simp
  next
    case (received_local msg pipe draw)
    from take_message_spec [OF inv ord received_local(4,5) dist] received_local(1) show ?thesis by simp
  next
    case (departs_dealer s)
    let ?d = "dealer_RemoveSession (env_ord e) s (Realm_Dealer (w_realm w))"
    have "dl_exact ?d"
      using exact_cong [OF dl_RemoveSession_maps(5,6) [OF dl_invD(1) [OF i(3)] ord]] i(4) by simp
    with wamp_step.departs_dealer [where a = "wm_abs w" and s = s and r = "dl_abs ?d" and heap = "env_heap e",
        of auth icpt] remove_spec [OF i(3) ord, of "env_heap e" s] departs_dealer i(5,6)
    show ?thesis by (simp add: wm_abs_def leave_dealer_def)
  next
    case (departs_broker s)
    have "pubsub_step (br_live (Realm_Broker (w_realm w))) (BRemove s)
        (br_live (broker_RemoveSession (env_ord e) s (Realm_Broker (w_realm w)))) []"
      by (simp add: live_Remove [OF i(2) ord] pubsub_step.remove)
    with wamp_step.departs_broker [where a = "wm_abs w" and s = s and heap = "env_heap e", of _ auth icpt]
      departs_broker i(4-6)
    show ?thesis by (simp add: wm_abs_def leave_broker_def)
  next
    case internal
    then show ?thesis
      using i(4-6) wm_abs_same [OF internal(3)]
      by (simp add: wamp_step.internal) (simp add: same_stores_def)
  qed
qed

lemma realm_sim_inv_step:
  assumes inv: "realm_sim_inv auth icpt w" and step: "realm_cstep e l w lab w' out"
  shows "realm_sim_inv auth icpt w'"
proof -
  from step have "realm_step e l w out w'" and "map_order (env_ord e)"
    using realm_event_iff [of e l w out w'] by (auto simp: realm_cstep_def)
  then have "world_ok w'" using world_ok_step realm_sim_invD(1) [OF inv] by blast
  with realm_event_spec [OF inv step] show ?thesis by (simp add: realm_sim_inv_def)
qed

interpretation realm_sim: simulation "realm_sim_inv auth icpt" wm_abs "realm_cstep e l"
  "wamp_step auth icpt (env_heap e)" for auth icpt e l
  by unfold_locales (blast intro: realm_sim_inv_step, use realm_event_spec in blast)

lemma realm_sim_inv_init:
  assumes "default_stores cfg"
  shows "realm_sim_inv (Realm_Authorizer (Realm_init cfg)) (Realm_Interceptor (Realm_init cfg)) (init_world cfg l)"
    and "wm_abs (init_world cfg l) = wamp_init"
  using assms dl_exact_New dl_abs_New br_live_New world_ok_init [OF assms, of l]
  by (auto simp: realm_sim_inv_def wm_abs_def wamp_init_def init_world_def Realm_init_def default_stores_def)

section \<open>Property\<close>


lemma requests_distinct_New [simp]: "requests_distinct NewDefaultDealer"
  using dl_exact_New by (simp add: dl_exact_def)

lemma internal_cstep:
  "realm_step e l w out w' \<Longrightarrow> same_stores w w' \<Longrightarrow> own_output out \<Longrightarrow> map_order (env_ord e) \<Longrightarrow>
   requests_distinct (Realm_Dealer (w_realm w)) \<Longrightarrow> realm_cstep e l w Internal w' out"
  by (simp add: realm_cstep_def realm_event.internal) (simp add: same_stores_def)

text \<open>The local session joins, session 1 connects and joins; then it subscribes to \<open>a\<close>.\<close>

lemma demo_world1_run:
  "runs (realm_cstep demo_env 0) (init_world ticket_config 0) [Internal, Internal, Internal, Internal, Internal]
     demo_world1 [[], [], [], [], []]"
proof -
  let ?w1 = "join_begin demo_env 0 (init_world ticket_config 0)"
  let ?w2 = "set_phase 1 WantJoin demo_world" let ?w3 = "join_begin demo_env 1 ?w2"
  have d: "Realm_Dealer (w_realm (init_world ticket_config 0)) = NewDefaultDealer"
    by (simp add: init_world_def Realm_init_def ticket_config_def)
  note defs = same_stores_def own_output_def world_steps demo_world_def demo_world1_def d
  have 1: "realm_cstep demo_env 0 (init_world ticket_config 0) Internal ?w1 []"
    by (rule internal_cstep, rule realm_step.join_begin) (simp_all add: init_world_def defs Realm_init_def ticket_config_def)
  have 2: "realm_cstep demo_env 0 ?w1 Internal demo_world []"
    unfolding demo_world_def
    by (rule internal_cstep, rule realm_step.join_end)
       (simp_all add: init_world_def defs pipe_cap_def Realm_init_def ticket_config_def)
  have 3: "realm_cstep demo_env 0 demo_world Internal ?w2 []"
    by (rule internal_cstep, rule realm_step.connect)
       (simp_all add: init_world_def defs Realm_init_def ticket_config_def)
  have 4: "realm_cstep demo_env 0 ?w2 Internal ?w3 []"
    by (rule internal_cstep, rule realm_step.join_begin)
       (simp_all add: init_world_def defs Realm_init_def ticket_config_def)
  have 5: "realm_cstep demo_env 0 ?w3 Internal demo_world1 []"
    unfolding demo_world1_def
    by (rule internal_cstep, rule realm_step.join_end)
       (simp_all add: init_world_def defs pipe_cap_def Realm_init_def ticket_config_def)
  show ?thesis by (rule runs.intros 1 2 3 4 5)+
qed

lemma demo_realm_run:
  "\<exists>out. runs (realm_cstep demo_env 0) (init_world ticket_config 0)
     [Internal, Internal, Internal, Internal, Internal, Received 7 1 (MSubscribe (subscribe_msg ''a''))]
     demo_world2 [[], [], [], [], [], out]"
proof -
  let ?m = "MSubscribe (subscribe_msg ''a'')"
  have dd: "Realm_Dealer (w_realm demo_world2) = NewDefaultDealer"
    unfolding demo_world2_def take_message_fields(1) [OF prod.collapse [symmetric]]
    by (simp add: handle_plain case_prod_beta Let_def)
       (simp add: world_steps demo_world_def demo_world1_def init_world_def Realm_init_def ticket_config_def)
  have "realm_event demo_env 0 demo_world1 (Received 7 1 ?m)
      (snd (take_message demo_env 7 1 ?m demo_world1)) demo_world2"
    by (rule realm_event.received)
       (simp_all add: demo_world1_fields demo_world2_def seen_fresh_plain del: One_nat_def)
  then have "realm_cstep demo_env 0 demo_world1 (Received 7 1 ?m) demo_world2
      (snd (take_message demo_env 7 1 ?m demo_world1))"
    by (simp add: realm_cstep_def dd)
  from runs_snoc [where step = "realm_cstep demo_env 0", OF demo_world1_run this] show ?thesis
    by (intro exI) (simp only: append.simps)
qed


end
