(* ===== verification/Realm_Close.thy ===== *)
theory Realm_Close
  imports Realm_Props
begin

text \<open>
  What a realm does on its own, between inputs (\<open>drain_step\<close>: no session connects, no peer sends a
  message, the program does not use the local client): every such activity ends, within a bound
  that depends on the number of sessions, and \<open>Close\<close> then returns, provided the pipe to the local
  session has room for the announcements that are still to come.  That the bound on the room is
  tight is \<open>Realm_Props.close_can_deadlock\<close>.
\<close>

section \<open>Steps without input\<close>

inductive drain_step :: "env \<Rightarrow> sess_ptr \<Rightarrow> world \<Rightarrow> world \<Rightarrow> bool" for e :: env and l :: sess_ptr where
  join_begin: "w_act w = Idle \<Longrightarrow> acts_open w \<Longrightarrow> w_phase w s = WantJoin \<Longrightarrow>
    drain_step e l w (join_begin e s w)"
| join_end: "w_act w = JoinPublish s \<Longrightarrow> length (w_pipe w) < pipe_cap \<Longrightarrow>
    drain_step e l w (join_end e draw s w)"
| local_message: "w_phase w l = Running \<Longrightarrow> w_pipe w = msg # pipe \<Longrightarrow>
    seen_fresh e draw l msg (w_realm w) \<Longrightarrow>
    take_message e draw l msg (w\<lparr>w_pipe := pipe\<rparr>) = (w', out) \<Longrightarrow> drain_step e l w w'"
| lost: "w_phase w s = Running \<Longrightarrow> s \<noteq> l \<Longrightarrow> drain_step e l w (set_phase s WantLeave w)"
| killed: "w_phase w s = Running \<Longrightarrow> w_kill w s = reason # reasons \<Longrightarrow>
    drain_step e l w (set_phase s WantLeave (w\<lparr>w_kill := (w_kill w)(s := reasons)\<rparr>))"
| leave_begin: "w_act w = Idle \<Longrightarrow> acts_open w \<Longrightarrow> w_phase w s = WantLeave \<Longrightarrow>
    drain_step e l w (leave_begin e s w)"
| leave_dealer: "w_act w = LeaveDealer s \<Longrightarrow> drain_step e l w (leave_dealer e s w)"
| leave_broker: "w_act w = LeaveBroker s \<Longrightarrow> drain_step e l w (leave_broker e s w)"
| leave_end: "w_act w = LeavePublish s \<Longrightarrow> length (w_pipe w) < pipe_cap \<Longrightarrow>
    drain_step e l w (leave_end e draw s w)"
| close_kill: "w_act w = Idle \<Longrightarrow> w_closing w = NotClosing \<Longrightarrow>
    (\<And>s. s \<in> fset (fmran (clients (w_realm w))) \<Longrightarrow> w_kill w s = []) \<Longrightarrow>
    drain_step e l w (close_kill w)"
| close_poll: "w_act w = Idle \<Longrightarrow> w_closing w = Polling \<Longrightarrow> clients (w_realm w) = fmempty \<Longrightarrow>
    drain_step e l w (w\<lparr>w_closing := Drained\<rparr>)"
| close_acts: "w_closing w = Drained \<Longrightarrow> drain_step e l w (w\<lparr>w_closing := Closed\<rparr>)"

lemma drain_realm_step: "drain_step e l w w' \<Longrightarrow> \<exists>out. realm_step e l w out w'"
  by (erule drain_step.cases) (simp_all only:, (blast intro: realm_step.intros)+)

section \<open>What is left to do\<close>

fun phase_work :: "phase \<Rightarrow> nat" where
  "phase_work NotStarted = 0" | "phase_work WantJoin = 9" | "phase_work InJoin = 8"
| "phase_work Running = 6" | "phase_work WantLeave = 5" | "phase_work Gone = 0"

fun act_work :: "act \<Rightarrow> nat" where
  "act_work Idle = 0" | "act_work (JoinPublish _) = 0" | "act_work (LeaveDealer _) = 4"
| "act_work (LeaveBroker _) = 3" | "act_work (LeavePublish _) = 2"

fun closing_work :: "closing \<Rightarrow> nat" where
  "closing_work NotClosing = 3" | "closing_work Polling = 2" | "closing_work Drained = 1"
| "closing_work Closed = 0"

text \<open>The announcements (joins and departures) a session, or the running act, is still to make.\<close>

fun phase_notes :: "phase \<Rightarrow> nat" where
  "phase_notes NotStarted = 0" | "phase_notes WantJoin = 2" | "phase_notes InJoin = 2"
| "phase_notes Running = 1" | "phase_notes WantLeave = 1" | "phase_notes Gone = 0"

fun act_notes :: "act \<Rightarrow> nat" where
  "act_notes Idle = 0" | "act_notes (JoinPublish _) = 0" | "act_notes _ = 1"

definition started :: "world \<Rightarrow> sess_ptr set" where
  "started w = {s. w_phase w s \<noteq> NotStarted}"

definition work :: "world \<Rightarrow> nat" where
  "work w = (\<Sum>s \<in> started w. phase_work (w_phase w s)) + act_work (w_act w) + length (w_pipe w)
     + closing_work (w_closing w)"

definition to_announce :: "world \<Rightarrow> nat" where
  "to_announce w = (\<Sum>s \<in> started w. phase_notes (w_phase w s)) + act_notes (w_act w)"

lemma started_upd:
  "w_phase w' = (w_phase w)(s := p) \<Longrightarrow> w_phase w s \<noteq> NotStarted \<Longrightarrow> p \<noteq> NotStarted \<Longrightarrow>
   started w' = started w"
  by (auto simp: started_def)

text \<open>One session moves from its phase to \<open>p\<close>.\<close>

lemma sum_move:
  fixes f :: "phase \<Rightarrow> nat"
  assumes fin: "finite (started w)" and s: "w_phase w s \<noteq> NotStarted" "p \<noteq> NotStarted"
    and w': "w_phase w' = (w_phase w)(s := p)"
  shows "(\<Sum>x \<in> started w'. f (w_phase w' x)) + f (w_phase w s) = (\<Sum>x \<in> started w. f (w_phase w x)) + f p"
proof -
  have "s \<in> started w" using s by (simp add: started_def)
  moreover have "(\<Sum>x \<in> started w - {s}. f (w_phase w' x)) = (\<Sum>x \<in> started w - {s}. f (w_phase w x))"
    by (rule sum.cong) (simp_all add: w')
  ultimately show ?thesis
    unfolding started_upd [OF w' s] by (simp add: sum.remove [OF fin, of s] w')
qed

lemma sum_same:
  fixes f :: "phase \<Rightarrow> nat"
  assumes "w_phase w' = w_phase w"
  shows "(\<Sum>x \<in> started w'. f (w_phase w' x)) = (\<Sum>x \<in> started w. f (w_phase w x))"
  using assms by (simp add: started_def)

lemma join_phase: "acts_ok w \<Longrightarrow> w_act w = JoinPublish s \<Longrightarrow> w_phase w s = InJoin"
  using acts_okD(1) by blast

lemma drain_started: "drain_step e l w w' \<Longrightarrow> acts_ok w \<Longrightarrow> started w' = started w"
  by (erule drain_step.cases)
     (auto simp: started_def world_steps dest: join_phase take_message_fields(7) split: if_splits)

text \<open>
  Every step without input does some of the work and makes at most one of the announcements, which it
  puts into the pipe.
\<close>

lemma drain_work:
  assumes step: "drain_step e l w w'" and fin: "finite (started w)" and ok: "acts_ok w"
  shows "work w' < work w \<and> length (w_pipe w') + to_announce w' \<le> length (w_pipe w) + to_announce w"
  using step
proof cases
  case (join_begin s)
  then show ?thesis
    using sum_move [OF fin, of s InJoin w' phase_work] sum_move [OF fin, of s InJoin w' phase_notes]
    by (simp add: work_def to_announce_def world_steps)
next
  case (join_end s draw)
  then have "w_phase w s = InJoin" using acts_okD(1) [OF ok] by simp
  with join_end show ?thesis
    using sum_move [OF fin, of s Running w' phase_work] sum_move [OF fin, of s Running w' phase_notes]
    by (simp add: work_def to_announce_def world_steps)
next
  case (local_message msg pipe draw out)
  note f = take_message_fields [OF local_message(4)]
  define p where "p = (if snd (snd (handle_message e draw l msg (w_realm w))) = Return then WantLeave else Running)"
  have ph: "w_phase w' = (w_phase w)(l := p)" using f(7) by (simp add: p_def)
  have p: "p \<noteq> NotStarted" "phase_work p \<le> 6" "phase_notes p = 1" by (simp_all add: p_def)
  then show ?thesis
    using sum_move [OF fin _ p(1) ph, of phase_work] sum_move [OF fin _ p(1) ph, of phase_notes] local_message f
    by (simp add: work_def to_announce_def)
next
  case (lost s)
  then show ?thesis
    using sum_move [OF fin, of s WantLeave w' phase_work] sum_move [OF fin, of s WantLeave w' phase_notes]
    by (simp add: work_def to_announce_def world_steps)
next
  case (killed s reason reasons)
  then show ?thesis
    using sum_move [OF fin, of s WantLeave w' phase_work] sum_move [OF fin, of s WantLeave w' phase_notes]
    by (simp add: work_def to_announce_def world_steps)
next
  case (leave_begin s)
  then show ?thesis
    using sum_move [OF fin, of s Gone w' phase_work] sum_move [OF fin, of s Gone w' phase_notes]
    by (simp add: work_def to_announce_def world_steps)
qed (use sum_same [of w' w phase_work] sum_same [of w' w phase_notes] in
      \<open>simp_all add: work_def to_announce_def world_steps\<close>)

lemma started_finite_step: "realm_step e l w out w' \<Longrightarrow> acts_ok w \<Longrightarrow> finite (started w) \<Longrightarrow> finite (started w')"
proof (erule realm_stepE)
  fix s assume "w' = set_phase s WantJoin w" "finite (started w)"
  then show "finite (started w')"
    by (auto intro: finite_subset [of _ "insert s (started w)"] simp: started_def set_phase_def)
qed (auto simp: started_def world_steps dest: join_phase dest!: take_message_fields(7)
      intro: finite_subset [of "started w'" "started w"] split: if_splits elim!: rev_finite_subset)

lemma started_finite:
  assumes "reachable e cfg l w" and "map_order (env_ord e)" and "default_stores cfg"
  shows "finite (started w)"
  using assms(1)
proof (induction rule: reachable_induct)
  case init
  have "started (init_world cfg l) = {l}" by (auto simp: started_def init_world_def)
  then show ?case by simp
next
  case (step w out w')
  show ?case
    by (rule started_finite_step [OF step(2) world_okD(3) [OF reachable_ok [OF step(1) assms(2,3)]] step(3)])
qed

lemma reachable_drain: "reachable e cfg l w \<Longrightarrow> drain_step e l w w' \<Longrightarrow> reachable e cfg l w'"
  using drain_realm_step [of e l w w'] by (auto intro: reachable_step)

lemma work_bound: "finite (started w) \<Longrightarrow> work w \<le> 9 * card (started w) + length (w_pipe w) + 7"
proof -
  assume fin: "finite (started w)"
  have "phase_work p \<le> 9" for p by (cases p) simp_all
  then have "(\<Sum>s \<in> started w. phase_work (w_phase w s)) \<le> card (started w) * 9"
    using sum_bounded_above [of "started w" "\<lambda>s. phase_work (w_phase w s)" 9] by simp
  moreover have "act_work (w_act w) \<le> 4" by (cases "w_act w") simp_all
  moreover have "closing_work (w_closing w) \<le> 3" by (cases "w_closing w") simp_all
  ultimately show ?thesis by (simp add: work_def)
qed

section \<open>Closing\<close>

text \<open>
  What holds from \<open>Close\<close>'s first act on, if no session is waiting to join and none connects: every
  session still in its loop has been told to leave, and once the loop of \<open>Close\<close> has ended nobody
  is left.
\<close>

definition closing_ok :: "world \<Rightarrow> bool" where
  "closing_ok w \<longleftrightarrow> w_closing w \<noteq> NotClosing
     \<and> (\<forall>s. w_phase w s \<in> {NotStarted, Running, WantLeave, Gone})
     \<and> (\<forall>s. w_phase w s = Running \<longrightarrow> w_kill w s \<noteq> [])
     \<and> (w_closing w \<noteq> Polling \<longrightarrow> (\<forall>s. w_phase w s \<in> {NotStarted, Gone}))"

lemma closing_okD:
  assumes "closing_ok w"
  shows "w_closing w \<noteq> NotClosing" "w_phase w s \<noteq> WantJoin" "w_phase w s \<noteq> InJoin"
    and "w_phase w s = Running \<Longrightarrow> w_kill w s \<noteq> []"
    and "w_closing w \<noteq> Polling \<Longrightarrow> w_phase w s = NotStarted \<or> w_phase w s = Gone"
  using assms by (auto simp: closing_ok_def dest: spec [of _ s])

lemma closing_okI:
  assumes "w_closing w \<noteq> NotClosing" "\<And>s. w_phase w s \<noteq> WantJoin" "\<And>s. w_phase w s \<noteq> InJoin"
    and "\<And>s. w_phase w s = Running \<Longrightarrow> w_kill w s \<noteq> []"
    and "\<And>s. w_closing w \<noteq> Polling \<Longrightarrow> w_phase w s = NotStarted \<or> w_phase w s = Gone"
  shows "closing_ok w"
proof -
  have "w_phase w s \<in> {NotStarted, Running, WantLeave, Gone}" for s
    using assms(2,3) [of s] by (cases "w_phase w s") simp_all
  with assms show ?thesis by (auto simp: closing_ok_def)
qed

lemma no_clients:
  "clients_ok e w \<Longrightarrow> clients (w_realm w) = fmempty \<longleftrightarrow> (\<forall>s. w_phase w s \<notin> {InJoin, Running, WantLeave})"
  by (auto simp: clients_ok_def fmap_eq_empty_iff) (metis option.exhaust)

lemma closing_ok_step:
  assumes step: "drain_step e l w w'" and c: "closing_ok w" and cl: "clients_ok e w" and acts: "acts_ok w"
  shows "closing_ok w'"
proof -
  note d = closing_okD [OF c]
  have running: "w_closing w = Polling" if "w_phase w s = Running \<or> w_phase w s = WantLeave" for s
  proof (rule ccontr)
    assume "w_closing w \<noteq> Polling"
    from d(5) [OF this, of s] that show False by auto
  qed
  from step show ?thesis
  proof cases
    case (join_begin s) with d(2) show ?thesis by blast
  next
    case (join_end s draw) with d(3) acts_okD(1) [OF acts] show ?thesis by blast
  next
    case (local_message msg pipe draw out)
    note f = take_message_fields [OF local_message(4)]
    show ?thesis
      using d running [of l] local_message(1) by (intro closing_okI) (auto simp: f(5-7) split: if_splits)
  next
    case (lost s) then show ?thesis
      using d running [of s] by (intro closing_okI) (auto simp: set_phase_def split: if_splits)
  next
    case (killed s reason reasons) then show ?thesis
      using d running [of s] by (intro closing_okI) (auto simp: set_phase_def split: if_splits)
  next
    case (leave_begin s) then show ?thesis
      using d running [of s] by (intro closing_okI) (auto simp: world_steps split: if_splits)
  next
    case (leave_dealer s) then show ?thesis using c by (simp add: closing_ok_def world_steps)
  next
    case (leave_broker s) then show ?thesis using c by (simp add: closing_ok_def world_steps)
  next
    case (leave_end s draw) then show ?thesis using c by (simp add: closing_ok_def world_steps)
  next
    case close_kill with d(1) show ?thesis by blast
  next
    case close_poll
    have "w_phase w s = NotStarted \<or> w_phase w s = Gone" for s
      using no_clients [OF cl] close_poll(4) d(2) [of s] by (cases "w_phase w s") auto
    then show ?thesis using d by (intro closing_okI) (auto simp: close_poll)
  next
    case close_acts
    then show ?thesis using d by (intro closing_okI) auto
  qed
qed

text \<open>Everything that is kept while a realm closes.\<close>

definition closing_inv :: "env \<Rightarrow> world \<Rightarrow> bool" where
  "closing_inv e w \<longleftrightarrow> world_ok w \<and> clients_ok e w \<and> distinct_ids e w \<and> finite (started w)
     \<and> closing_ok w \<and> length (w_pipe w) + to_announce w \<le> pipe_cap"

lemma closing_invD:
  assumes "closing_inv e w"
  shows "world_ok w" "clients_ok e w" "distinct_ids e w" "finite (started w)" "closing_ok w"
    "length (w_pipe w) + to_announce w \<le> pipe_cap" "acts_ok w"
  using assms world_okD(3) by (auto simp: closing_inv_def)

lemma closing_inv_step:
  assumes step: "drain_step e l w w'" and inv: "closing_inv e w" and ord: "map_order (env_ord e)"
  shows "closing_inv e w'"
proof -
  note i = closing_invD [OF inv]
  obtain out where r: "realm_step e l w out w'" using drain_realm_step [OF step] by blast
  have st: "started w' = started w" by (rule drain_started [OF step i(7)])
  then have "distinct_ids e w'" using i(3) by (simp add: distinct_ids_def started_def)
  moreover have "length (w_pipe w') + to_announce w' \<le> pipe_cap"
    using drain_work [OF step i(4,7)] i(6) by simp
  ultimately show ?thesis
    using world_ok_step [OF r ord i(1)] clients_ok_step [OF r i(2,3,7)] closing_ok_step [OF step i(5,2,7)]
      i(4) st by (simp add: closing_inv_def)
qed

lemma closing_progress:
  assumes inv: "closing_inv e w" and stuck: "\<And>w'. \<not> drain_step e l w w'"
  shows "w_closing w = Closed"
proof -
  note i = closing_invD [OF inv] and d = closing_okD [OF closing_invD(5) [OF inv]]
  have room: "length (w_pipe w) < pipe_cap" if "act_notes (w_act w) = 1"
    using i(6) that by (simp add: to_announce_def)
  have "w_act w = Idle"
  proof (cases "w_act w")
    case (JoinPublish s) with d(3) acts_okD(1) [OF i(7)] show ?thesis by blast
  next
    case (LeaveDealer s) with stuck drain_step.leave_dealer show ?thesis by blast
  next
    case (LeaveBroker s) with stuck drain_step.leave_broker show ?thesis by blast
  next
    case (LeavePublish s)
    with room have "length (w_pipe w) < pipe_cap" by simp
    with LeavePublish stuck drain_step.leave_end show ?thesis by blast
  qed
  show ?thesis
  proof (cases "w_closing w")
    case Polling
    have "w_phase w s \<noteq> Running" for s
      using d(4) [of s] stuck drain_step.killed [of w s _ _ e l] by (cases "w_kill w s") auto
    moreover have "w_phase w s \<noteq> WantLeave" for s
      using \<open>w_act w = Idle\<close> Polling stuck drain_step.leave_begin [of w s e l] by auto
    ultimately have "clients (w_realm w) = fmempty"
      using no_clients [OF i(2)] d(3) by auto
    with Polling \<open>w_act w = Idle\<close> stuck drain_step.close_poll show ?thesis by blast
  next
    case Drained with stuck drain_step.close_acts show ?thesis by blast
  qed (use d(1) in simp_all)
qed

text \<open>The world after \<open>Close\<close>'s first act.\<close>

lemma closing_inv_kill:
  assumes w: "world_ok w" "clients_ok e w" "distinct_ids e w" "finite (started w)"
    and idle: "w_act w = Idle" and none: "\<And>s. w_phase w s \<noteq> WantJoin"
    and room: "length (w_pipe w) + card {s. w_phase w s \<in> {Running, WantLeave}} \<le> pipe_cap"
  shows "closing_inv e (close_kill w)"
proof -
  let ?w = "close_kill w"
  have inj: "w_phase w s \<noteq> InJoin" for s using acts_okD(1) [OF world_okD(3) [OF w(1)], of s] idle by simp
  have c: "closing_ok ?w"
    using none inj clients_ran [OF w(2)] by (intro closing_okI) (auto simp: close_kill_def)
  have fn: "phase_notes (w_phase w s) = (if w_phase w s \<in> {Running, WantLeave} then 1 else 0)" for s
    using none [of s] inj [of s] by (cases "w_phase w s") simp_all
  have "to_announce ?w = (\<Sum>s \<in> started w. if w_phase w s \<in> {Running, WantLeave} then 1 else 0)"
    using sum_same [of ?w w phase_notes] idle by (simp add: to_announce_def close_kill_def fn)
  also have "\<dots> = card {s. w_phase w s \<in> {Running, WantLeave}}"
    unfolding sum.If_cases [OF w(4)] by (auto simp: started_def intro!: arg_cong [of _ _ card])
  finally have n: "length (w_pipe ?w) + to_announce ?w \<le> pipe_cap" using room by (simp add: close_kill_def)
  have "world_ok ?w" "clients_ok e ?w" "distinct_ids e ?w" "started ?w = started w"
    using w by (simp_all add: world_ok_def owners_ok_def acts_ok_def may_subscribe_def may_register_def
        clients_ok_def distinct_ids_def started_def close_kill_def)
  with c n w(4) show ?thesis by (simp add: closing_inv_def)
qed

lemma closing_inv_run:
  assumes "(drain_step e l)\<^sup>*\<^sup>* w w'" and "map_order (env_ord e)" and "closing_inv e w"
  shows "closing_inv e w'"
  using assms by (induction rule: rtranclp_induct) (blast intro: closing_inv_step)+

text \<open>A run can always be continued until nothing is left to do.\<close>

lemma drain_maximal:
  assumes "closing_inv e w" and "map_order (env_ord e)"
  shows "\<exists>w'. (drain_step e l)\<^sup>*\<^sup>* w w' \<and> (\<forall>w''. \<not> drain_step e l w' w'')"
  using assms(1)
proof (induction "work w" arbitrary: w rule: less_induct)
  case less
  show ?case
  proof (cases "\<exists>w1. drain_step e l w w1")
    case True
    then obtain w1 where w1: "drain_step e l w w1" by blast
    have "work w1 < work w"
      using drain_work [OF w1 closing_invD(4,7) [OF less.prems]] by simp
    from less.hyps [OF this closing_inv_step [OF w1 less.prems assms(2)]] w1
    show ?thesis by (meson converse_rtranclp_into_rtranclp)
  qed blast
qed

section \<open>Properties\<close>


lemma demo_pipe: "length (w_pipe demo_world) = 1" "started demo_world = {0}" "w_closing demo_world = NotClosing"
  "w_act demo_world = Idle" "w_kill demo_world = (\<lambda>_. [])"
  by (auto simp: demo_world_def world_steps init_world_def started_def split: if_splits)




end
