(* ===== verification/Go_Reflect.thy ===== *)
theory Go_Reflect
  imports Messages
begin

text \<open>
  What \<^verbatim>\<open>serialize.go\<close> uses of the package \<open>reflect\<close>: dynamic types, their kinds,
  assignability and conversion, for the types that occur as fields of messages and as values that
  the decoders produce.  Strings are sequences of bytes.  Converting a float outside the range of
  the integer type is left open by the language: \<open>float_out\<close> is what the platform does, and
  \<open>fmt_v\<close> is the formatting of a value in error texts; both are arguments.
\<close>

record platform =
  float_out :: "rat \<Rightarrow> 64 word"
  fmt_v :: "gval \<Rightarrow> string"

text \<open>A platform for the witnesses.\<close>

definition demo_platform :: platform where
  "demo_platform = \<lparr>float_out = (\<lambda>_. 0), fmt_v = (\<lambda>_. [])\<rparr>"

section \<open>Types and kinds\<close>

datatype gotype = TBool | TInt | TInt64 | TUint8 | TUint64 | TFloat64 | TString | TBytes | TURI | TID
  | TMsgType | TStruct0 | TSlice | TStrings | TDict | TIMap | TNamed string | TPtr | TIface

datatype gokind = KBool | KInt | KInt64 | KUint8 | KUint64 | KFloat64 | KString | KSlice | KMap
  | KStruct | KPtr | KInterface

text \<open>
  A \<open>reflect.Value\<close>: the zero \<open>Value\<close>, a value of static type \<open>interface{}\<close> (an element of a
  \<open>[]interface{}\<close>, or a value of a map to \<open>interface{}\<close>), or a value of a concrete type.
\<close>

datatype rvalue = RZero | RIface gval | RVal gval

fun type_of :: "gval \<Rightarrow> gotype" where
  "type_of VNil = TIface"
| "type_of (VBool _) = TBool"
| "type_of (VInt _) = TInt"
| "type_of (VInt64 _) = TInt64"
| "type_of (VUint8 _) = TUint8"
| "type_of (VUint64 _) = TUint64"
| "type_of (VFloat64 _) = TFloat64"
| "type_of (VString _) = TString"
| "type_of (VBytes _) = TBytes"
| "type_of (VURI _) = TURI"
| "type_of (VID _) = TID"
| "type_of (VMsgType _) = TMsgType"
| "type_of VStruct0 = TStruct0"
| "type_of (VSlice _) = TSlice"
| "type_of (VStrings _) = TStrings"
| "type_of (VDict _) = TDict"
| "type_of (VIMap _) = TIMap"
| "type_of (VTyped n _) = TNamed n"
| "type_of (VPtr _) = TPtr"

text \<open>The named map type of \<open>router.go\<close> is a map; no decoder produces a value of it.\<close>

fun kind_of :: "gotype \<Rightarrow> gokind" where
  "kind_of TBool = KBool"
| "kind_of TInt = KInt"
| "kind_of TInt64 = KInt64"
| "kind_of TUint8 = KUint8"
| "kind_of TUint64 = KUint64"
| "kind_of TFloat64 = KFloat64"
| "kind_of TString = KString"
| "kind_of TBytes = KSlice"
| "kind_of TURI = KString"
| "kind_of TID = KUint64"
| "kind_of TMsgType = KInt"
| "kind_of TStruct0 = KStruct"
| "kind_of TSlice = KSlice"
| "kind_of TStrings = KSlice"
| "kind_of TDict = KMap"
| "kind_of TIMap = KMap"
| "kind_of (TNamed _) = KMap"
| "kind_of TPtr = KPtr"
| "kind_of TIface = KInterface"

fun type_name :: "gotype \<Rightarrow> string" where
  "type_name TBool = ''bool''"
| "type_name TInt = ''int''"
| "type_name TInt64 = ''int64''"
| "type_name TUint8 = ''uint8''"
| "type_name TUint64 = ''uint64''"
| "type_name TFloat64 = ''float64''"
| "type_name TString = ''string''"
| "type_name TBytes = ''[]uint8''"
| "type_name TURI = ''turnpike.URI''"
| "type_name TID = ''turnpike.ID''"
| "type_name TMsgType = ''turnpike.MessageType''"
| "type_name TStruct0 = ''struct {}''"
| "type_name TSlice = ''[]interface {}''"
| "type_name TStrings = ''[]string''"
| "type_name TDict = ''map[string]interface {}''"
| "type_name TIMap = ''map[interface {}]interface {}''"
| "type_name (TNamed n) = n"
| "type_name TPtr = ''ptr''"
| "type_name TIface = ''interface {}''"

fun kind_name :: "gokind \<Rightarrow> string" where
  "kind_name KBool = ''bool''"
| "kind_name KInt = ''int''"
| "kind_name KInt64 = ''int64''"
| "kind_name KUint8 = ''uint8''"
| "kind_name KUint64 = ''uint64''"
| "kind_name KFloat64 = ''float64''"
| "kind_name KString = ''string''"
| "kind_name KSlice = ''slice''"
| "kind_name KMap = ''map''"
| "kind_name KStruct = ''struct''"
| "kind_name KPtr = ''ptr''"
| "kind_name KInterface = ''interface''"

text \<open>
  \<open>V.AssignableTo(T)\<close>: identical types, or \<open>T\<close> is \<open>interface{}\<close>.  No two of the types here
  differ and share an underlying type with one of them unnamed.
\<close>

definition assignable :: "gotype \<Rightarrow> gotype \<Rightarrow> bool" where
  "assignable V T \<longleftrightarrow> V = T \<or> T = TIface"

definition int_types :: "gotype list" where
  "int_types = [TInt, TInt64, TUint8, TUint64, TID, TMsgType]"

definition convertible :: "gotype \<Rightarrow> gotype \<Rightarrow> bool" where
  "convertible V T \<longleftrightarrow> assignable V T
     \<or> V \<in> set (TFloat64 # int_types) \<and> T \<in> set (TFloat64 # int_types)
     \<or> V \<in> set int_types \<and> T \<in> {TString, TURI}
     \<or> V \<in> {TString, TURI} \<and> T \<in> {TString, TURI, TBytes}
     \<or> V = TBytes \<and> T \<in> {TString, TURI}"

section \<open>Conversion\<close>

fun int_value :: "gval \<Rightarrow> int" where
  "int_value (VInt w) = sint w"
| "int_value (VInt64 w) = sint w"
| "int_value (VUint8 w) = uint w"
| "int_value (VUint64 w) = uint w"
| "int_value (VID w) = uint w"
| "int_value (VMsgType w) = sint w"
| "int_value _ = 0"

definition trunc :: "rat \<Rightarrow> int" where
  "trunc q = (if q < 0 then - \<lfloor>- q\<rfloor> else \<lfloor>q\<rfloor>)"

definition to_uint64 :: "platform \<Rightarrow> gval \<Rightarrow> 64 word" where
  "to_uint64 p v =
     (case v of
        VFloat64 q \<Rightarrow> if 0 \<le> trunc q \<and> trunc q < 2 ^ 64 then word_of_int (trunc q) else float_out p q
      | _ \<Rightarrow> word_of_int (int_value v))"

definition to_int64 :: "platform \<Rightarrow> gval \<Rightarrow> 64 word" where
  "to_int64 p v =
     (case v of
        VFloat64 q \<Rightarrow> if - (2 ^ 63) \<le> trunc q \<and> trunc q < 2 ^ 63 then word_of_int (trunc q) else float_out p q
      | _ \<Rightarrow> word_of_int (int_value v))"

text \<open>\<open>string(n)\<close> for an integer: the UTF-8 encoding of that code point, or of U+FFFD.\<close>

definition utf8_of :: "int \<Rightarrow> string" where
  "utf8_of n =
     (let c = (if n < 0 \<or> 0x10FFFF < n \<or> (0xD800 \<le> n \<and> n \<le> 0xDFFF) then 0xFFFD else nat n)
      in map char_of
           (if c < 0x80 then [c]
            else if c < 0x800 then [0xC0 + c div 64, 0x80 + c mod 64]
            else if c < 0x10000 then [0xE0 + c div 4096, 0x80 + c div 64 mod 64, 0x80 + c mod 64]
            else [0xF0 + c div 262144, 0x80 + c div 4096 mod 64, 0x80 + c div 64 mod 64, 0x80 + c mod 64]))"

fun to_string :: "gval \<Rightarrow> string" where
  "to_string (VString s) = s"
| "to_string (VURI s) = s"
| "to_string (VBytes bs) = map (\<lambda>b. char_of (unat b)) bs"
| "to_string v = utf8_of (int_value v)"

text \<open>\<open>v.Convert(T)\<close>, for the types \<open>T\<close> of message fields.\<close>

definition convert_to :: "platform \<Rightarrow> gotype \<Rightarrow> gval \<Rightarrow> gval" where
  "convert_to p T v =
     (case T of
        TID \<Rightarrow> VID (to_uint64 p v)
      | TMsgType \<Rightarrow> VMsgType (to_int64 p v)
      | TString \<Rightarrow> VString (to_string v)
      | TURI \<Rightarrow> VURI (to_string v)
      | _ \<Rightarrow> v)"

fun rv_type :: "rvalue \<Rightarrow> gotype" where
  "rv_type (RVal v) = type_of v"
| "rv_type _ = TIface"

fun rv_value :: "rvalue \<Rightarrow> gval" where
  "rv_value (RVal v) = v"
| "rv_value (RIface v) = v"
| "rv_value RZero = VNil"

fun decimal :: "nat \<Rightarrow> string" where
  "decimal n = (if n < 10 then [char_of (48 + n)] else decimal (n div 10) @ [char_of (48 + n mod 10)])"

declare decimal.simps [simp del]

section \<open>Facts\<close>

lemma trunc_of_int [simp]: "trunc (of_int n) = n"
  by (simp add: trunc_def flip: of_int_minus)

lemma trunc_of_nat [simp]: "trunc (of_nat n) = int n"
  using trunc_of_int [of "int n"] by simp

lemma to_uint64_float: "trunc q = uint w \<Longrightarrow> to_uint64 p (VFloat64 q) = w"
  using uint_lt2p [of w] by (simp add: to_uint64_def)

lemma to_int64_float:
  assumes "trunc q = sint w"
  shows "to_int64 p (VFloat64 q) = w"
proof -
  have "- (2 ^ 63) \<le> sint w" "sint w < 2 ^ 63"
    using sint_greater_eq [of w] sint_less [of w] by simp_all
  then show ?thesis using assms by (simp add: to_int64_def)
qed

lemma convertible_self [simp]: "convertible T T"
  by (simp add: convertible_def assignable_def)

end
