(* ===== verification/Serialize.thy ===== *)
theory Serialize
  imports Peer Go_Reflect
begin

text \<open>
  \<^verbatim>\<open>serialize.go\<close>: from a message to the list of values on the wire (\<open>toList\<close>) and back
  (\<open>apply\<close>, which sets the fields one by one by reflection, with \<open>applyMap\<close> and
  \<open>applySlice\<close>).  The encoders and decoders (\<open>encoding/json\<close>'s text layer and the msgpack
  library) are arguments of the serializers: functions between lists of values and bytes.
  A panic of the reflection package is the result \<open>Panic\<close>.
\<close>

section \<open>The fields of the messages\<close>

fun as_URI :: "gval \<Rightarrow> URI" where
  "as_URI (VURI s) = s" | "as_URI _ = []"

fun as_string :: "gval \<Rightarrow> string" where
  "as_string (VString s) = s" | "as_string _ = []"

fun as_ID :: "gval \<Rightarrow> ID" where
  "as_ID (VID w) = w" | "as_ID _ = 0"

fun as_MsgType :: "gval \<Rightarrow> MessageType" where
  "as_MsgType (VMsgType w) = w" | "as_MsgType _ = 0"

fun as_dict :: "gval \<Rightarrow> dict" where
  "as_dict (VDict d) = d" | "as_dict _ = None"

fun as_glist :: "gval \<Rightarrow> glist" where
  "as_glist (VSlice l) = l" | "as_glist _ = None"

text \<open>The types of the fields, in the order of the struct.\<close>

fun field_types :: "message \<Rightarrow> gotype list" where
  "field_types (MHello _) = [TURI, TDict]"
| "field_types (MWelcome _) = [TID, TDict]"
| "field_types (MAbort _) = [TDict, TURI]"
| "field_types (MChallenge _) = [TString, TDict]"
| "field_types (MAuthenticate _) = [TString, TDict]"
| "field_types (MGoodbye _) = [TDict, TURI]"
| "field_types (MError _) = [TMsgType, TID, TDict, TURI, TSlice, TDict]"
| "field_types (MPublish _) = [TID, TDict, TURI, TSlice, TDict]"
| "field_types (MPublished _) = [TID, TID]"
| "field_types (MSubscribe _) = [TID, TDict, TURI]"
| "field_types (MSubscribed _) = [TID, TID]"
| "field_types (MUnsubscribe _) = [TID, TID]"
| "field_types (MUnsubscribed _) = [TID]"
| "field_types (MEvent _) = [TID, TID, TDict, TSlice, TDict]"
| "field_types (MCall _) = [TID, TDict, TURI, TSlice, TDict]"
| "field_types (MResult _) = [TID, TDict, TSlice, TDict]"
| "field_types (MRegister _) = [TID, TDict, TURI]"
| "field_types (MRegistered _) = [TID, TID]"
| "field_types (MUnregister _) = [TID, TID]"
| "field_types (MUnregistered _) = [TID]"
| "field_types (MInvocation _) = [TID, TID, TDict, TSlice, TDict]"
| "field_types (MYield _) = [TID, TDict, TSlice, TDict]"
| "field_types (MCancel _) = [TID, TDict]"
| "field_types (MInterrupt _) = [TID, TDict]"

text \<open>Which fields carry the tag \<open>omitempty\<close>.\<close>

fun field_omitempty :: "message \<Rightarrow> bool list" where
  "field_omitempty (MHello _) = [False, False]"
| "field_omitempty (MWelcome _) = [False, False]"
| "field_omitempty (MAbort _) = [False, False]"
| "field_omitempty (MChallenge _) = [False, False]"
| "field_omitempty (MAuthenticate _) = [False, False]"
| "field_omitempty (MGoodbye _) = [False, False]"
| "field_omitempty (MError _) = [False, False, False, False, True, True]"
| "field_omitempty (MPublish _) = [False, False, False, True, True]"
| "field_omitempty (MPublished _) = [False, False]"
| "field_omitempty (MSubscribe _) = [False, False, False]"
| "field_omitempty (MSubscribed _) = [False, False]"
| "field_omitempty (MUnsubscribe _) = [False, False]"
| "field_omitempty (MUnsubscribed _) = [False]"
| "field_omitempty (MEvent _) = [False, False, False, True, True]"
| "field_omitempty (MCall _) = [False, False, False, True, True]"
| "field_omitempty (MResult _) = [False, False, True, True]"
| "field_omitempty (MRegister _) = [False, False, False]"
| "field_omitempty (MRegistered _) = [False, False]"
| "field_omitempty (MUnregister _) = [False, False]"
| "field_omitempty (MUnregistered _) = [False]"
| "field_omitempty (MInvocation _) = [False, False, False, True, True]"
| "field_omitempty (MYield _) = [False, False, True, True]"
| "field_omitempty (MCancel _) = [False, False]"
| "field_omitempty (MInterrupt _) = [False, False]"

text \<open>The values of the fields.\<close>

fun field_values :: "message \<Rightarrow> gval list" where
  "field_values (MHello m) = [VURI (Hello_Realm m), VDict (Hello_Details m)]"
| "field_values (MWelcome m) = [VID (Welcome_Id m), VDict (Welcome_Details m)]"
| "field_values (MAbort m) = [VDict (Abort_Details m), VURI (Abort_Reason m)]"
| "field_values (MChallenge m) = [VString (Challenge_AuthMethod m), VDict (Challenge_Extra m)]"
| "field_values (MAuthenticate m) = [VString (Authenticate_Signature m), VDict (Authenticate_Extra m)]"
| "field_values (MGoodbye m) = [VDict (Goodbye_Details m), VURI (Goodbye_Reason m)]"
| "field_values (MError m) = [VMsgType (Error_Type m), VID (Error_Request m), VDict (Error_Details m), VURI (Error_Error m), VSlice (Error_Arguments m), VDict (Error_ArgumentsKw m)]"
| "field_values (MPublish m) = [VID (Publish_Request m), VDict (Publish_Options m), VURI (Publish_Topic m), VSlice (Publish_Arguments m), VDict (Publish_ArgumentsKw m)]"
| "field_values (MPublished m) = [VID (Published_Request m), VID (Published_Publication m)]"
| "field_values (MSubscribe m) = [VID (Subscribe_Request m), VDict (Subscribe_Options m), VURI (Subscribe_Topic m)]"
| "field_values (MSubscribed m) = [VID (Subscribed_Request m), VID (Subscribed_Subscription m)]"
| "field_values (MUnsubscribe m) = [VID (Unsubscribe_Request m), VID (Unsubscribe_Subscription m)]"
| "field_values (MUnsubscribed m) = [VID (Unsubscribed_Request m)]"
| "field_values (MEvent m) = [VID (Event_Subscription m), VID (Event_Publication m), VDict (Event_Details m), VSlice (Event_Arguments m), VDict (Event_ArgumentsKw m)]"
| "field_values (MCall m) = [VID (Call_Request m), VDict (Call_Options m), VURI (Call_Procedure m), VSlice (Call_Arguments m), VDict (Call_ArgumentsKw m)]"
| "field_values (MResult m) = [VID (Result_Request m), VDict (Result_Details m), VSlice (Result_Arguments m), VDict (Result_ArgumentsKw m)]"
| "field_values (MRegister m) = [VID (Register_Request m), VDict (Register_Options m), VURI (Register_Procedure m)]"
| "field_values (MRegistered m) = [VID (Registered_Request m), VID (Registered_Registration m)]"
| "field_values (MUnregister m) = [VID (Unregister_Request m), VID (Unregister_Registration m)]"
| "field_values (MUnregistered m) = [VID (Unregistered_Request m)]"
| "field_values (MInvocation m) = [VID (Invocation_Request m), VID (Invocation_Registration m), VDict (Invocation_Details m), VSlice (Invocation_Arguments m), VDict (Invocation_ArgumentsKw m)]"
| "field_values (MYield m) = [VID (Yield_Request m), VDict (Yield_Options m), VSlice (Yield_Arguments m), VDict (Yield_ArgumentsKw m)]"
| "field_values (MCancel m) = [VID (Cancel_Request m), VDict (Cancel_Options m)]"
| "field_values (MInterrupt m) = [VID (Interrupt_Request m), VDict (Interrupt_Options m)]"

text \<open>The message with its fields set to the given values, which have the fields' types.\<close>

fun set_fields :: "message \<Rightarrow> gval list \<Rightarrow> message" where
  "set_fields (MHello m) fs = MHello \<lparr>Hello_Realm = as_URI (fs ! 0), Hello_Details = as_dict (fs ! 1)\<rparr>"
| "set_fields (MWelcome m) fs = MWelcome \<lparr>Welcome_Id = as_ID (fs ! 0), Welcome_Details = as_dict (fs ! 1)\<rparr>"
| "set_fields (MAbort m) fs = MAbort \<lparr>Abort_Details = as_dict (fs ! 0), Abort_Reason = as_URI (fs ! 1)\<rparr>"
| "set_fields (MChallenge m) fs = MChallenge \<lparr>Challenge_AuthMethod = as_string (fs ! 0), Challenge_Extra = as_dict (fs ! 1)\<rparr>"
| "set_fields (MAuthenticate m) fs = MAuthenticate \<lparr>Authenticate_Signature = as_string (fs ! 0), Authenticate_Extra = as_dict (fs ! 1)\<rparr>"
| "set_fields (MGoodbye m) fs = MGoodbye \<lparr>Goodbye_Details = as_dict (fs ! 0), Goodbye_Reason = as_URI (fs ! 1)\<rparr>"
| "set_fields (MError m) fs = MError \<lparr>Error_Type = as_MsgType (fs ! 0), Error_Request = as_ID (fs ! 1), Error_Details = as_dict (fs ! 2), Error_Error = as_URI (fs ! 3), Error_Arguments = as_glist (fs ! 4), Error_ArgumentsKw = as_dict (fs ! 5)\<rparr>"
| "set_fields (MPublish m) fs = MPublish \<lparr>Publish_Request = as_ID (fs ! 0), Publish_Options = as_dict (fs ! 1), Publish_Topic = as_URI (fs ! 2), Publish_Arguments = as_glist (fs ! 3), Publish_ArgumentsKw = as_dict (fs ! 4)\<rparr>"
| "set_fields (MPublished m) fs = MPublished \<lparr>Published_Request = as_ID (fs ! 0), Published_Publication = as_ID (fs ! 1)\<rparr>"
| "set_fields (MSubscribe m) fs = MSubscribe \<lparr>Subscribe_Request = as_ID (fs ! 0), Subscribe_Options = as_dict (fs ! 1), Subscribe_Topic = as_URI (fs ! 2)\<rparr>"
| "set_fields (MSubscribed m) fs = MSubscribed \<lparr>Subscribed_Request = as_ID (fs ! 0), Subscribed_Subscription = as_ID (fs ! 1)\<rparr>"
| "set_fields (MUnsubscribe m) fs = MUnsubscribe \<lparr>Unsubscribe_Request = as_ID (fs ! 0), Unsubscribe_Subscription = as_ID (fs ! 1)\<rparr>"
| "set_fields (MUnsubscribed m) fs = MUnsubscribed \<lparr>Unsubscribed_Request = as_ID (fs ! 0)\<rparr>"
| "set_fields (MEvent m) fs = MEvent \<lparr>Event_Subscription = as_ID (fs ! 0), Event_Publication = as_ID (fs ! 1), Event_Details = as_dict (fs ! 2), Event_Arguments = as_glist (fs ! 3), Event_ArgumentsKw = as_dict (fs ! 4)\<rparr>"
| "set_fields (MCall m) fs = MCall \<lparr>Call_Request = as_ID (fs ! 0), Call_Options = as_dict (fs ! 1), Call_Procedure = as_URI (fs ! 2), Call_Arguments = as_glist (fs ! 3), Call_ArgumentsKw = as_dict (fs ! 4)\<rparr>"
| "set_fields (MResult m) fs = MResult \<lparr>Result_Request = as_ID (fs ! 0), Result_Details = as_dict (fs ! 1), Result_Arguments = as_glist (fs ! 2), Result_ArgumentsKw = as_dict (fs ! 3)\<rparr>"
| "set_fields (MRegister m) fs = MRegister \<lparr>Register_Request = as_ID (fs ! 0), Register_Options = as_dict (fs ! 1), Register_Procedure = as_URI (fs ! 2)\<rparr>"
| "set_fields (MRegistered m) fs = MRegistered \<lparr>Registered_Request = as_ID (fs ! 0), Registered_Registration = as_ID (fs ! 1)\<rparr>"
| "set_fields (MUnregister m) fs = MUnregister \<lparr>Unregister_Request = as_ID (fs ! 0), Unregister_Registration = as_ID (fs ! 1)\<rparr>"
| "set_fields (MUnregistered m) fs = MUnregistered \<lparr>Unregistered_Request = as_ID (fs ! 0)\<rparr>"
| "set_fields (MInvocation m) fs = MInvocation \<lparr>Invocation_Request = as_ID (fs ! 0), Invocation_Registration = as_ID (fs ! 1), Invocation_Details = as_dict (fs ! 2), Invocation_Arguments = as_glist (fs ! 3), Invocation_ArgumentsKw = as_dict (fs ! 4)\<rparr>"
| "set_fields (MYield m) fs = MYield \<lparr>Yield_Request = as_ID (fs ! 0), Yield_Options = as_dict (fs ! 1), Yield_Arguments = as_glist (fs ! 2), Yield_ArgumentsKw = as_dict (fs ! 3)\<rparr>"
| "set_fields (MCancel m) fs = MCancel \<lparr>Cancel_Request = as_ID (fs ! 0), Cancel_Options = as_dict (fs ! 1)\<rparr>"
| "set_fields (MInterrupt m) fs = MInterrupt \<lparr>Interrupt_Request = as_ID (fs ! 0), Interrupt_Options = as_dict (fs ! 1)\<rparr>"


lemma set_fields_values: "MessageType_of m' = MessageType_of m \<Longrightarrow> set_fields m' (field_values m) = m"
  by (cases m; cases m'; simp add: mtypes)

lemma field_types_ok: "list_all2 (\<lambda>T v. type_of v = T) (field_types m) (field_values m)"
  by (cases m) simp_all

lemma field_types_of: "MessageType_of m' = MessageType_of m \<Longrightarrow> field_types m' = field_types m"
  by (cases m; cases m'; simp add: mtypes)

lemma length_fields [simp]: "length (field_types m) = length (field_values m)"
  by (cases m) simp_all

section \<open>From wire values to a message\<close>

text \<open>
  \<open>convert\<close>: a no-op when the value is assignable; \<open>val.Type()\<close> panics on the zero value.
\<close>

definition go_convert :: "platform \<Rightarrow> rvalue \<Rightarrow> gotype \<Rightarrow> rvalue go_result" where
  "go_convert p val T =
     (case val of
        RZero \<Rightarrow> Panic
      | _ \<Rightarrow>
          if assignable (rv_type val) T then Ok val
          else if convertible (rv_type val) T then Ok (RVal (convert_to p T (rv_value val)))
          else Err (''type '' @ kind_name (kind_of (rv_type val)) @ '' not convertible to ''
                    @ kind_name (kind_of T)))"

definition quoted :: "string \<Rightarrow> string" where
  "quoted s = CHR 0x27 # s @ [CHR 0x27]"

text \<open>
  The loop of \<open>applyMap\<close> into a \<open>map[string]interface{}\<close>, over the keys of the source map
  \<open>src\<close>.  A key that is a nil interface has no dynamic value.  The value is looked up under the
  converted key.
\<close>

fun applyMap_loop ::
  "platform \<Rightarrow> (gval \<times> gval) list \<Rightarrow> gval list \<Rightarrow> (string, gval) fmap \<Rightarrow> (string, gval) fmap go_result" where
  "applyMap_loop p src [] dst = Ok dst"
| "applyMap_loop p src (k # ks) dst =
     (case go_convert p (if k = VNil then RZero else RVal k) TString of
        Panic \<Rightarrow> Panic
      | Err err \<Rightarrow> Err (''key '' @ quoted (fmt_v p k) @ '' invalid type: '' @ err)
      | Ok k' \<Rightarrow>
          (case go_convert p (case map_of src (rv_value k') of None \<Rightarrow> RZero | Some v \<Rightarrow> RIface v) TIface of
             Panic \<Rightarrow> Panic
           | Err err \<Rightarrow> Err (''value for key '' @ quoted (fmt_v p (rv_value k')) @ '' invalid type: '' @ err)
           | Ok v \<Rightarrow> applyMap_loop p src ks (fmupd (to_string (rv_value k')) (rv_value v) dst)))"

text \<open>The pairs of a \<open>map[interface{}]interface{}\<close>, in the order of the iteration.\<close>

fun map_pairs :: "gval \<Rightarrow> (gval \<times> gval) list" where
  "map_pairs (VIMap kvs) = kvs"
| "map_pairs _ = []"

definition applyMap :: "platform \<Rightarrow> gval \<Rightarrow> gval go_result" where
  "applyMap p src =
     (case applyMap_loop p (map_pairs src) (map fst (map_pairs src)) fmempty of
        Ok d \<Rightarrow> Ok (VDict (Some d)) | Err err \<Rightarrow> Err err | Panic \<Rightarrow> Panic)"

fun slice_elems :: "gval \<Rightarrow> rvalue list" where
  "slice_elems (VSlice (Some vs)) = map RIface vs"
| "slice_elems (VBytes bs) = map (\<lambda>b. RVal (VUint8 b)) bs"
| "slice_elems (VStrings ss) = map (\<lambda>s. RVal (VString s)) ss"
| "slice_elems _ = []"

fun applySlice_loop :: "platform \<Rightarrow> nat \<Rightarrow> rvalue list \<Rightarrow> gval list go_result" where
  "applySlice_loop p i [] = Ok []"
| "applySlice_loop p i (e # es) =
     (case go_convert p e TIface of
        Panic \<Rightarrow> Panic
      | Err err \<Rightarrow> Err (''Invalid '' @ decimal i @ ''th value: '' @ err)
      | Ok v \<Rightarrow>
          (case applySlice_loop p (Suc i) es of
             Ok vs \<Rightarrow> Ok (rv_value v # vs) | Err err \<Rightarrow> Err err | Panic \<Rightarrow> Panic))"

definition applySlice :: "platform \<Rightarrow> gval \<Rightarrow> gval go_result" where
  "applySlice p src =
     (case applySlice_loop p 0 (slice_elems src) of
        Ok vs \<Rightarrow> Ok (VSlice (Some vs)) | Err err \<Rightarrow> Err err | Panic \<Rightarrow> Panic)"

text \<open>
  One turn of the loop of \<open>apply\<close>: field \<open>i\<close>, of type \<open>T\<close> and value \<open>f\<close>, gets the argument
  \<open>a\<close>.  A pointer is followed; the element of a nil pointer is the zero \<open>Value\<close>.
\<close>

definition apply_field :: "platform \<Rightarrow> nat \<Rightarrow> gotype \<Rightarrow> gval \<Rightarrow> gval \<Rightarrow> gval go_result" where
  "apply_field p i T f a =
     (if a = VNil then Ok f
      else case (case a of VPtr None \<Rightarrow> RZero | VPtr (Some v) \<Rightarrow> RVal v | _ \<Rightarrow> RVal a) of
        RZero \<Rightarrow> Panic
      | arg \<Rightarrow>
          let V = rv_type arg; v = rv_value arg
          in if assignable V T then Ok v
             else if convertible V T then Ok (convert_to p T v)
             else if kind_of T \<noteq> kind_of V then
               Err (''Message format error: '' @ decimal (i + 1) @ ''th field not recognizable, got ''
                    @ type_name V @ '', expected '' @ type_name T)
             else if kind_of T = KMap then applyMap p v
             else if kind_of T = KSlice then applySlice p v
             else Err (''Message format error: '' @ decimal (i + 1) @ ''th field not recognizable''))"

fun apply_loop ::
  "platform \<Rightarrow> nat \<Rightarrow> gotype list \<Rightarrow> gval list \<Rightarrow> gval list \<Rightarrow> gval list go_result" where
  "apply_loop p i (T # Ts) (f # fs) (a # as) =
     (case apply_field p i T f a of
        Ok v \<Rightarrow> (case apply_loop p (Suc i) Ts fs as of
                   Ok vs \<Rightarrow> Ok (v # vs) | Err err \<Rightarrow> Err err | Panic \<Rightarrow> Panic)
      | Err err \<Rightarrow> Err err
      | Panic \<Rightarrow> Panic)"
| "apply_loop p i _ fs _ = Ok fs"

definition apply_message :: "platform \<Rightarrow> MessageType \<Rightarrow> gval list \<Rightarrow> message go_result" where
  "apply_message p msgType arr =
     (case MessageType_New msgType of
        None \<Rightarrow> Err ''Unsupported message type''
      | Some msg \<Rightarrow>
          (case apply_loop p 0 (field_types msg) (field_values msg) (tl arr) of
             Ok fs \<Rightarrow> Ok (set_fields msg fs) | Err err \<Rightarrow> Err err | Panic \<Rightarrow> Panic))"

section \<open>From a message to wire values\<close>

text \<open>\<open>v.Len()\<close> of a slice or map.\<close>

fun gval_len :: "gval \<Rightarrow> nat" where
  "gval_len (VSlice (Some vs)) = length vs"
| "gval_len (VDict (Some d)) = fcard (fmdom d)"
| "gval_len _ = 0"

fun last_field :: "bool list \<Rightarrow> gval list \<Rightarrow> nat \<Rightarrow> nat" where
  "last_field omit vs 0 = 0"
| "last_field omit vs (Suc n) =
     (if \<not> omit ! Suc n \<or> gval_len (vs ! Suc n) > 0 then Suc n else last_field omit vs n)"

definition toList :: "message \<Rightarrow> gval list" where
  "toList msg =
     (let vs = field_values msg; lst = last_field (field_omitempty msg) vs (length vs - 1)
      in VInt (MessageType_of msg) # take (Suc lst) vs)"

section \<open>Serializers\<close>

type_synonym 'b encoder = "gval list \<Rightarrow> go_error + 'b"
type_synonym 'b decoder = "'b \<Rightarrow> go_error + gval list"

definition MessagePack_Serialize :: "'b encoder \<Rightarrow> message \<Rightarrow> go_error + 'b" where
  "MessagePack_Serialize encode msg = encode (toList msg)"

definition MessagePack_Deserialize :: "platform \<Rightarrow> 'b decoder \<Rightarrow> 'b \<Rightarrow> message go_result" where
  "MessagePack_Deserialize p decode data =
     (case decode data of
        Inl err \<Rightarrow> Err err
      | Inr arr \<Rightarrow>
          if arr = [] then Err ''Invalid message''
          else (case hd arr of
                  VInt64 typ \<Rightarrow> apply_message p typ arr
                | _ \<Rightarrow> Err ''Unsupported message format''))"

definition JSON_Serialize :: "'b encoder \<Rightarrow> message \<Rightarrow> go_error + 'b" where
  "JSON_Serialize marshal msg = marshal (toList msg)"

definition JSON_Deserialize :: "platform \<Rightarrow> 'b decoder \<Rightarrow> 'b \<Rightarrow> message go_result" where
  "JSON_Deserialize p unmarshal data =
     (case unmarshal data of
        Inl err \<Rightarrow> Err err
      | Inr arr \<Rightarrow>
          if arr = [] then Err ''Invalid message''
          else (case hd arr of
                  VFloat64 typ \<Rightarrow> apply_message p (to_int64 p (VFloat64 typ)) arr
                | _ \<Rightarrow> Err ''Unsupported message format''))"

section \<open>What comes back of a message\<close>

text \<open>
  The trailing arguments that are empty are not sent, and come back nil.
\<close>

definition omit_args :: "glist \<Rightarrow> dict \<Rightarrow> glist" where
  "omit_args args kwargs = (if gval_len (VSlice args) = 0 \<and> gval_len (VDict kwargs) = 0 then None else args)"

definition omit_kwargs :: "dict \<Rightarrow> dict" where
  "omit_kwargs kwargs = (if gval_len (VDict kwargs) = 0 then None else kwargs)"

fun omit_empty :: "message \<Rightarrow> message" where
  "omit_empty (MError m) = MError (m\<lparr>Error_Arguments := omit_args (Error_Arguments m) (Error_ArgumentsKw m),
     Error_ArgumentsKw := omit_kwargs (Error_ArgumentsKw m)\<rparr>)"
| "omit_empty (MPublish m) = MPublish (m\<lparr>Publish_Arguments := omit_args (Publish_Arguments m) (Publish_ArgumentsKw m),
     Publish_ArgumentsKw := omit_kwargs (Publish_ArgumentsKw m)\<rparr>)"
| "omit_empty (MEvent m) = MEvent (m\<lparr>Event_Arguments := omit_args (Event_Arguments m) (Event_ArgumentsKw m),
     Event_ArgumentsKw := omit_kwargs (Event_ArgumentsKw m)\<rparr>)"
| "omit_empty (MCall m) = MCall (m\<lparr>Call_Arguments := omit_args (Call_Arguments m) (Call_ArgumentsKw m),
     Call_ArgumentsKw := omit_kwargs (Call_ArgumentsKw m)\<rparr>)"
| "omit_empty (MResult m) = MResult (m\<lparr>Result_Arguments := omit_args (Result_Arguments m) (Result_ArgumentsKw m),
     Result_ArgumentsKw := omit_kwargs (Result_ArgumentsKw m)\<rparr>)"
| "omit_empty (MInvocation m) = MInvocation (m\<lparr>Invocation_Arguments := omit_args (Invocation_Arguments m) (Invocation_ArgumentsKw m),
     Invocation_ArgumentsKw := omit_kwargs (Invocation_ArgumentsKw m)\<rparr>)"
| "omit_empty (MYield m) = MYield (m\<lparr>Yield_Arguments := omit_args (Yield_Arguments m) (Yield_ArgumentsKw m),
     Yield_ArgumentsKw := omit_kwargs (Yield_ArgumentsKw m)\<rparr>)"
| "omit_empty m = m"

lemma apply_field_same:
  "type_of v = T \<Longrightarrow> T \<notin> {TIface, TPtr} \<Longrightarrow> apply_field p i T f v = Ok v"
  by (cases v) (auto simp: apply_field_def assignable_def)

lemma apply_loop_same:
  assumes "list_all2 (\<lambda>T v. type_of v = T) Ts vs" and "set Ts \<inter> {TIface, TPtr} = {}"
    and "length fs = length vs"
  shows "apply_loop p i Ts fs (take n vs) = Ok (take n vs @ drop n fs)"
  using assms
proof (induction vs arbitrary: Ts fs n i rule: list.induct)
  case Nil
  then show ?case by simp
next
  case (Cons v vs)
  obtain T Ts' where Ts: "Ts = T # Ts'" "type_of v = T" "list_all2 (\<lambda>T v. type_of v = T) Ts' vs"
    using Cons.prems(1) by (cases Ts) auto
  obtain f fs' where fs: "fs = f # fs'" "length fs' = length vs"
    using Cons.prems(3) by (cases fs) auto
  have "apply_field p i T f v = Ok v"
    using Cons.prems(2) Ts by (intro apply_field_same) auto
  then show ?case
    using Cons.IH [of Ts' fs'] Cons.prems(2) Ts fs by (cases n) auto
qed

lemma field_types_range: "set (field_types m) \<subseteq> {TURI, TID, TMsgType, TString, TDict, TSlice}"
  by (cases m) simp_all

end
