(* ===== verification/Wire_Codec.thy ===== *)
theory Wire_Codec
  imports Serialize
begin

text \<open>
  The interface between \<open>toList\<close>, \<open>apply\<close> and the wire formats.  A format makes of every value
  another one (\<open>view\<close>: what its encoder followed by its decoder gives), and the contract is that one
  turn of the loop of \<open>apply\<close> makes of the view of a field's value a value of the field again
  (\<open>fld\<close>).  Then a whole message survives the wire, field by field, up to its trailing empty
  arguments.  JSON (\<open>Serialize_Props\<close>) and msgpack (\<open>Msgpack_Props\<close>) provide the contract.
\<close>

section \<open>New messages and the fields that are sent\<close>

text \<open>The zero values of the types of fields.\<close>

definition zero_values :: "gval list" where
  "zero_values = [VURI [], VString [], VID 0, VMsgType 0, VDict None, VSlice None]"

definition New_of :: "message \<Rightarrow> message" where
  "New_of m = the (MessageType_New (MessageType_of m))"

lemma New_of: "MessageType_New (MessageType_of m) = Some (New_of m)"
  using MessageType_New_Some_iff [of "MessageType_of m"] MessageType_of_known [of m]
  by (auto simp: New_of_def)

lemma New_of_type: "MessageType_of (New_of m) = MessageType_of m"
  using MessageType_of_New [OF New_of] .

lemma New_of_simps:
  "New_of (MHello mHello) = MHello \<lparr>Hello_Realm = [], Hello_Details = None\<rparr>"
  "New_of (MWelcome mWelcome) = MWelcome \<lparr>Welcome_Id = 0, Welcome_Details = None\<rparr>"
  "New_of (MAbort mAbort) = MAbort \<lparr>Abort_Details = None, Abort_Reason = []\<rparr>"
  "New_of (MChallenge mChallenge) = MChallenge \<lparr>Challenge_AuthMethod = [], Challenge_Extra = None\<rparr>"
  "New_of (MAuthenticate mAuthenticate) = MAuthenticate \<lparr>Authenticate_Signature = [], Authenticate_Extra = None\<rparr>"
  "New_of (MGoodbye mGoodbye) = MGoodbye \<lparr>Goodbye_Details = None, Goodbye_Reason = []\<rparr>"
  "New_of (MError mError) = MError \<lparr>Error_Type = 0, Error_Request = 0, Error_Details = None, Error_Error = [], Error_Arguments = None, Error_ArgumentsKw = None\<rparr>"
  "New_of (MPublish mPublish) = MPublish \<lparr>Publish_Request = 0, Publish_Options = None, Publish_Topic = [], Publish_Arguments = None, Publish_ArgumentsKw = None\<rparr>"
  "New_of (MPublished mPublished) = MPublished \<lparr>Published_Request = 0, Published_Publication = 0\<rparr>"
  "New_of (MSubscribe mSubscribe) = MSubscribe \<lparr>Subscribe_Request = 0, Subscribe_Options = None, Subscribe_Topic = []\<rparr>"
  "New_of (MSubscribed mSubscribed) = MSubscribed \<lparr>Subscribed_Request = 0, Subscribed_Subscription = 0\<rparr>"
  "New_of (MUnsubscribe mUnsubscribe) = MUnsubscribe \<lparr>Unsubscribe_Request = 0, Unsubscribe_Subscription = 0\<rparr>"
  "New_of (MUnsubscribed mUnsubscribed) = MUnsubscribed \<lparr>Unsubscribed_Request = 0\<rparr>"
  "New_of (MEvent mEvent) = MEvent \<lparr>Event_Subscription = 0, Event_Publication = 0, Event_Details = None, Event_Arguments = None, Event_ArgumentsKw = None\<rparr>"
  "New_of (MCall mCall) = MCall \<lparr>Call_Request = 0, Call_Options = None, Call_Procedure = [], Call_Arguments = None, Call_ArgumentsKw = None\<rparr>"
  "New_of (MResult mResult) = MResult \<lparr>Result_Request = 0, Result_Details = None, Result_Arguments = None, Result_ArgumentsKw = None\<rparr>"
  "New_of (MRegister mRegister) = MRegister \<lparr>Register_Request = 0, Register_Options = None, Register_Procedure = []\<rparr>"
  "New_of (MRegistered mRegistered) = MRegistered \<lparr>Registered_Request = 0, Registered_Registration = 0\<rparr>"
  "New_of (MUnregister mUnregister) = MUnregister \<lparr>Unregister_Request = 0, Unregister_Registration = 0\<rparr>"
  "New_of (MUnregistered mUnregistered) = MUnregistered \<lparr>Unregistered_Request = 0\<rparr>"
  "New_of (MInvocation mInvocation) = MInvocation \<lparr>Invocation_Request = 0, Invocation_Registration = 0, Invocation_Details = None, Invocation_Arguments = None, Invocation_ArgumentsKw = None\<rparr>"
  "New_of (MYield mYield) = MYield \<lparr>Yield_Request = 0, Yield_Options = None, Yield_Arguments = None, Yield_ArgumentsKw = None\<rparr>"
  "New_of (MCancel mCancel) = MCancel \<lparr>Cancel_Request = 0, Cancel_Options = None\<rparr>"
  "New_of (MInterrupt mInterrupt) = MInterrupt \<lparr>Interrupt_Request = 0, Interrupt_Options = None\<rparr>"
  by (simp_all add: New_of_def MessageType_New_def mtypes)

lemma New_of_zero: "set (field_values (New_of m)) \<subseteq> set zero_values"
  by (cases m) (simp_all add: New_of_simps zero_values_def)

text \<open>A message whose trailing fields were not sent: the empty arguments come back nil.\<close>

definition n_sent :: "message \<Rightarrow> nat" where
  "n_sent m = Suc (last_field (field_omitempty m) (field_values m) (length (field_values m) - 1))"

lemma toList_n_sent: "toList m = VInt (MessageType_of m) # take (n_sent m) (field_values m)"
  by (simp add: toList_def n_sent_def Let_def)

lemma set_fields_omit:
  "set_fields (New_of m) (take (n_sent m) (field_values m) @ drop (n_sent m) (field_values (New_of m)))
   = omit_empty m"
  by (cases m) (simp_all add: n_sent_def New_of_simps omit_args_def omit_kwargs_def numeral_eq_Suc)

lemma New_of_fields:
  "field_types (New_of m) = field_types m" "length (field_values (New_of m)) = length (field_values m)"
  using field_types_of [OF New_of_type, of m] length_fields by metis+

lemma omitempty_of: "MessageType_of m' = MessageType_of m \<Longrightarrow> field_omitempty m' = field_omitempty m"
  by (cases m; cases m'; simp add: mtypes)

text \<open>Setting the fields of a message to values of their types.\<close>

lemma type_of_invert:
  "type_of v = TURI \<Longrightarrow> \<exists>s. v = VURI s" "type_of v = TID \<Longrightarrow> \<exists>w. v = VID w"
  "type_of v = TMsgType \<Longrightarrow> \<exists>w. v = VMsgType w" "type_of v = TString \<Longrightarrow> \<exists>s. v = VString s"
  "type_of v = TDict \<Longrightarrow> \<exists>d. v = VDict d" "type_of v = TSlice \<Longrightarrow> \<exists>l. v = VSlice l"
  by (cases v; simp)+

lemma set_fields_typed:
  assumes "list_all2 (\<lambda>T v. type_of v = T) (field_types m) vs"
  shows "field_values (set_fields m vs) = vs" and "MessageType_of (set_fields m vs) = MessageType_of m"
  using assms by (cases m; auto simp: list_all2_Cons1 dest!: type_of_invert; fail)+

section \<open>The contract\<close>

locale wire_codec =
  fixes fits :: "gval \<Rightarrow> bool"
    and view :: "gval \<Rightarrow> gval"
    and fld :: "gval \<Rightarrow> gval"
  assumes apply_view: "T \<in> {TURI, TID, TMsgType, TString, TDict, TSlice} \<Longrightarrow> type_of v = T \<Longrightarrow> fits v \<Longrightarrow>
      f \<in> set zero_values \<Longrightarrow> type_of f = T \<Longrightarrow> apply_field p i T f (view v) = Ok (fld v)"
    and fld_type: "type_of (fld v) = type_of v"
    and fld_len: "gval_len (fld v) = gval_len v"
begin

definition wire_message :: "message \<Rightarrow> message" where
  "wire_message m = set_fields m (map fld (field_values m))"

lemma apply_loop_view:
  assumes "list_all2 (\<lambda>T v. type_of v = T) Ts vs" and "list_all2 (\<lambda>T f. type_of f = T) Ts fs"
    and "set Ts \<subseteq> {TURI, TID, TMsgType, TString, TDict, TSlice}" and "list_all fits vs"
    and "set fs \<subseteq> set zero_values"
  shows "apply_loop p i Ts fs (map view (take n vs)) = Ok (map fld (take n vs) @ drop n fs)"
  using assms
proof (induction vs arbitrary: Ts fs n i rule: list.induct)
  case Nil
  then show ?case by simp
next
  case (Cons v vs)
  obtain T Ts' where Ts: "Ts = T # Ts'" "type_of v = T" "list_all2 (\<lambda>T v. type_of v = T) Ts' vs"
    using Cons.prems(1) by (cases Ts) auto
  obtain f fs' where fs: "fs = f # fs'" "type_of f = T" "list_all2 (\<lambda>T f. type_of f = T) Ts' fs'"
    using Cons.prems(2) Ts(1) by (cases fs) auto
  have "apply_field p i T f (view v) = Ok (fld v)"
    by (rule apply_view) (use Cons.prems(3-5) Ts fs in auto)
  then show ?case
    using Cons.IH [of Ts' fs'] Cons.prems(3-5) Ts fs by (cases n) auto
qed

lemma fields_typed: "list_all2 (\<lambda>T v. type_of v = T) (field_types m) (map fld (field_values m))"
  using field_types_ok [of m] by (simp add: list_all2_map2 fld_type)

lemma wire_message_fields:
  "field_values (wire_message m) = map fld (field_values m)" "MessageType_of (wire_message m) = MessageType_of m"
  unfolding wire_message_def by (rule set_fields_typed [OF fields_typed])+

lemma apply_message_wire:
  assumes "list_all fits (field_values m)"
  shows "apply_message p (MessageType_of m) (v # map view (take (n_sent m) (field_values m)))
    = Ok (omit_empty (wire_message m))"
proof -
  let ?m = "wire_message m"
  note fv = wire_message_fields [of m]
  have om: "field_omitempty ?m = field_omitempty m" by (rule omitempty_of [OF fv(2)])
  have "last_field os (map fld vs) n = last_field os vs n" if "n < length vs" for os vs n
    using that by (induction n) (simp_all add: fld_len)
  moreover have "field_values m \<noteq> []" by (cases m) simp_all
  ultimately have n: "n_sent ?m = n_sent m"
    by (simp add: n_sent_def fv om)
  have z: "New_of ?m = New_of m" by (simp add: New_of_def fv)
  have "apply_loop p 0 (field_types m) (field_values (New_of m)) (map view (take (n_sent m) (field_values m)))
      = Ok (map fld (take (n_sent m) (field_values m)) @ drop (n_sent m) (field_values (New_of m)))"
    using field_types_ok [of m] field_types_ok [of "New_of m"] field_types_range assms New_of_zero
    by (intro apply_loop_view) (simp_all add: New_of_fields)
  then have "apply_message p (MessageType_of m) (v # map view (take (n_sent m) (field_values m))) =
      Ok (set_fields (New_of m) (take (n_sent m) (field_values ?m) @ drop (n_sent m) (field_values (New_of m))))"
    by (simp add: apply_message_def New_of New_of_fields fv take_map)
  then show ?thesis using set_fields_omit [of ?m] by (simp add: n z)
qed

end

end
