(* ===== verification/Base64.thy ===== *)
theory Base64
  imports Peer
begin

text \<open>
  What \<^verbatim>\<open>serialize.go\<close> uses of \<open>encoding/base64\<close> (the standard alphabet with padding),
  and the type \<open>BinaryData\<close> built on it.  Decoding skips line breaks; on malformed input it returns
  the bytes of the groups before the error.
\<close>

definition b64_alphabet :: string where
  "b64_alphabet = ''ABCDEFGHIJKLMNOPQRSTUVWXYZabcdefghijklmnopqrstuvwxyz0123456789+/''"

definition b64_char :: "nat \<Rightarrow> char" where
  "b64_char n = b64_alphabet ! n"

definition b64_value :: "char \<Rightarrow> nat option" where
  "b64_value c = map_of (zip b64_alphabet [0..<64]) c"

fun base64_encode :: "8 word list \<Rightarrow> string" where
  "base64_encode [] = []"
| "base64_encode [a] =
     [b64_char (unat a div 4), b64_char (unat a mod 4 * 16), CHR ''='', CHR ''='']"
| "base64_encode [a, b] =
     [b64_char (unat a div 4), b64_char (unat a mod 4 * 16 + unat b div 16),
      b64_char (unat b mod 16 * 4), CHR ''='']"
| "base64_encode (a # b # c # rest) =
     b64_char (unat a div 4) # b64_char (unat a mod 4 * 16 + unat b div 16)
     # b64_char (unat b mod 16 * 4 + unat c div 64) # b64_char (unat c mod 64) # base64_encode rest"

text \<open>The bytes of one group of values, the last of them dropped where the group was padded.\<close>

definition b64_bytes :: "nat \<Rightarrow> nat \<Rightarrow> nat \<Rightarrow> nat \<Rightarrow> 8 word list" where
  "b64_bytes x y z u = [of_nat (x * 4 + y div 16), of_nat (y mod 16 * 16 + z div 4), of_nat (z mod 4 * 64 + u)]"

text \<open>The bytes decoded, and whether the input was well-formed.\<close>

fun base64_groups :: "string \<Rightarrow> 8 word list \<times> bool" where
  "base64_groups [] = ([], True)"
| "base64_groups (a # b # c # d # rest) =
     (case (b64_value a, b64_value b) of
        (Some x, Some y) \<Rightarrow>
          (case b64_value c of
             None \<Rightarrow>
               if c = CHR ''='' \<and> d = CHR ''='' \<and> rest = [] then (take 1 (b64_bytes x y 0 0), True)
               else ([], False)
           | Some z \<Rightarrow>
               (case b64_value d of
                  None \<Rightarrow>
                    if d = CHR ''='' \<and> rest = [] then (take 2 (b64_bytes x y z 0), True) else ([], False)
                | Some u \<Rightarrow>
                    (case base64_groups rest of (bs, ok) \<Rightarrow> (b64_bytes x y z u @ bs, ok))))
      | _ \<Rightarrow> ([], False))"
| "base64_groups _ = ([], False)"

definition base64_DecodeString :: "string \<Rightarrow> 8 word list \<times> bool" where
  "base64_DecodeString s = base64_groups (filter (\<lambda>c. c \<noteq> CHR 0x0A \<and> c \<noteq> CHR 0x0D) s)"

section \<open>BinaryData\<close>

text \<open>
  \<open>json.Marshal\<close> of a string and \<open>json.Unmarshal\<close> into a string are arguments: functions between
  strings and JSON texts.  \<open>UnmarshalJSON\<close> returns the value left in \<open>*b\<close> and its result.
\<close>

definition BinaryData_MarshalJSON :: "(string \<Rightarrow> go_error + 'j) \<Rightarrow> 8 word list \<Rightarrow> go_error + 'j" where
  "BinaryData_MarshalJSON marshal b = marshal (CHR 0x00 # base64_encode b)"

definition BinaryData_UnmarshalJSON ::
  "('j \<Rightarrow> go_error + string) \<Rightarrow> 'j \<Rightarrow> 8 word list \<Rightarrow> 8 word list \<times> unit go_result" where
  "BinaryData_UnmarshalJSON unmarshal arr b =
     (case unmarshal arr of
        Inl err \<Rightarrow> (b, Ok ())
      | Inr s \<Rightarrow>
          if s = [] then (b, Panic)
          else if hd s \<noteq> CHR 0x00 then (b, Err ''Not a binary string, doesn't start with a NUL'')
          else (case base64_DecodeString (tl s) of
                  (bs, ok) \<Rightarrow> (bs, if ok then Ok () else Err ''illegal base64 data'')))"

section \<open>Facts\<close>

lemma b64_alphabet: "length b64_alphabet = 64" "distinct b64_alphabet"
  by (simp_all add: b64_alphabet_def)

lemma b64_value_char [simp]: "n < 64 \<Longrightarrow> b64_value (b64_char n) = Some n"
  unfolding b64_value_def b64_char_def
  using map_of_zip_nth [of b64_alphabet "[0..<64]" n] b64_alphabet by simp

lemma b64_value_pad [simp]: "b64_value CHR ''='' = None"
  by (simp add: b64_value_def map_of_zip_is_None b64_alphabet) (simp add: b64_alphabet_def)

lemma byte_bounds:
  "unat (a :: 8 word) div 4 < 64" "unat a mod 4 * 16 < 64" "unat a mod 16 * 4 < 64"
  "unat a div 16 < 16" "unat a div 64 < 4" "unat a mod 64 < 64"
  "unat a mod 4 * 16 + unat (b :: 8 word) div 16 < 64" "unat a mod 16 * 4 + unat b div 64 < 64"
proof -
  have a: "unat a < 256" and b: "unat b < 256"
    using unsigned_less [of a, where ?'a = nat] unsigned_less [of b, where ?'a = nat] by simp_all
  have m: "unat a mod 4 < 4" "unat a mod 16 < 16" by simp_all
  show q: "unat a div 4 < 64" "unat a div 16 < 16" "unat a div 64 < 4" "unat a mod 64 < 64"
    using a by (simp_all add: div_less_iff_less_mult)
  have "unat b div 16 < 16" "unat b div 64 < 4"
    using b by (simp_all add: div_less_iff_less_mult)
  with m show "unat a mod 4 * 16 < 64" "unat a mod 16 * 4 < 64"
    "unat a mod 4 * 16 + unat b div 16 < 64" "unat a mod 16 * 4 + unat b div 64 < 64"
    by linarith+
qed

lemma b64_bytes_of:
  "b64_bytes (unat a div 4) (unat a mod 4 * 16 + unat b div 16) (unat b mod 16 * 4 + unat c div 64) (unat c mod 64)
     = [a, b, c]" for a b c :: "8 word"
proof -
  have d: "unat b div 16 < 16" "unat c div 64 < 4" by (rule byte_bounds)+
  have y: "(unat a mod 4 * 16 + unat b div 16) div 16 = unat a mod 4"
    "(unat a mod 4 * 16 + unat b div 16) mod 16 = unat b div 16"
    "(unat b mod 16 * 4 + unat c div 64) div 4 = unat b mod 16"
    "(unat b mod 16 * 4 + unat c div 64) mod 4 = unat c div 64"
    using d by simp_all
  have e: "unat a div 4 * 4 + unat a mod 4 = unat a" "unat b div 16 * 16 + unat b mod 16 = unat b"
    "unat c div 64 * 64 + unat c mod 64 = unat c"
    by simp_all
  show ?thesis by (simp only: b64_bytes_def y e) simp
qed

lemma base64_groups_encode: "base64_groups (base64_encode bs) = (bs, True)"
proof (induction bs rule: base64_encode.induct)
  case (2 a)
  then show ?case using b64_bytes_of [of a 0 0] by (simp add: byte_bounds)
next
  case (3 a b)
  then show ?case using b64_bytes_of [of a b 0] by (simp add: byte_bounds)
next
  case (4 a b c rest)
  then show ?case by (simp add: byte_bounds b64_bytes_of)
qed simp

lemma b64_char_no_break: "n < 64 \<Longrightarrow> b64_char n \<noteq> CHR 0x0A \<and> b64_char n \<noteq> CHR 0x0D"
proof -
  assume "n < 64"
  then have "b64_char n \<in> set b64_alphabet" by (simp add: b64_char_def b64_alphabet)
  then show ?thesis by (auto simp: b64_alphabet_def)
qed

lemma filter_base64_encode:
  "filter (\<lambda>c. c \<noteq> CHR 0x0A \<and> c \<noteq> CHR 0x0D) (base64_encode bs) = base64_encode bs"
  by (induction bs rule: base64_encode.induct) (simp_all add: b64_char_no_break byte_bounds)

lemma base64_roundtrip: "base64_DecodeString (base64_encode bs) = (bs, True)"
  by (simp only: base64_DecodeString_def filter_base64_encode base64_groups_encode)

section \<open>Properties of BinaryData\<close>

text \<open>
  Binary data survives: whatever bytes are marshalled, unmarshalling the resulting JSON text
  gives the same bytes and no error, for every JSON text layer that reads back the strings it
  writes.
\<close>

theorem binary_roundtrip:
  assumes "BinaryData_MarshalJSON marshal bs = Inr j" and "\<And>s j. marshal s = Inr j \<Longrightarrow> unmarshal j = Inr s"
  shows "BinaryData_UnmarshalJSON unmarshal j b = (bs, Ok ())"
  using assms(2) [OF assms(1) [unfolded BinaryData_MarshalJSON_def]]
  by (simp add: BinaryData_UnmarshalJSON_def base64_roundtrip)

theorem binary_roundtrip_witness:
  "BinaryData_UnmarshalJSON Inr (CHR 0x00 # ''aGVsbG8='') [] = ([104, 101, 108, 108, 111], Ok ())"
  by (rule binary_roundtrip [where marshal = Inr])
     (simp_all add: BinaryData_MarshalJSON_def b64_char_def b64_alphabet_def)

text \<open>
  Unmarshalling is not total: the empty JSON string makes it index an empty string and panic,
  and a JSON value that is not a string is accepted without error and leaves the bytes as they were.
\<close>

theorem binary_unmarshal_defects:
  assumes "unmarshal j0 = Inr []" and "unmarshal j1 = Inl err"
  shows "snd (BinaryData_UnmarshalJSON unmarshal j0 b) = Panic
    \<and> BinaryData_UnmarshalJSON unmarshal j1 b = (b, Ok ())"
  using assms by (simp add: BinaryData_UnmarshalJSON_def)

theorem binary_unmarshal_defects_witness:
  "snd (BinaryData_UnmarshalJSON (\<lambda>j. if j then Inr [] else Inl ''not a string'') True [1]) = Panic"
  using binary_unmarshal_defects [of "\<lambda>j. if j then Inr [] else Inl ''not a string''" True False "''not a string''" "[1]"]
  by simp

end
