(* ===== verification/Serialize_Props.thy ===== *)
theory Serialize_Props
  imports Wire_Codec Base64 "HOL-Library.Log_Nat"
begin

text \<open>
  What \<open>encoding/json\<close> makes of the values of a message (\<open>json_view\<close>), and the properties of
  the serializers: what a message becomes on the wire and what comes back of it.
\<close>

section \<open>Values through JSON\<close>

text \<open>
  The double nearest to a natural number, ties to even: numbers come back as \<open>float64\<close>.
\<close>

definition round_double :: "nat \<Rightarrow> nat" where
  "round_double n =
     (let e = 2 ^ (floorlog 2 n - 53); q = n div e; r = n mod e
      in (if 2 * r > e \<or> (2 * r = e \<and> odd q) then q + 1 else q) * e)"

definition json_num :: "int \<Rightarrow> rat" where
  "json_num x = (if x < 0 then - of_nat (round_double (nat (- x))) else of_nat (round_double (nat x)))"

text \<open>
  A value after \<open>Marshal\<close> and \<open>Unmarshal\<close> into an \<open>interface{}\<close>; nil maps, slices and pointers are
  \<open>null\<close>.  \<open>map[interface{}]interface{}\<close> cannot be marshalled.
\<close>

primrec json_view :: "gval \<Rightarrow> gval" where
  "json_view VNil = VNil"
| "json_view (VBool b) = VBool b"
| "json_view (VInt w) = VFloat64 (json_num (sint w))"
| "json_view (VInt64 w) = VFloat64 (json_num (sint w))"
| "json_view (VUint8 w) = VFloat64 (json_num (uint w))"
| "json_view (VUint64 w) = VFloat64 (json_num (uint w))"
| "json_view (VFloat64 q) = VFloat64 q"
| "json_view (VString s) = VString s"
| "json_view (VBytes bs) = VString (base64_encode bs)"
| "json_view (VURI s) = VString s"
| "json_view (VID w) = VFloat64 (json_num (uint w))"
| "json_view (VMsgType w) = VFloat64 (json_num (sint w))"
| "json_view VStruct0 = VDict (Some fmempty)"
| "json_view (VSlice x) = (case map_option (map json_view) x of None \<Rightarrow> VNil | Some l \<Rightarrow> VSlice (Some l))"
| "json_view (VStrings ss) = VSlice (Some (map VString ss))"
| "json_view (VDict x) = (case map_option (fmmap json_view) x of None \<Rightarrow> VNil | Some m \<Rightarrow> VDict (Some m))"
| "json_view (VIMap kvs) = VNil"
| "json_view (VTyped n v) = json_view v"
| "json_view (VPtr x) = (case map_option json_view x of None \<Rightarrow> VNil | Some v \<Rightarrow> v)"

text \<open>
  The values \<open>Marshal\<close> accepts and whose strings and keys it keeps (it replaces bytes that are not
  UTF-8; ASCII text is kept).
\<close>

definition ascii :: "string \<Rightarrow> bool" where
  "ascii s \<longleftrightarrow> list_all (\<lambda>c. of_char c < (128 :: nat)) s"

primrec json_ok :: "gval \<Rightarrow> bool" where
  "json_ok VNil = True"
| "json_ok (VBool b) = True"
| "json_ok (VInt w) = True"
| "json_ok (VInt64 w) = True"
| "json_ok (VUint8 w) = True"
| "json_ok (VUint64 w) = True"
| "json_ok (VFloat64 q) = True"
| "json_ok (VString s) = ascii s"
| "json_ok (VBytes bs) = True"
| "json_ok (VURI s) = ascii s"
| "json_ok (VID w) = True"
| "json_ok (VMsgType w) = True"
| "json_ok VStruct0 = True"
| "json_ok (VSlice x) = (case map_option (map json_ok) x of None \<Rightarrow> True | Some l \<Rightarrow> list_all id l)"
| "json_ok (VStrings ss) = list_all ascii ss"
| "json_ok (VDict x) = (case map_option (fmmap json_ok) x of None \<Rightarrow> True
     | Some m \<Rightarrow> fBall (fmdom m) (\<lambda>k. ascii k \<and> fmlookup m k = Some True))"
| "json_ok (VIMap kvs) = False"
| "json_ok (VTyped n v) = json_ok v"
| "json_ok (VPtr x) = (case map_option json_ok x of None \<Rightarrow> True | Some b \<Rightarrow> b)"

text \<open>A field of a message through JSON, back in the field's type.\<close>

fun json_field :: "gval \<Rightarrow> gval" where
  "json_field (VDict d) = VDict (map_option (fmmap json_view) d)"
| "json_field (VSlice l) = VSlice (map_option (map json_view) l)"
| "json_field v = v"

definition json_message :: "message \<Rightarrow> message" where
  "json_message m = set_fields m (map json_field (field_values m))"

text \<open>An identifier or code small enough for a double to hold it.\<close>

fun exact_field :: "gval \<Rightarrow> bool" where
  "exact_field (VID w) = (unat w \<le> 2 ^ 53)"
| "exact_field (VMsgType w) = (\<bar>sint w\<bar> \<le> 2 ^ 53)"
| "exact_field _ = True"

lemma round_double_exact: "n \<le> 2 ^ 53 \<Longrightarrow> round_double n = n"
proof (cases "n = 2 ^ 53")
  case True
  have "floorlog 2 (2 ^ 53) = 54" by (simp add: floorlog_eq_zero_iff compute_floorlog)
  with True show ?thesis by (simp add: round_double_def)
next
  case False
  assume "n \<le> 2 ^ 53"
  with False have "floorlog 2 n \<le> 53" by (intro floorlog_leI) auto
  then show ?thesis by (simp add: round_double_def)
qed

lemma trunc_minus: "trunc (- q) = - trunc q"
  by (auto simp: trunc_def)

lemma trunc_json_num: "\<bar>x\<bar> \<le> 2 ^ 53 \<Longrightarrow> trunc (json_num x) = x"
proof -
  assume "\<bar>x\<bar> \<le> 2 ^ 53"
  then have "x \<le> 2 ^ 53" "- x \<le> 2 ^ 53" by linarith+
  then have "nat (- x) \<le> 2 ^ 53" "nat x \<le> 2 ^ 53" by (simp_all add: nat_le_iff)
  then have r: "round_double (nat (- x)) = nat (- x)" "round_double (nat x) = nat x"
    using round_double_exact by blast+
  show ?thesis
    unfolding json_num_def r by (simp only: trunc_minus trunc_of_nat split: if_split) simp
qed

lemma to_uint64_view:
  assumes "unat w \<le> 2 ^ 53"
  shows "to_uint64 p (VFloat64 (json_num (uint w))) = w"
proof -
  have "int (unat w) \<le> int (2 ^ 53)" using assms by (simp only: of_nat_le_iff)
  then have "\<bar>uint w\<bar> \<le> 2 ^ 53" by simp
  then show ?thesis by (intro to_uint64_float trunc_json_num)
qed

lemma to_int64_view: "\<bar>sint w\<bar> \<le> 2 ^ 53 \<Longrightarrow> to_int64 p (VFloat64 (json_num (sint w))) = w"
  by (rule to_int64_float) (rule trunc_json_num)

section \<open>Fields and messages through JSON\<close>

lemma json_field_type: "type_of (json_field v) = type_of v"
  by (cases v) simp_all

lemma json_field_len: "gval_len (json_field v) = gval_len v"
proof (cases v)
  case (VSlice l)
  then show ?thesis by (cases l) simp_all
next
  case (VDict d)
  then show ?thesis by (cases d) simp_all
qed simp_all

lemma apply_field_json:
  assumes "T \<in> {TURI, TID, TMsgType, TString, TDict, TSlice}" and "type_of v = T" and "exact_field v"
    and "f \<in> set zero_values" and "type_of f = T"
  shows "apply_field p i T f (json_view v) = Ok (json_field v)"
proof (cases v)
  case (VID w)
  then show ?thesis
    using assms by (auto simp: apply_field_def assignable_def convertible_def int_types_def convert_to_def to_uint64_view)
next
  case (VMsgType w)
  then show ?thesis
    using assms by (auto simp: apply_field_def assignable_def convertible_def int_types_def convert_to_def to_int64_view)
next
  case (VSlice l)
  then show ?thesis
    using assms by (cases l) (auto simp: apply_field_def assignable_def zero_values_def)
next
  case (VDict d)
  then show ?thesis
    using assms by (cases d) (auto simp: apply_field_def assignable_def zero_values_def)
qed (use assms in \<open>auto simp: apply_field_def assignable_def convertible_def int_types_def convert_to_def\<close>)

text \<open>JSON is a codec of the wire for values with exact numbers.\<close>

interpretation json: wire_codec exact_field json_view json_field
  by unfold_locales (rule apply_field_json json_field_type json_field_len; assumption)+

lemma json_message_wire: "json_message m = json.wire_message m"
  by (simp add: json_message_def json.wire_message_def)

text \<open>A message through the text layer, stated for its own list of values.\<close>

lemma json_carried:
  assumes "list_all exact_field (field_values m)" and "unmarshal b = Inr (map json_view (toList m))"
  shows "JSON_Deserialize p unmarshal b = Ok (omit_empty (json_message m))"
proof -
  have "\<bar>sint (MessageType_of m)\<bar> \<le> 2 ^ 53"
    by (cases m) (simp_all add: mtypes)
  then have "to_int64 p (VFloat64 (json_num (sint (MessageType_of m)))) = MessageType_of m"
    by (rule to_int64_view)
  then show ?thesis
    using json.apply_message_wire [OF assms(1), of p "VFloat64 (json_num (sint (MessageType_of m)))"] assms(2)
    by (simp add: JSON_Deserialize_def toList_n_sent json_message_wire)
qed

section \<open>Maps of msgpack\<close>

definition string_key :: "gval \<Rightarrow> bool" where
  "string_key k \<longleftrightarrow> (\<exists>s. k = VString s)"

lemma convert_string_key: "go_convert p (RVal (VString s)) TString = Ok (RVal (VString s))"
  by (simp add: go_convert_def assignable_def)

lemma convert_int_key: "go_convert p (RVal (VInt64 n)) TString = Ok (RVal (VString (utf8_of (sint n))))"
  by (simp add: go_convert_def assignable_def convertible_def int_types_def convert_to_def)

lemma convert_zero: "go_convert p RZero T = Panic"
  by (simp add: go_convert_def)

lemma convert_iface: "go_convert p (RIface v) TIface = Ok (RIface v)"
  by (simp add: go_convert_def assignable_def)

lemma applyMap_strings:
  assumes "\<forall>k \<in> set ks. string_key k \<and> map_of src k \<noteq> None"
  shows "\<exists>d. applyMap_loop p src ks dst = Ok d
    \<and> (\<forall>s. fmlookup d s = (if VString s \<in> set ks then map_of src (VString s) else fmlookup dst s))"
  using assms
proof (induction ks arbitrary: dst)
  case Nil
  then show ?case by simp
next
  case (Cons k ks)
  then obtain s v where k: "k = VString s" "map_of src (VString s) = Some v"
    by (auto simp: string_key_def)
  obtain d where "applyMap_loop p src ks (fmupd s v dst) = Ok d"
    "\<forall>s'. fmlookup d s' = (if VString s' \<in> set ks then map_of src (VString s') else fmlookup (fmupd s v dst) s')"
    using Cons by fastforce
  with k show ?case by (auto simp: convert_string_key convert_iface)
qed

text \<open>An integer key whose conversion to a string is not a key makes the loop panic.\<close>

definition lost_key :: "(gval \<times> gval) list \<Rightarrow> gval \<Rightarrow> bool" where
  "lost_key src k \<longleftrightarrow> (\<exists>n. k = VInt64 n \<and> map_of src (VString (utf8_of (sint n))) = None)"

lemma applyMap_int_panic:
  assumes "\<forall>k \<in> set ks. string_key k \<and> map_of src k \<noteq> None \<or> (\<exists>n. k = VInt64 n)"
    and "\<exists>k \<in> set ks. lost_key src k"
  shows "applyMap_loop p src ks dst = Panic"
  using assms
proof (induction ks arbitrary: dst)
  case Nil
  then show ?case by simp
next
  case (Cons k ks)
  show ?case
  proof (cases "lost_key src k")
    case True
    then obtain n where "k = VInt64 n" "map_of src (VString (utf8_of (sint n))) = None"
      by (auto simp: lost_key_def)
    then show ?thesis by (simp add: convert_int_key convert_zero)
  next
    case False
    have IH: "applyMap_loop p src ks dst' = Panic" for dst'
      using Cons False by auto
    from Cons.prems(1) consider s v where "k = VString s" "map_of src k = Some v" | n where "k = VInt64 n"
      by (auto simp: string_key_def)
    then show ?thesis
    proof cases
      case (1 s v)
      then show ?thesis by (simp add: convert_string_key convert_iface IH)
    next
      case (2 n)
      with False obtain v where "map_of src (VString (utf8_of (sint n))) = Some v"
        by (auto simp: lost_key_def)
      with 2 show ?thesis by (simp add: convert_int_key convert_iface IH)
    qed
  qed
qed

lemma apply_field_map:
  "apply_field p i TDict f (VIMap kvs) = applyMap p (VIMap kvs)"
  by (simp add: apply_field_def assignable_def convertible_def int_types_def)

text \<open>The values \<open>json.Unmarshal\<close> produces at the top of an array.\<close>

fun json_value :: "gval \<Rightarrow> bool" where
  "json_value VNil = True"
| "json_value (VBool _) = True"
| "json_value (VFloat64 _) = True"
| "json_value (VString _) = True"
| "json_value (VSlice (Some _)) = True"
| "json_value (VDict (Some _)) = True"
| "json_value _ = False"

lemma apply_field_no_panic:
  assumes "T \<in> {TURI, TID, TMsgType, TString, TDict, TSlice}" and "json_value a"
  shows "apply_field p i T f a \<noteq> Panic"
  using assms
  by (cases a rule: json_value.cases)
     (auto simp: apply_field_def assignable_def convertible_def int_types_def)

lemma apply_loop_no_panic:
  assumes "set Ts \<subseteq> {TURI, TID, TMsgType, TString, TDict, TSlice}" and "list_all json_value as"
  shows "apply_loop p i Ts fs as \<noteq> Panic"
  using assms
proof (induction p i Ts fs as rule: apply_loop.induct)
  case (1 p i T Ts f fs a as)
  have "apply_field p i T f a \<noteq> Panic"
    using 1(2,3) by (intro apply_field_no_panic) auto
  then show ?case using 1 by (auto split: go_result.splits)
qed simp_all

section \<open>Properties of the serializers\<close>

text \<open>
  \<open>apply\<close> undoes \<open>toList\<close>: from the list of values of a message it rebuilds the message, for
  every message of every type, except that trailing empty arguments, which \<open>toList\<close> omits, come
  back nil.
\<close>

theorem apply_toList: "apply_message p (MessageType_of m) (toList m) = Ok (omit_empty m)"
proof -
  have "apply_loop p 0 (field_types m) (field_values (New_of m)) (take (n_sent m) (field_values m)) =
      Ok (take (n_sent m) (field_values m) @ drop (n_sent m) (field_values (New_of m)))"
    using field_types_ok [of m] field_types_range [of m]
    by (intro apply_loop_same) (auto simp: New_of_fields)
  then show ?thesis
    using set_fields_omit [of m]
    by (simp add: apply_message_def New_of New_of_fields toList_n_sent)
qed

text \<open>
  C25. Round trip through JSON: if the text layer returns what was written (with every value as JSON
  represents it), then a message whose identifiers are at most \<open>2 ^ 53\<close> comes back as the same
  message with its identifiers, codes and URIs unchanged, its dictionaries and argument lists as
  JSON represents them, and its trailing empty arguments nil.
\<close>

theorem json_roundtrip:
  assumes "list_all exact_field (field_values m)" and "list_all json_ok (toList m)"
    and "JSON_Serialize marshal m = Inr b"
    and "\<And>xs b. list_all json_ok xs \<Longrightarrow> marshal xs = Inr b \<Longrightarrow> unmarshal b = Inr (map json_view xs)"
  shows "JSON_Deserialize p unmarshal b = Ok (omit_empty (json_message m))"
  by (rule json_carried [OF assms(1)]) (use assms(2-4) in \<open>simp add: JSON_Serialize_def\<close>)

theorem json_roundtrip_witness:
  "JSON_Deserialize demo_platform (\<lambda>b. Inr b) [VFloat64 33, VFloat64 5, VFloat64 7] =
     Ok (MSubscribed \<lparr>Subscribed_Request = 5, Subscribed_Subscription = 7\<rparr>)"
proof -
  let ?m = "MSubscribed \<lparr>Subscribed_Request = 5, Subscribed_Subscription = 7\<rparr>"
  have "JSON_Serialize (\<lambda>xs. Inr (map json_view xs)) ?m = Inr [VFloat64 33, VFloat64 5, VFloat64 7]"
    by (simp add: JSON_Serialize_def toList_def mtypes json_num_def round_double_exact)
  from json_roundtrip [OF _ _ this, where unmarshal = Inr and p = demo_platform]
  show ?thesis by (simp add: toList_def json_message_def)
qed

text \<open>
  Larger identifiers do not survive JSON: \<open>2 ^ 53 + 1\<close> comes back as \<open>2 ^ 53\<close>, so two
  subscriptions with these identifiers are one to a JSON client.
\<close>

theorem json_large_id:
  assumes "JSON_Serialize marshal (MSubscribed \<lparr>Subscribed_Request = 1, Subscribed_Subscription = 2 ^ 53 + 1\<rparr>) = Inr b"
    and "\<And>xs b. list_all json_ok xs \<Longrightarrow> marshal xs = Inr b \<Longrightarrow> unmarshal b = Inr (map json_view xs)"
  shows "JSON_Deserialize p unmarshal b =
    Ok (MSubscribed \<lparr>Subscribed_Request = 1, Subscribed_Subscription = 2 ^ 53\<rparr>)"
proof -
  have l: "toList (MSubscribed \<lparr>Subscribed_Request = 1, Subscribed_Subscription = 2 ^ 53 + 1\<rparr>) =
      [VInt 33, VID 1, VID (2 ^ 53 + 1)]"
    by (simp add: toList_def mtypes)
  have r: "round_double (2 ^ 53 + 1) = 2 ^ 53"
    by (simp add: round_double_def compute_floorlog)
  have "marshal [VInt 33, VID 1, VID (2 ^ 53 + 1)] = Inr b"
    using assms(1) unfolding JSON_Serialize_def l .
  then have u: "unmarshal b = Inr (map json_view [VInt 33, VID 1, VID (2 ^ 53 + 1)])"
    by (rule assms(2) [rotated]) simp
  have n: "json_num 9007199254740993 = 9007199254740992" "json_num 33 = 33" "json_num 1 = 1"
    using r by (simp_all add: json_num_def round_double_exact)
  have t: "trunc 9007199254740992 = 9007199254740992" "trunc 1 = 1" "trunc 33 = 33"
    using trunc_of_int [of 9007199254740992] trunc_of_int [of 1] trunc_of_int [of 33] by simp_all
  have w: "to_uint64 p (VFloat64 9007199254740992) = 9007199254740992" "to_uint64 p (VFloat64 1) = 1"
    "to_int64 p (VFloat64 33) = 33"
    by (simp_all add: to_uint64_def to_int64_def t)
  show ?thesis
    using w by (simp add: JSON_Deserialize_def u n apply_message_def MessageType_New_def mtypes
        apply_field_def assignable_def convertible_def int_types_def convert_to_def)
qed

theorem json_large_id_witness:
  "JSON_Deserialize demo_platform Inr (map json_view [VInt 33, VID 1, VID (2 ^ 53 + 1)]) =
     Ok (MSubscribed \<lparr>Subscribed_Request = 1, Subscribed_Subscription = 2 ^ 53\<rparr>)"
  by (rule json_large_id [where marshal = "\<lambda>xs. Inr (map json_view xs)"])
     (simp_all add: JSON_Serialize_def toList_def mtypes)

text \<open>
  A JSON message never makes the deserializer panic: an array of values of the shapes
  \<open>json.Unmarshal\<close> produces gives a message or an error, whatever its code, length and contents.
\<close>

theorem json_no_panic:
  assumes "unmarshal data = Inr arr" and "list_all json_value arr"
  shows "JSON_Deserialize p unmarshal data \<noteq> Panic"
proof -
  have "apply_message p mt arr \<noteq> Panic" for mt
    using apply_loop_no_panic [OF field_types_range, of "tl arr"] assms(2)
    by (cases arr) (auto simp: apply_message_def split: option.splits go_result.splits)
  then show ?thesis
    using assms(1) by (auto simp: JSON_Deserialize_def split: gval.splits)
qed

theorem json_no_panic_witness:
  "JSON_Deserialize demo_platform (\<lambda>_. Inr [VFloat64 1, VDict (Some fmempty), VSlice (Some [VNil])]) () \<noteq> Panic"
  by (rule json_no_panic [where arr = "[VFloat64 1, VDict (Some fmempty), VSlice (Some [VNil])]"]) simp_all

text \<open>
  Dictionaries through msgpack: a decoded map whose keys are strings becomes the dictionary with
  the same entries.
\<close>

theorem msgpack_dict:
  assumes "\<forall>k \<in> fst ` set kvs. string_key k" and "distinct (map fst kvs)"
  shows "\<exists>d. apply_field p i TDict f (VIMap kvs) = Ok (VDict (Some d))
    \<and> (\<forall>s v. fmlookup d s = Some v \<longleftrightarrow> (VString s, v) \<in> set kvs)"
proof -
  have "\<forall>k \<in> set (map fst kvs). string_key k \<and> map_of kvs k \<noteq> None"
    using assms(1) by (auto simp: map_of_eq_None_iff)
  from applyMap_strings [OF this, of p fmempty]
  obtain d where d: "applyMap_loop p kvs (map fst kvs) fmempty = Ok d"
    "\<forall>s. fmlookup d s = (if VString s \<in> set (map fst kvs) then map_of kvs (VString s) else None)"
    by auto
  have "fmlookup d s = Some v \<longleftrightarrow> (VString s, v) \<in> set kvs" for s v
    using d(2) map_of_eq_Some_iff [OF assms(2), of "VString s" v] by force
  with d(1) show ?thesis by (auto simp: apply_field_map applyMap_def)
qed

theorem msgpack_dict_witness:
  "\<exists>d. apply_field demo_platform 1 TDict (VDict None) (VIMap [(VString ''a'', VInt64 1), (VString ''b'', VNil)]) = Ok (VDict (Some d))
     \<and> fmlookup d ''a'' = Some (VInt64 1)"
  using msgpack_dict [of "[(VString ''a'', VInt64 1), (VString ''b'', VNil)]" demo_platform 1 "VDict None"]
  by (auto simp: string_key_def)

text \<open>
  A msgpack peer can crash the process before it has authenticated: a HELLO whose details have an
  integer among their string keys, with no key equal to that number's one-character string, makes the
  deserializer panic (the converted key is looked up in the source map, where it is not).
\<close>

theorem msgpack_int_key_panics:
  assumes "decode data = Inr [VInt64 HELLO, VBytes realm, VIMap kvs]"
    and "\<forall>k \<in> fst ` set kvs. string_key k \<or> (\<exists>n. k = VInt64 n)"
    and "\<exists>k \<in> fst ` set kvs. lost_key kvs k"
  shows "MessagePack_Deserialize p decode data = Panic"
proof -
  have "applyMap_loop p kvs (map fst kvs) fmempty = Panic"
    by (rule applyMap_int_panic) (use assms(2,3) in \<open>auto simp: map_of_eq_None_iff\<close>)
  then have "apply_field p 1 TDict (VDict None) (VIMap kvs) = Panic"
    by (simp add: apply_field_map applyMap_def)
  then show ?thesis
    by (simp add: MessagePack_Deserialize_def assms(1) apply_message_def MessageType_New_def
        apply_field_def [where T = TURI] assignable_def convertible_def)
qed

theorem msgpack_int_key_panics_witness:
  "MessagePack_Deserialize demo_platform (\<lambda>_. Inr [VInt64 HELLO, VBytes [], VIMap [(VInt64 1, VNil)]]) () = Panic"
  by (rule msgpack_int_key_panics [where realm = "[]" and kvs = "[(VInt64 1, VNil)]"])
     (simp_all add: lost_key_def)

text \<open>
  Missing fields are not noticed: an array that holds nothing but a known message code is
  accepted as the message of that type with every field zero.
\<close>

theorem code_alone_accepted:
  assumes "mt \<in> set known_types"
  shows "\<exists>m. apply_message p mt [v] = Ok m \<and> MessageType_New mt = Some m"
proof -
  obtain m where m: "MessageType_New mt = Some m" using assms MessageType_New_Some_iff by blast
  have "apply_loop p 0 (field_types m) (field_values m) [] = Ok (field_values m)"
    by (cases "field_types m"; cases "field_values m") simp_all
  with m set_fields_values [of m m] show ?thesis by (simp add: apply_message_def)
qed

theorem code_alone_accepted_witness:
  "\<exists>m. apply_message demo_platform SUBSCRIBED [VFloat64 33] = Ok m"
  using code_alone_accepted [of SUBSCRIBED] by (auto simp: known_types_def)

end
