(* ===== verification/Serialize_Types.thy ===== *)
theory Serialize_Types
  imports Serialize_Props
begin

text \<open>
  Type soundness of the deserializers: a list of values of whatever dynamic types either is refused
  or gives the message of the code it starts with, every field holding a value of the field's type.
\<close>

lemma convert_to_type:
  "T \<in> {TURI, TID, TMsgType, TString} \<Longrightarrow> type_of (convert_to p T v) = T"
  by (auto simp: convert_to_def)

lemma convertible_scalar:
  "convertible V T \<Longrightarrow> \<not> assignable V T \<Longrightarrow> T \<in> {TURI, TID, TMsgType, TString, TDict, TSlice} \<Longrightarrow>
   T \<in> {TURI, TID, TMsgType, TString}"
  by (auto simp: convertible_def int_types_def)

lemma applyMap_type: "applyMap p a = Ok v \<Longrightarrow> type_of v = TDict"
  by (auto simp: applyMap_def split: go_result.splits)

lemma applySlice_type: "applySlice p a = Ok v \<Longrightarrow> type_of v = TSlice"
  by (auto simp: applySlice_def split: go_result.splits)

lemma kind_map_slice:
  "T \<in> {TURI, TID, TMsgType, TString, TDict, TSlice} \<Longrightarrow> kind_of T = KMap \<Longrightarrow> T = TDict"
  "T \<in> {TURI, TID, TMsgType, TString, TDict, TSlice} \<Longrightarrow> kind_of T = KSlice \<Longrightarrow> T = TSlice"
  by auto

text \<open>The part of \<open>apply_field\<close> after a pointer has been followed.\<close>

definition set_value :: "platform \<Rightarrow> nat \<Rightarrow> gotype \<Rightarrow> gval \<Rightarrow> gval go_result" where
  "set_value p i T v = (let V = type_of v in
     if assignable V T then Ok v
     else if convertible V T then Ok (convert_to p T v)
     else if kind_of T \<noteq> kind_of V then
       Err (''Message format error: '' @ decimal (i + 1) @ ''th field not recognizable, got ''
            @ type_name V @ '', expected '' @ type_name T)
     else if kind_of T = KMap then applyMap p v
     else if kind_of T = KSlice then applySlice p v
     else Err (''Message format error: '' @ decimal (i + 1) @ ''th field not recognizable''))"

lemma apply_field_set_value:
  "apply_field p i T f a = (case a of VNil \<Rightarrow> Ok f | VPtr None \<Rightarrow> Panic | VPtr (Some v) \<Rightarrow> set_value p i T v
     | _ \<Rightarrow> set_value p i T a)"
  by (cases a) (simp_all add: apply_field_def set_value_def Let_def split: option.split)

lemma set_value_type:
  assumes T: "T \<in> {TURI, TID, TMsgType, TString, TDict, TSlice}" and ok: "set_value p i T v = Ok r"
  shows "type_of r = T"
proof (cases "assignable (type_of v) T")
  case True
  then have "type_of v = T" using T by (auto simp: assignable_def)
  with True ok show ?thesis by (simp add: set_value_def)
next
  case na: False
  show ?thesis
  proof (cases "convertible (type_of v) T")
    case True
    with na ok have "r = convert_to p T v" by (simp add: set_value_def)
    with convert_to_type [OF convertible_scalar [OF True na T]] show ?thesis by simp
  next
    case False
    with na ok have "kind_of T = KMap \<and> applyMap p v = Ok r \<or> kind_of T = KSlice \<and> applySlice p v = Ok r"
      by (simp add: set_value_def Let_def split: if_splits)
    with applyMap_type applySlice_type kind_map_slice [OF T] show ?thesis by metis
  qed
qed

lemma apply_field_type:
  assumes "T \<in> {TURI, TID, TMsgType, TString, TDict, TSlice}" and "type_of f = T"
    and "apply_field p i T f a = Ok r"
  shows "type_of r = T"
  using assms(2,3) set_value_type [OF assms(1), of p i _ r]
  by (auto simp: apply_field_set_value split: gval.splits option.splits)

lemma apply_loop_type:
  assumes "set Ts \<subseteq> {TURI, TID, TMsgType, TString, TDict, TSlice}"
    and "list_all2 (\<lambda>T v. type_of v = T) Ts fs" and "apply_loop p i Ts fs as = Ok vs"
  shows "list_all2 (\<lambda>T v. type_of v = T) Ts vs"
  using assms
proof (induction p i Ts fs as arbitrary: vs rule: apply_loop.induct)
  case (1 p i T Ts f fs a as)
  from 1(4) obtain v vs' where v: "apply_field p i T f a = Ok v" "apply_loop p (Suc i) Ts fs as = Ok vs'"
    "vs = v # vs'" by (auto split: go_result.splits)
  have "type_of v = T" using apply_field_type [OF _ _ v(1)] 1(2,3) by auto
  moreover have "list_all2 (\<lambda>T v. type_of v = T) Ts vs'" using 1(1) [OF v(1) _ _ v(2)] 1(2,3) by auto
  ultimately show ?case by (simp add: v(3))
qed auto

lemma apply_message_typed:
  assumes "apply_message p mt arr = Ok m"
  shows "MessageType_of m = mt
    \<and> apply_loop p 0 (field_types m) (field_values (New_of m)) (tl arr) = Ok (field_values m)
    \<and> list_all2 (\<lambda>T v. type_of v = T) (field_types m) (field_values m)"
proof -
  from assms obtain z vs where z: "MessageType_New mt = Some z"
    "apply_loop p 0 (field_types z) (field_values z) (tl arr) = Ok vs" "m = set_fields z vs"
    by (auto simp: apply_message_def split: option.splits go_result.splits)
  have t: "list_all2 (\<lambda>T v. type_of v = T) (field_types z) vs"
    by (rule apply_loop_type [OF field_types_range field_types_ok z(2)])
  have mt: "MessageType_of z = mt" using z(1) by (auto simp: MessageType_New_def split: if_splits)
  have m: "MessageType_of m = mt" "field_values m = vs" using set_fields_typed [OF t] z(3) mt by simp_all
  then have "New_of m = z" using z(1) by (simp add: New_of_def)
  with m z(2) t field_types_of [of m z] mt show ?thesis by simp
qed

section \<open>Property\<close>

text \<open>
  C27. Deserializing is type sound, for both formats: if a decoded array gives a message at all, the
  array began with a number that is the message's code, and every field holds what the loop of
  \<open>apply\<close> computed for it, a value of the field's declared type.
\<close>

theorem deserialized_typed:
  assumes "JSON_Deserialize p decode data = Ok m \<or> MessagePack_Deserialize p decode data = Ok m"
  shows "\<exists>code arr. decode data = Inr (code # arr)
    \<and> (code = VInt64 (MessageType_of m)
       \<or> (\<exists>q. code = VFloat64 q \<and> to_int64 p (VFloat64 q) = MessageType_of m))
    \<and> apply_loop p 0 (field_types m) (field_values (New_of m)) arr = Ok (field_values m)
    \<and> list_all2 (\<lambda>T v. type_of v = T) (field_types m) (field_values m)"
proof -
  from assms obtain code arr mt where d: "decode data = Inr (code # arr)" "apply_message p mt (code # arr) = Ok m"
    and c: "code = VInt64 mt \<or> (\<exists>q. code = VFloat64 q \<and> to_int64 p (VFloat64 q) = mt)"
    by (auto simp: JSON_Deserialize_def MessagePack_Deserialize_def neq_Nil_conv
        split: sum.splits if_splits gval.splits)
  from apply_message_typed [OF d(2)] d(1) c show ?thesis by auto
qed

theorem deserialized_typed_witness:
  "\<exists>code arr. (Inr [VFloat64 33, VFloat64 5, VFloat64 7] :: string + gval list) = Inr (code # arr)
     \<and> apply_loop demo_platform 0 [TID, TID] [VID 0, VID 0] arr = Ok [VID 5, VID 7]"
proof -
  have "JSON_Deserialize demo_platform (\<lambda>_. Inr [VFloat64 33, VFloat64 5, VFloat64 7]) () =
      Ok (MSubscribed \<lparr>Subscribed_Request = 5, Subscribed_Subscription = 7\<rparr>)"
    by code_simp
  from deserialized_typed [OF disjI1 [OF this]] show ?thesis
    by (auto simp: New_of_def mtypes MessageType_New_def)
qed

end
