(* ===== verification/Router.thy ===== *)
theory Router
  imports Realm "HOL-Library.Char_ord" "HOL-Library.List_Lexorder"
begin

text \<open>
  \<^verbatim>\<open>router.go\<close>: the realms by URI, the admission of a new peer, local peers and
  shutdown.  \<open>router_Accept\<close> is a function of the router's state and of what the peer does; its
  effects on the peer, the sessions it starts and the callbacks it launches are a list, in the
  order of the code.  A callback is a function the program passes in, known here by a number.
\<close>

type_synonym callback = nat

record defaultRouter =
  realms :: "(URI, Realm) fmap"
  closing :: bool
  sessionOpenCallbacks :: "callback list"
  sessionCloseCallbacks :: "callback list"

definition NewDefaultRouter :: defaultRouter where
  "NewDefaultRouter = \<lparr>realms = fmempty, closing = False, sessionOpenCallbacks = [],
     sessionCloseCallbacks = []\<rparr>"

text \<open>The error types of the package; \<open>GoError\<close> is a plain \<open>error\<close> with its text.\<close>

datatype router_error =
    GoError go_error
  | RealmExistsError URI
  | NoSuchRealmError URI
  | AuthenticationError string

fun router_error_Error :: "router_error \<Rightarrow> string" where
  "router_error_Error (GoError e) = e"
| "router_error_Error (RealmExistsError e) = ''realm exists: '' @ e"
| "router_error_Error (NoSuchRealmError e) = ''no such realm: '' @ e"
| "router_error_Error (AuthenticationError e) = ''authentication error: '' @ e"

definition AddSessionOpenCallback :: "callback \<Rightarrow> defaultRouter \<Rightarrow> defaultRouter" where
  "AddSessionOpenCallback fn r = r\<lparr>sessionOpenCallbacks := sessionOpenCallbacks r @ [fn]\<rparr>"

definition AddSessionCloseCallback :: "callback \<Rightarrow> defaultRouter \<Rightarrow> defaultRouter" where
  "AddSessionCloseCallback fn r = r\<lparr>sessionCloseCallbacks := sessionCloseCallbacks r @ [fn]\<rparr>"

definition RegisterRealm :: "URI \<Rightarrow> RealmConfig \<Rightarrow> defaultRouter \<Rightarrow> router_error + defaultRouter" where
  "RegisterRealm uri realm r =
     (case fmlookup (realms r) uri of
        Some _ \<Rightarrow> Inl (RealmExistsError uri)
      | None \<Rightarrow> Inr (r\<lparr>realms := fmupd uri (Realm_init realm) (realms r)\<rparr>))"

text \<open>\<open>Close\<close>: the new state, the realms whose \<open>Close\<close> is called in order, the result.\<close>

definition router_Close ::
  "(URI fset \<Rightarrow> URI list) \<Rightarrow> defaultRouter \<Rightarrow> defaultRouter \<times> URI list \<times> router_error option" where
  "router_Close ord r =
     (if closing r then (r, [], Some (GoError ''already closed''))
      else (r\<lparr>closing := True\<rparr>, ord (fmdom (realms r)), None))"

text \<open>\<open>getPeer\<close>: the session of an internal peer.\<close>

definition Realm_getPeer :: "64 word \<Rightarrow> dict \<Rightarrow> Session" where
  "Realm_getPeer draw details =
     \<lparr>Session_Id = NewID draw,
      Session_Details = (case details of None \<Rightarrow> dict_make | Some _ \<Rightarrow> details)\<rparr>"

definition GetLocalPeer :: "64 word \<Rightarrow> URI \<Rightarrow> dict \<Rightarrow> defaultRouter \<Rightarrow> router_error + Session" where
  "GetLocalPeer draw realmURI details r =
     (case fmlookup (realms r) realmURI of
        None \<Rightarrow> Inl (NoSuchRealmError realmURI)
      | Some realm \<Rightarrow> Inr (Realm_getPeer draw details))"

section \<open>Accept\<close>

datatype effect =
    Sends message
  | ClosesPeer
  | Callback callback Session string
  | StartsSession Session URI

datatype accept_result = Accepted Session | Refused router_error | Panics

definition defaultWelcomeDetails :: "(string \<times> gval) list" where
  "defaultWelcomeDetails =
     [(''roles'', VTyped ''map[string]struct {}''
         (VDict (Some (fmupd ''broker'' VStruct0 (fmupd ''dealer'' VStruct0 fmempty)))))]"

fun add_defaults :: "(string \<times> gval) list \<Rightarrow> dict \<Rightarrow> dict" where
  "add_defaults [] d = d"
| "add_defaults ((k, v) # kvs) d =
     add_defaults kvs (case dict_get d k of None \<Rightarrow> dict_set k v d | Some _ \<Rightarrow> d)"

definition welcome_details :: "dict \<Rightarrow> dict" where
  "welcome_details d =
     add_defaults defaultWelcomeDetails (case d of None \<Rightarrow> dict_make | Some _ \<Rightarrow> d)"

definition session_details :: "ID \<Rightarrow> URI \<Rightarrow> dict \<Rightarrow> dict" where
  "session_details i realm d = dict_set ''realm'' (VURI realm) (dict_set ''session'' (VID i) d)"

definition abort :: "dict \<Rightarrow> URI \<Rightarrow> effect list" where
  "abort details reason = [Sends (MAbort \<lparr>Abort_Details = details, Abort_Reason = reason\<rparr>), ClosesPeer]"

definition ErrProtocolViolation :: URI where
  "ErrProtocolViolation = ''wamp.error.protocol_violation''"

text \<open>The last part of \<open>Accept\<close>: the peer has been authenticated with \<open>welcome\<close>.\<close>

definition accept_welcome ::
  "defaultRouter \<Rightarrow> (message \<Rightarrow> go_error option) \<Rightarrow> 64 word \<Rightarrow> URI \<Rightarrow> Welcome \<Rightarrow>
   effect list \<times> accept_result" where
  "accept_welcome r send draw realm welcome =
     (let welcome = welcome\<lparr>Welcome_Id := NewID draw,
                            Welcome_Details := welcome_details (Welcome_Details welcome)\<rparr>
      in case send (MWelcome welcome) of
           Some err \<Rightarrow> ([Sends (MWelcome welcome)], Refused (GoError err))
         | None \<Rightarrow>
             (let sess = \<lparr>Session_Id = Welcome_Id welcome,
                          Session_Details = session_details (Welcome_Id welcome) realm (Welcome_Details welcome)\<rparr>
              in (Sends (MWelcome welcome)
                    # map (\<lambda>cb. Callback cb sess realm) (sessionOpenCallbacks r)
                    @ [StartsSession sess realm],
                  Accepted sess)))"

text \<open>
  \<open>rd1\<close> and \<open>rd2\<close> are the outcomes of the two waits for a message: the HELLO and, if the realm
  challenges the peer, the response.
\<close>

definition router_Accept ::
  "defaultRouter \<Rightarrow> (message \<Rightarrow> go_error option) \<Rightarrow> peer_read \<Rightarrow> peer_read \<Rightarrow> 64 word \<Rightarrow>
   effect list \<times> accept_result" where
  "router_Accept r send rd1 rd2 draw =
     (if closing r
      then (abort None ErrSystemShutdown,
            Refused (GoError ''Router is closing, no new connections are allowed''))
      else case GetMessageTimeout rd1 of
        Inl err \<Rightarrow> ([], Refused (GoError err))
      | Inr (MHello hello) \<Rightarrow>
          (case fmlookup (realms r) (Hello_Realm hello) of
             None \<Rightarrow> (abort None ErrNoSuchRealm, Refused (NoSuchRealmError (Hello_Realm hello)))
           | Some realm \<Rightarrow>
               (case handleAuth realm send rd2 (Hello_Details hello) of
                  (out, Err err) \<Rightarrow>
                    (map Sends out
                       @ abort (Some (fmupd ''error'' (VString err) fmempty)) ErrAuthorizationFailed,
                     Refused (AuthenticationError err))
                | (out, Panic) \<Rightarrow> (map Sends out, Panics)
                | (out, Ok welcome) \<Rightarrow>
                    (let (effs, res) = accept_welcome r send draw (Hello_Realm hello) welcome
                     in (map Sends out @ effs, res))))
      | Inr msg \<Rightarrow>
          (abort None ErrProtocolViolation,
           Refused (GoError (''protocol violation: expected HELLO, received ''
                             @ the (MessageType_String (MessageType_of msg))))))"

text \<open>
  What the goroutine of an accepted session does once \<open>handleSession\<close> has returned.
\<close>

definition session_end :: "defaultRouter \<Rightarrow> Session \<Rightarrow> URI \<Rightarrow> effect list" where
  "session_end r sess realm =
     ClosesPeer # map (\<lambda>cb. Callback cb sess realm) (sessionCloseCallbacks r)"

section \<open>Lemmas\<close>

lemma add_defaults_get:
  "dict_get (add_defaults kvs d) k =
     (case dict_get d k of Some v \<Rightarrow> Some v | None \<Rightarrow> map_of kvs k)"
  by (induction kvs d rule: add_defaults.induct) (auto split: option.splits)

lemma welcome_details_get:
  "dict_get (welcome_details d) k =
     (case dict_get d k of Some v \<Rightarrow> Some v | None \<Rightarrow> map_of defaultWelcomeDetails k)"
  by (cases d) (simp_all add: welcome_details_def add_defaults_get)

lemma accept_welcome_cases:
  obtains (ok) w sess where "accept_welcome r send draw realm w0 =
      (Sends (MWelcome w) # map (\<lambda>cb. Callback cb sess realm) (sessionOpenCallbacks r)
         @ [StartsSession sess realm], Accepted sess)"
    "w = w0\<lparr>Welcome_Id := NewID draw, Welcome_Details := welcome_details (Welcome_Details w0)\<rparr>"
    "sess = \<lparr>Session_Id = NewID draw,
             Session_Details = session_details (NewID draw) realm (Welcome_Details w)\<rparr>"
    "send (MWelcome w) = None"
  | (bad) w err where "accept_welcome r send draw realm w0 = ([Sends (MWelcome w)], Refused (GoError err))"
    "send (MWelcome w) = Some err"
proof (cases "send (MWelcome (w0\<lparr>Welcome_Id := NewID draw,
      Welcome_Details := welcome_details (Welcome_Details w0)\<rparr>))")
  case None
  then show ?thesis by (intro ok [OF _ refl refl]) (simp_all add: accept_welcome_def Let_def)
next
  case (Some err)
  then show ?thesis by (intro bad [where err = err]) (auto simp: accept_welcome_def Let_def)
qed

text \<open>The path of \<open>Accept\<close> on an open router, for a HELLO to a known realm.\<close>

lemma Accept_hello:
  assumes "\<not> closing r" "fmlookup (realms r) (Hello_Realm hello) = Some realm"
  shows "router_Accept r send (Got (MHello hello)) rd2 draw =
    (case handleAuth realm send rd2 (Hello_Details hello) of
       (out, Err err) \<Rightarrow>
         (map Sends out @ abort (Some (fmupd ''error'' (VString err) fmempty)) ErrAuthorizationFailed,
          Refused (AuthenticationError err))
     | (out, Panic) \<Rightarrow> (map Sends out, Panics)
     | (out, Ok welcome) \<Rightarrow>
         (let (effs, res) = accept_welcome r send draw (Hello_Realm hello) welcome
          in (map Sends out @ effs, res)))"
  unfolding router_Accept_def Let_def using assms by simp

lemma Accept_Accepted:
  assumes "router_Accept r send rd1 rd2 draw = (effs, Accepted sess)"
  obtains hello realm out w0 w where
    "\<not> closing r" "rd1 = Got (MHello hello)" "fmlookup (realms r) (Hello_Realm hello) = Some realm"
    "handleAuth realm send rd2 (Hello_Details hello) = (out, Ok w0)"
    "w = w0\<lparr>Welcome_Id := NewID draw, Welcome_Details := welcome_details (Welcome_Details w0)\<rparr>"
    "sess = \<lparr>Session_Id = NewID draw,
             Session_Details = session_details (NewID draw) (Hello_Realm hello) (Welcome_Details w)\<rparr>"
    "effs = map Sends out @ Sends (MWelcome w)
       # map (\<lambda>cb. Callback cb sess (Hello_Realm hello)) (sessionOpenCallbacks r)
       @ [StartsSession sess (Hello_Realm hello)]"
proof -
  have open_r: "\<not> closing r" using assms by (auto simp: router_Accept_def split: if_splits)
  obtain msg where rd: "rd1 = Got msg"
    using assms open_r by (cases rd1) (simp_all add: router_Accept_def)
  then obtain hello where "msg = MHello hello"
    using assms open_r by (cases msg) (simp_all add: router_Accept_def)
  with rd have h: "rd1 = Got (MHello hello)" by simp
  obtain realm where rl: "fmlookup (realms r) (Hello_Realm hello) = Some realm"
    using assms open_r h by (cases "fmlookup (realms r) (Hello_Realm hello)") (simp_all add: router_Accept_def)
  obtain out res where a: "handleAuth realm send rd2 (Hello_Details hello) = (out, res)" by fastforce
  then obtain w0 where w0: "res = Ok w0"
    using assms Accept_hello [OF open_r rl, of send rd2 draw] h by (cases res) auto
  show ?thesis
  proof (cases rule: accept_welcome_cases [of r send draw "Hello_Realm hello" w0])
    case (ok w s)
    with assms Accept_hello [OF open_r rl, of send rd2 draw] h a w0 show ?thesis
      by (intro that [OF open_r h rl]) auto
  next
    case (bad w err)
    with assms Accept_hello [OF open_r rl, of send rd2 draw] h a w0 show ?thesis by simp
  qed
qed

lemma handleAuth_sends:
  "set (fst (handleAuth r send rd details)) \<subseteq> range MChallenge"
proof (cases "authenticate r details")
  case (Inr msg)
  with authenticate_reply [OF Inr] show ?thesis
    by (auto simp: handleAuth_def split: option.splits)
qed (simp add: handleAuth_def)

lemma session_details_get:
  "dict_get (session_details i realm d) k =
     (if k = ''realm'' then Some (VURI realm) else if k = ''session'' then Some (VID i) else dict_get d k)"
  by (simp add: session_details_def)

section \<open>Properties of the router\<close>

text \<open>
  C3. Admission: when \<open>Accept\<close> starts a session, the router was open, the first message was a
  HELLO for a registered realm and that realm's handshake succeeded; the peer was sent the
  handshake's messages and then one WELCOME with the new session's identifier, every open callback
  was launched, in order, for that session and realm, and one session was started.  The session's
  details are the authenticator's, then the default ones where those are silent, with \<open>session\<close>
  and \<open>realm\<close> set to its identifier and realm.
\<close>

theorem accept_sound:
  assumes "router_Accept r send rd1 rd2 draw = (effs, Accepted sess)"
  shows "\<exists>hello realm out w0 w. \<not> closing r \<and> rd1 = Got (MHello hello)
    \<and> fmlookup (realms r) (Hello_Realm hello) = Some realm
    \<and> handleAuth realm send rd2 (Hello_Details hello) = (out, Ok w0)
    \<and> effs = map Sends out @ Sends (MWelcome w)
        # map (\<lambda>cb. Callback cb sess (Hello_Realm hello)) (sessionOpenCallbacks r)
        @ [StartsSession sess (Hello_Realm hello)]
    \<and> Welcome_Id w = Session_Id sess \<and> Session_Id sess = NewID draw
    \<and> (\<forall>k. dict_get (Session_Details sess) k =
         (if k = ''realm'' then Some (VURI (Hello_Realm hello))
          else if k = ''session'' then Some (VID (Session_Id sess))
          else case dict_get (Welcome_Details w0) k of
                 Some v \<Rightarrow> Some v | None \<Rightarrow> map_of defaultWelcomeDetails k))"
  using assms
proof (cases rule: Accept_Accepted)
  case (1 hello realm out w0 w)
  then show ?thesis
    by (intro exI [of _ hello] exI [of _ realm] exI [of _ out] exI [of _ w0] exI [of _ w])
       (simp add: session_details_get welcome_details_get)
qed

text \<open>A router for the witnesses, with the ticket realm.\<close>

definition demo_router :: defaultRouter where
  "demo_router = NewDefaultRouter\<lparr>realms := fmupd ''realm1'' (Realm_init ticket_config) fmempty,
     sessionOpenCallbacks := [1]\<rparr>"

definition hello_to :: "URI \<Rightarrow> dict \<Rightarrow> peer_read" where
  "hello_to realm details = Got (MHello \<lparr>Hello_Realm = realm, Hello_Details = details\<rparr>)"

lemma demo_router_simps [simp]:
  "\<not> closing demo_router" "fmlookup (realms demo_router) u = (if u = ''realm1'' then Some (Realm_init ticket_config) else None)"
  "sessionOpenCallbacks demo_router = [1]"
  by (simp_all add: demo_router_def NewDefaultRouter_def)

lemma demo_handleAuth:
  "handleAuth (Realm_init ticket_config) (\<lambda>_. None) (signed ''t'') (offer [''ticket'']) =
     ([MChallenge \<lparr>Challenge_AuthMethod = ''ticket'', Challenge_Extra = dict_make\<rparr>],
      Ok \<lparr>Welcome_Id = 0, Welcome_Details = addAuthMethod None ''ticket''\<rparr>)"
  by (simp add: handleAuth_def authenticate_def offer_authmethods ticket_Challenge signed_def
      checkResponse_def ticket_Authenticate)

lemma demo_accept:
  "\<exists>effs sess. router_Accept demo_router (\<lambda>_. None) (hello_to ''realm1'' (offer [''ticket'']))
     (signed ''t'') 9 = (effs, Accepted sess)"
  by (simp add: hello_to_def Accept_hello [where realm = "Realm_init ticket_config"] demo_handleAuth
      accept_welcome_def Let_def)

theorem accept_sound_witness:
  "\<exists>effs sess. router_Accept demo_router (\<lambda>_. None) (hello_to ''realm1'' (offer [''ticket'']))
     (signed ''t'') 9 = (effs, Accepted sess) \<and> Session_Id sess = 9
     \<and> dict_get (Session_Details sess) ''session'' = Some (VID 9)"
proof -
  obtain effs sess where a: "router_Accept demo_router (\<lambda>_. None)
      (hello_to ''realm1'' (offer [''ticket''])) (signed ''t'') 9 = (effs, Accepted sess)"
    using demo_accept by blast
  from accept_sound [OF a] a show ?thesis by (auto simp: NewID_id)
qed

text \<open>
  C33. \<open>Accept\<close> never panics, and a refused peer leaves nothing behind in the router: no session is
  started and no callback launched.  The peer is sent an ABORT and closed, except in two cases in
  which \<open>Accept\<close> returns with the connection left open: no first message came, or sending the
  WELCOME failed.
\<close>

theorem accept_refused:
  assumes "router_Accept r send rd1 rd2 draw = (effs, res)" and "\<forall>sess. res \<noteq> Accepted sess"
  shows "res \<noteq> Panics \<and> (\<forall>x \<in> set effs. \<exists>m. x = Sends m \<or> x = ClosesPeer)
    \<and> ((\<exists>pre details reason. effs = pre @ abort details reason)
       \<or> effs = [] \<and> rd1 \<in> {ReadClosed, ReadTimeout}
       \<or> (\<exists>pre w err. effs = pre @ [Sends (MWelcome w)] \<and> send (MWelcome w) = Some err))"
proof (cases "closing r")
  case True
  with assms(1) show ?thesis by (auto simp: router_Accept_def abort_def)
next
  case open_r: False
  show ?thesis
  proof (cases "\<exists>hello realm. rd1 = Got (MHello hello) \<and> fmlookup (realms r) (Hello_Realm hello) = Some realm")
    case False
    then have "res \<noteq> Panics \<and> (effs = [] \<and> rd1 \<in> {ReadClosed, ReadTimeout}
        \<or> (\<exists>details reason. effs = abort details reason))"
      using assms(1) open_r
      by (cases rd1) (auto simp: router_Accept_def split: message.splits option.splits)
    then show ?thesis by (auto simp: abort_def)
  next
    case True
    then obtain hello realm where h: "rd1 = Got (MHello hello)"
      "fmlookup (realms r) (Hello_Realm hello) = Some realm" by blast
    obtain out ares where a: "handleAuth realm send rd2 (Hello_Details hello) = (out, ares)" by fastforce
    have np: "ares \<noteq> Panic" using handleAuth_no_panic [of realm send rd2 "Hello_Details hello"] a by simp
    note acc = assms(1) [unfolded h(1) Accept_hello [OF open_r h(2)] a]
    show ?thesis
    proof (cases ares)
      case (Err err)
      with acc show ?thesis by (auto simp: abort_def)
    next
      case (Ok w0)
      show ?thesis
      proof (cases rule: accept_welcome_cases [of r send draw "Hello_Realm hello" w0])
        case (ok w s)
        with acc Ok assms(2) show ?thesis by auto
      next
        case (bad w err)
        with acc Ok show ?thesis by auto
      qed
    qed (use np in simp)
  qed
qed

theorem accept_refused_witness:
  "snd (router_Accept demo_router (\<lambda>_. None) (hello_to ''realm2'' None) ReadClosed 9) \<noteq> Panics"
proof -
  have "router_Accept demo_router (\<lambda>_. None) (hello_to ''realm2'' None) ReadClosed 9 =
      (abort None ErrNoSuchRealm, Refused (NoSuchRealmError ''realm2''))"
    by (simp add: router_Accept_def hello_to_def)
  with accept_refused [OF this] show ?thesis by simp
qed

text \<open>
  Ticket login, end to end: a peer whose HELLO names a realm with only a ticket authenticator
  and offers \<open>ticket\<close>, and to which everything can be sent, is accepted exactly when its answer to
  the challenge is an AUTHENTICATE whose signature is one of the tickets.
\<close>

theorem ticket_accept:
  assumes "\<not> closing r" and "fmlookup (realms r) (Hello_Realm hello) = Some realm"
    and "CRAuthenticators realm = fmupd ''ticket'' (NewBasicTicketAuthenticator ts) fmempty"
    and "Authenticators realm = fmempty" and "details_authmethods (Hello_Details hello) = Some vs"
    and "VString ''ticket'' \<in> set vs" and "\<And>m. send m = None"
  shows "(\<exists>sess. snd (router_Accept r send (Got (MHello hello)) rd2 draw) = Accepted sess) \<longleftrightarrow>
    (\<exists>a. rd2 = Got (MAuthenticate a) \<and> Authenticate_Signature a \<in> set ts)"
proof -
  obtain out res where a: "handleAuth realm send rd2 (Hello_Details hello) = (out, res)" by fastforce
  have "(\<exists>sess. snd (router_Accept r send (Got (MHello hello)) rd2 draw) = Accepted sess) \<longleftrightarrow> (\<exists>w. res = Ok w)"
    unfolding Accept_hello [OF assms(1,2)] a
    by (cases res) (simp_all add: accept_welcome_def assms(7) Let_def)
  with ticket_handshake [OF assms(3-6), where send = send and rd = rd2, OF assms(7)] a show ?thesis by simp
qed

theorem ticket_accept_witness:
  "\<not> (\<exists>sess. snd (router_Accept demo_router (\<lambda>_. None) (hello_to ''realm1'' (offer [''ticket'']))
        (signed ''wrong'') 9) = Accepted sess)"
  using ticket_accept [of demo_router "\<lparr>Hello_Realm = ''realm1'', Hello_Details = offer [''ticket'']\<rparr>"
      "Realm_init ticket_config" "[''t'']" "[VString ''ticket'']" "\<lambda>_. None" "signed ''wrong''" 9]
  by (simp add: offer_authmethods hello_to_def signed_def)

text \<open>
  Closing is final and happens once: the first \<open>Close\<close> closes every realm exactly once; after
  it \<open>Close\<close> fails and changes nothing, and \<open>Accept\<close> turns every peer away with an ABORT before
  reading from it, whatever the peer does.
\<close>

theorem router_close_final:
  assumes "\<not> closing r" and "map_order ord"
  shows "case router_Close ord r of (r', cl, err) \<Rightarrow>
    err = None \<and> distinct cl \<and> set cl = fset (fmdom (realms r)) \<and> realms r' = realms r
    \<and> router_Close ord r' = (r', [], Some (GoError ''already closed''))
    \<and> router_Accept r' send rd1 rd2 draw =
        (abort None ErrSystemShutdown,
         Refused (GoError ''Router is closing, no new connections are allowed''))"
  using assms by (simp add: router_Close_def router_Accept_def)

theorem router_close_final_witness:
  "snd (router_Accept (fst (router_Close sorted_list_of_fset demo_router)) (\<lambda>_. None)
     (hello_to ''realm1'' (offer [''ticket''])) (signed ''t'') 9) =
   Refused (GoError ''Router is closing, no new connections are allowed'')"
  using router_close_final [OF demo_router_simps(1) map_order_sorted,
      of "\<lambda>_. None" "hello_to ''realm1'' (offer [''ticket''])" "signed ''t''" 9]
  by (simp add: case_prod_beta)

end
