(* ===== verification/Client.thy ===== *)
theory Client
  imports Router Go_Reflect
begin

text \<open>
  \<^verbatim>\<open>client.go\<close>.  A client's goroutine \<open>run\<close> executes the functions sent to \<open>acts\<close> one
  after the other: it alone touches \<open>listeners\<close>, \<open>events\<close> and \<open>procedures\<close>, so each of these
  functions is one definition on the record \<open>Client\<close>.  A request method has two halves, between
  which anything may happen to the client: it registers a listener and sends its message, then it
  waits and handles what the wait ends with (\<open>peer_read\<close>: the reply, a closed listener or the
  time-out).  A listener is a channel with room for one message; \<open>listeners\<close> maps request
  identifiers to channel numbers and \<open>l_buf\<close> holds what is in them.
\<close>

type_synonym AuthFunc = "dict \<Rightarrow> dict \<Rightarrow> go_error + string \<times> dict"
type_synonym EventHandler = nat
type_synonym MethodHandler = "glist \<Rightarrow> dict \<Rightarrow> dict \<Rightarrow> CallResult"

record eventDesc =
  ev_topic :: string
  ev_handler :: EventHandler

record procedureDesc =
  proc_name :: string
  proc_handler :: MethodHandler

record Client =
  Auth :: "(string, AuthFunc) fmap"
  listeners :: "(ID, nat) fmap"
  l_buf :: "nat \<Rightarrow> message option"
  events :: "(ID, eventDesc) fmap"
  client_procedures :: "(ID, procedureDesc) fmap"

definition NewClient :: Client where
  "NewClient = \<lparr>Auth = fmempty, listeners = fmempty, l_buf = (\<lambda>_. None), events = fmempty,
     client_procedures = fmempty\<rparr>"

section \<open>Fixed messages and error texts\<close>

definition abortUnexpectedMsg :: message where
  "abortUnexpectedMsg = MAbort \<lparr>Abort_Details = dict_make,
     Abort_Reason = ''turnpike.error.unexpected_message_type''\<rparr>"

definition abortNoAuthHandler :: message where
  "abortNoAuthHandler = MAbort \<lparr>Abort_Details = dict_make,
     Abort_Reason = ''turnpike.error.no_handler_for_authmethod''\<rparr>"

definition abortAuthFailure :: message where
  "abortAuthFailure = MAbort \<lparr>Abort_Details = dict_make,
     Abort_Reason = ''turnpike.error.authentication_failure''\<rparr>"

definition goodbyeClient :: message where
  "goodbyeClient = MGoodbye \<lparr>Goodbye_Details = dict_make, Goodbye_Reason = ErrCloseRealm\<rparr>"

definition client_role :: "string \<Rightarrow> (string, gval) fmap \<Rightarrow> (string, gval) fmap" where
  "client_role r m = fmupd r (VDict dict_make) m"

definition clientRoles :: gval where
  "clientRoles = VTyped ''map[string]map[string]interface {}''
     (VDict (Some (client_role ''publisher'' (client_role ''subscriber''
        (client_role ''callee'' (client_role ''caller'' fmempty))))))"

text \<open>The keys of a map are visited in the order \<open>ord\<close>.\<close>

type_synonym key_order = "string fset \<Rightarrow> string list"

definition formatUnknownMap :: "platform \<Rightarrow> key_order \<Rightarrow> dict \<Rightarrow> string" where
  "formatUnknownMap p ord d =
     (case d of None \<Rightarrow> []
      | Some m \<Rightarrow> concat (map (\<lambda>k. '' '' @ k @ ''='' @ fmt_v p (the (fmlookup m k))) (ord (fmdom m))))"

definition formatUnexpectedMessage :: "platform \<Rightarrow> key_order \<Rightarrow> message \<Rightarrow> MessageType \<Rightarrow> string" where
  "formatUnexpectedMessage p ord msg expected =
     (let s = ''received unexpected '' @ the (MessageType_String (MessageType_of msg))
              @ '' message while waiting for '' @ the (MessageType_String expected)
      in case msg of
           MAbort m \<Rightarrow> s @ '': '' @ Abort_Reason m @ formatUnknownMap p ord (Abort_Details m)
         | MGoodbye m \<Rightarrow> s @ '': '' @ Goodbye_Reason m @ formatUnknownMap p ord (Goodbye_Details m)
         | _ \<Rightarrow> s)"

section \<open>Joining and leaving a realm\<close>

datatype client_effect = CSends message | CPeerClose | CActsClose | CStartReceive

definition give_up :: "client_effect list" where
  "give_up = [CPeerClose, CActsClose]"

text \<open>The end of both forms of joining: a WELCOME is expected.\<close>

definition await_welcome ::
  "platform \<Rightarrow> key_order \<Rightarrow> peer_read \<Rightarrow> client_effect list \<times> (go_error + dict)" where
  "await_welcome p ord rd =
     (case GetMessageTimeout rd of
        Inl err \<Rightarrow> (give_up, Inl err)
      | Inr (MWelcome w) \<Rightarrow> ([CStartReceive], Inr (Welcome_Details w))
      | Inr msg \<Rightarrow> (CSends abortUnexpectedMsg # give_up, Inl (formatUnexpectedMessage p ord msg WELCOME)))"

definition joinRealmCRA ::
  "platform \<Rightarrow> key_order \<Rightarrow> Client \<Rightarrow> (message \<Rightarrow> go_error option) \<Rightarrow> peer_read \<Rightarrow> peer_read \<Rightarrow> string \<Rightarrow> dict \<Rightarrow>
   client_effect list \<times> (go_error + dict)" where
  "joinRealmCRA p ord c send rd1 rd2 realm details =
     (let details = dict_set ''authmethods'' (VSlice (Some (map VString (ord (fmdom (Auth c)))))) details;
          hello = MHello \<lparr>Hello_Realm = realm, Hello_Details = details\<rparr>
      in case send hello of
           Some err \<Rightarrow> (CSends hello # give_up, Inl err)
         | None \<Rightarrow>
             (case GetMessageTimeout rd1 of
                Inl err \<Rightarrow> (CSends hello # give_up, Inl err)
              | Inr (MChallenge challenge) \<Rightarrow>
                  (case fmlookup (Auth c) (Challenge_AuthMethod challenge) of
                     None \<Rightarrow> (CSends hello # CSends abortNoAuthHandler # give_up,
                              Inl (''no auth handler for method: '' @ Challenge_AuthMethod challenge))
                   | Some authFunc \<Rightarrow>
                       (case authFunc details (Challenge_Extra challenge) of
                          Inl err \<Rightarrow> (CSends hello # CSends abortAuthFailure # give_up, Inl err)
                        | Inr (signature, authDetails) \<Rightarrow>
                            (let a = MAuthenticate \<lparr>Authenticate_Signature = signature,
                                                    Authenticate_Extra = authDetails\<rparr>
                             in case send a of
                                  Some err \<Rightarrow> (CSends hello # CSends a # give_up, Inl err)
                                | None \<Rightarrow>
                                    (let (effs, res) = await_welcome p ord rd2
                                     in (CSends hello # CSends a # effs, res)))))
              | Inr msg \<Rightarrow> (CSends hello # CSends abortUnexpectedMsg # give_up,
                            Inl (formatUnexpectedMessage p ord msg CHALLENGE))))"

definition JoinRealm ::
  "platform \<Rightarrow> key_order \<Rightarrow> Client \<Rightarrow> (message \<Rightarrow> go_error option) \<Rightarrow> peer_read \<Rightarrow> peer_read \<Rightarrow> string \<Rightarrow> dict \<Rightarrow>
   client_effect list \<times> (go_error + dict)" where
  "JoinRealm p ord c send rd1 rd2 realm details =
     (let details = dict_set ''roles'' clientRoles details
      in if Auth c \<noteq> fmempty then joinRealmCRA p ord c send rd1 rd2 realm details
         else (let hello = MHello \<lparr>Hello_Realm = realm, Hello_Details = details\<rparr>
               in case send hello of
                    Some err \<Rightarrow> (CSends hello # give_up, Inl err)
                  | None \<Rightarrow> (let (effs, res) = await_welcome p ord rd1 in (CSends hello # effs, res))))"

definition LeaveRealm :: "(message \<Rightarrow> go_error option) \<Rightarrow> client_effect list \<times> go_error option" where
  "LeaveRealm send =
     ([CSends goodbyeClient],
      case send goodbyeClient of None \<Rightarrow> None | Some err \<Rightarrow> Some (''error leaving realm: '' @ err))"

definition client_Close ::
  "(message \<Rightarrow> go_error option) \<Rightarrow> go_error option \<Rightarrow> client_effect list \<times> go_error option" where
  "client_Close send close =
     (case LeaveRealm send of
        (effs, Some err) \<Rightarrow> (effs, Some err)
      | (effs, None) \<Rightarrow>
          (effs @ [CPeerClose],
           case close of None \<Rightarrow> None | Some err \<Rightarrow> Some (''error closing client connection: '' @ err)))"

section \<open>Listeners\<close>

definition registerListener :: "nat \<Rightarrow> ID \<Rightarrow> Client \<Rightarrow> Client" where
  "registerListener ch i c = c\<lparr>listeners := fmupd i ch (listeners c), l_buf := (l_buf c)(ch := None)\<rparr>"

text \<open>
  \<open>notifyListener\<close> writes the message into the listener's channel; with the channel full the
  write blocks, and with it the whole of \<open>Receive\<close>: then the result is \<open>None\<close>.
\<close>

definition notifyListener :: "message \<Rightarrow> ID \<Rightarrow> Client \<Rightarrow> Client option" where
  "notifyListener msg requestID c =
     (case fmlookup (listeners c) requestID of
        None \<Rightarrow> Some c
      | Some ch \<Rightarrow> (if l_buf c ch = None then Some (c\<lparr>l_buf := (l_buf c)(ch := Some msg)\<rparr>) else None))"

text \<open>
  \<open>waitOnListener\<close>: the channel is looked up at once; \<open>listener_take\<close> reads it when it has a message,
  \<open>listener_end\<close> is the result of the wait and \<open>listener_delete\<close> the act sent afterwards.
\<close>

definition listener_take :: "nat \<Rightarrow> Client \<Rightarrow> (message \<times> Client) option" where
  "listener_take ch c =
     (case l_buf c ch of None \<Rightarrow> None | Some msg \<Rightarrow> Some (msg, c\<lparr>l_buf := (l_buf c)(ch := None)\<rparr>))"

fun listener_end :: "peer_read \<Rightarrow> go_error + message" where
  "listener_end (Got msg) = Inr msg"
| "listener_end ReadClosed = Inl ''listener closed while waiting for message''"
| "listener_end ReadTimeout = Inl ''timeout while waiting for message''"

definition listener_delete :: "ID \<Rightarrow> Client \<Rightarrow> Client" where
  "listener_delete i c = c\<lparr>listeners := fmdrop i (listeners c)\<rparr>"

section \<open>Messages from the router\<close>

text \<open>What handling a message makes the client do besides changing its state.\<close>

datatype client_action =
    CallsHandler EventHandler glist dict
  | SendsReply message

definition handleEvent :: "Event \<Rightarrow> Client \<Rightarrow> client_action list" where
  "handleEvent msg c =
     (case fmlookup (events c) (Event_Subscription msg) of
        Some event \<Rightarrow> [CallsHandler (ev_handler event) (Event_Arguments msg) (Event_ArgumentsKw msg)]
      | None \<Rightarrow> [])"

definition handleInvocation :: "Invocation \<Rightarrow> Client \<Rightarrow> client_action list" where
  "handleInvocation msg c =
     (case fmlookup (client_procedures c) (Invocation_Registration msg) of
        Some proc \<Rightarrow>
          (let result = proc_handler proc (Invocation_Arguments msg) (Invocation_ArgumentsKw msg)
                          (Invocation_Details msg)
           in [SendsReply
                 (if CallResult_Err result \<noteq> []
                  then MError \<lparr>Error_Type = INVOCATION, Error_Request = Invocation_Request msg,
                         Error_Details = dict_make, Error_Error = CallResult_Err result,
                         Error_Arguments = CallResult_Args result,
                         Error_ArgumentsKw = CallResult_Kwargs result\<rparr>
                  else MYield \<lparr>Yield_Request = Invocation_Request msg, Yield_Options = dict_make,
                         Yield_Arguments = CallResult_Args result,
                         Yield_ArgumentsKw = CallResult_Kwargs result\<rparr>)])
      | None \<Rightarrow>
          [SendsReply (MError \<lparr>Error_Type = INVOCATION, Error_Request = Invocation_Request msg,
             Error_Details = dict_make,
             Error_Error = ''no handler for registration: '' @ decimal (unat (Invocation_Registration msg)),
             Error_Arguments = None, Error_ArgumentsKw = None\<rparr>)])"

text \<open>The switch of \<open>Receive\<close>; the \<open>break\<close> of the GOODBYE case leaves the switch only.\<close>

fun client_receive :: "message \<Rightarrow> Client \<Rightarrow> (Client \<times> client_action list) option" where
  "client_receive (MEvent m) c = Some (c, handleEvent m c)"
| "client_receive (MInvocation m) c = Some (c, handleInvocation m c)"
| "client_receive (MRegistered m) c =
     map_option (\<lambda>c. (c, [])) (notifyListener (MRegistered m) (Registered_Request m) c)"
| "client_receive (MSubscribed m) c =
     map_option (\<lambda>c. (c, [])) (notifyListener (MSubscribed m) (Subscribed_Request m) c)"
| "client_receive (MUnsubscribed m) c =
     map_option (\<lambda>c. (c, [])) (notifyListener (MUnsubscribed m) (Unsubscribed_Request m) c)"
| "client_receive (MUnregistered m) c =
     map_option (\<lambda>c. (c, [])) (notifyListener (MUnregistered m) (Unregistered_Request m) c)"
| "client_receive (MResult m) c =
     map_option (\<lambda>c. (c, [])) (notifyListener (MResult m) (Result_Request m) c)"
| "client_receive (MError m) c =
     map_option (\<lambda>c. (c, [])) (notifyListener (MError m) (Error_Request m) c)"
| "client_receive (MGoodbye m) c = Some (c, [])"
| "client_receive _ c = Some (c, [])"

section \<open>Requests\<close>

text \<open>
  The first half of each request: the listener and the message.  The second half takes the result of
  the wait.
\<close>

definition or_make :: "dict \<Rightarrow> dict" where
  "or_make options = (case options of None \<Rightarrow> dict_make | Some _ \<Rightarrow> options)"

definition client_Subscribe :: "64 word \<Rightarrow> nat \<Rightarrow> string \<Rightarrow> dict \<Rightarrow> Client \<Rightarrow> Client \<times> message" where
  "client_Subscribe draw ch topic options c =
     (registerListener ch (NewID draw) c,
      MSubscribe \<lparr>Subscribe_Request = NewID draw, Subscribe_Options = or_make options,
                  Subscribe_Topic = topic\<rparr>)"

definition client_Subscribe_done ::
  "platform \<Rightarrow> key_order \<Rightarrow> string \<Rightarrow> EventHandler \<Rightarrow> peer_read \<Rightarrow> Client \<Rightarrow> Client \<times> go_error option" where
  "client_Subscribe_done p ord topic fn rd c =
     (case listener_end rd of
        Inl err \<Rightarrow> (c, Some err)
      | Inr (MError e) \<Rightarrow>
          (c, Some (''error subscribing to topic '' @ [CHR 0x27] @ topic @ [CHR 0x27] @ '': '' @ Error_Error e))
      | Inr (MSubscribed m) \<Rightarrow>
          (c\<lparr>events := fmupd (Subscribed_Subscription m) \<lparr>ev_topic = topic, ev_handler = fn\<rparr> (events c)\<rparr>, None)
      | Inr msg \<Rightarrow> (c, Some (formatUnexpectedMessage p ord msg SUBSCRIBED)))"

text \<open>The first subscription, in the order of the iteration, whose topic is the given one.\<close>

definition find_event :: "(ID fset \<Rightarrow> ID list) \<Rightarrow> string \<Rightarrow> Client \<Rightarrow> ID option" where
  "find_event ord topic c =
     find (\<lambda>i. case fmlookup (events c) i of Some d \<Rightarrow> ev_topic d = topic | None \<Rightarrow> False)
       (ord (fmdom (events c)))"

definition client_Unsubscribe ::
  "(ID fset \<Rightarrow> ID list) \<Rightarrow> 64 word \<Rightarrow> nat \<Rightarrow> string \<Rightarrow> Client \<Rightarrow> go_error + Client \<times> message" where
  "client_Unsubscribe ord draw ch topic c =
     (case find_event ord topic c of
        None \<Rightarrow> Inl (''Event '' @ topic @ '' is not registered with this client.'')
      | Some subscriptionID \<Rightarrow>
          Inr (registerListener ch (NewID draw) c,
               MUnsubscribe \<lparr>Unsubscribe_Request = NewID draw, Unsubscribe_Subscription = subscriptionID\<rparr>))"

definition client_Unsubscribe_done ::
  "platform \<Rightarrow> key_order \<Rightarrow> string \<Rightarrow> ID \<Rightarrow> peer_read \<Rightarrow> Client \<Rightarrow> Client \<times> go_error option" where
  "client_Unsubscribe_done p ord topic subscriptionID rd c =
     (case listener_end rd of
        Inl err \<Rightarrow> (c, Some err)
      | Inr (MError e) \<Rightarrow>
          (c, Some (''error unsubscribing to topic '' @ [CHR 0x27] @ topic @ [CHR 0x27] @ '': '' @ Error_Error e))
      | Inr (MUnsubscribed m) \<Rightarrow> (c\<lparr>events := fmdrop subscriptionID (events c)\<rparr>, None)
      | Inr msg \<Rightarrow> (c, Some (formatUnexpectedMessage p ord msg UNSUBSCRIBED)))"

definition client_Register :: "64 word \<Rightarrow> nat \<Rightarrow> string \<Rightarrow> dict \<Rightarrow> Client \<Rightarrow> Client \<times> message" where
  "client_Register draw ch procedure options c =
     (registerListener ch (NewID draw) c,
      MRegister \<lparr>Register_Request = NewID draw, Register_Options = options, Register_Procedure = procedure\<rparr>)"

definition client_Register_done ::
  "platform \<Rightarrow> key_order \<Rightarrow> string \<Rightarrow> MethodHandler \<Rightarrow> peer_read \<Rightarrow> Client \<Rightarrow> Client \<times> go_error option" where
  "client_Register_done p ord procedure fn rd c =
     (case listener_end rd of
        Inl err \<Rightarrow> (c, Some err)
      | Inr (MError e) \<Rightarrow>
          (c, Some (''error registering procedure '' @ [CHR 0x27] @ procedure @ [CHR 0x27] @ '': '' @ Error_Error e))
      | Inr (MRegistered m) \<Rightarrow>
          (c\<lparr>client_procedures := fmupd (Registered_Registration m)
               \<lparr>proc_name = procedure, proc_handler = fn\<rparr> (client_procedures c)\<rparr>, None)
      | Inr msg \<Rightarrow> (c, Some (formatUnexpectedMessage p ord msg REGISTERED)))"

text \<open>\<open>BasicRegister\<close> wraps a handler that takes no details.\<close>

definition client_BasicRegister ::
  "64 word \<Rightarrow> nat \<Rightarrow> string \<Rightarrow> Client \<Rightarrow> Client \<times> message" where
  "client_BasicRegister draw ch procedure c = client_Register draw ch procedure dict_make c"

definition basic_handler :: "(glist \<Rightarrow> dict \<Rightarrow> CallResult) \<Rightarrow> MethodHandler" where
  "basic_handler fn args kwargs details = fn args kwargs"

definition find_procedure :: "(ID fset \<Rightarrow> ID list) \<Rightarrow> string \<Rightarrow> Client \<Rightarrow> ID option" where
  "find_procedure ord procedure c =
     find (\<lambda>i. case fmlookup (client_procedures c) i of Some d \<Rightarrow> proc_name d = procedure | None \<Rightarrow> False)
       (ord (fmdom (client_procedures c)))"

definition client_Unregister ::
  "(ID fset \<Rightarrow> ID list) \<Rightarrow> 64 word \<Rightarrow> nat \<Rightarrow> string \<Rightarrow> Client \<Rightarrow> go_error + Client \<times> message" where
  "client_Unregister ord draw ch procedure c =
     (case find_procedure ord procedure c of
        None \<Rightarrow> Inl (''Procedure '' @ procedure @ '' is not registered with this client.'')
      | Some procedureID \<Rightarrow>
          Inr (registerListener ch (NewID draw) c,
               MUnregister \<lparr>Unregister_Request = NewID draw, Unregister_Registration = procedureID\<rparr>))"

definition client_Unregister_done ::
  "platform \<Rightarrow> key_order \<Rightarrow> string \<Rightarrow> ID \<Rightarrow> peer_read \<Rightarrow> Client \<Rightarrow> Client \<times> go_error option" where
  "client_Unregister_done p ord procedure procedureID rd c =
     (case listener_end rd of
        Inl err \<Rightarrow> (c, Some err)
      | Inr (MError e) \<Rightarrow>
          (c, Some (''error unregister to procedure '' @ [CHR 0x27] @ procedure @ [CHR 0x27] @ '': '' @ Error_Error e))
      | Inr (MUnregistered m) \<Rightarrow> (c\<lparr>client_procedures := fmdrop procedureID (client_procedures c)\<rparr>, None)
      | Inr msg \<Rightarrow> (c, Some (formatUnexpectedMessage p ord msg UNREGISTERED)))"

text \<open>\<open>Call\<close> returns the RESULT message, or an error: an \<open>RPCError\<close> holds the ERROR message.\<close>

datatype call_error = PlainError go_error | RPCError Error string

definition client_Call ::
  "64 word \<Rightarrow> nat \<Rightarrow> string \<Rightarrow> dict \<Rightarrow> glist \<Rightarrow> dict \<Rightarrow> Client \<Rightarrow> Client \<times> message" where
  "client_Call draw ch procedure options args kwargs c =
     (registerListener ch (NewID draw) c,
      MCall \<lparr>Call_Request = NewID draw, Call_Options = options, Call_Procedure = procedure,
             Call_Arguments = args, Call_ArgumentsKw = kwargs\<rparr>)"

definition client_Call_done ::
  "platform \<Rightarrow> key_order \<Rightarrow> string \<Rightarrow> peer_read \<Rightarrow> call_error + Result" where
  "client_Call_done p ord procedure rd =
     (case listener_end rd of
        Inl err \<Rightarrow> Inl (PlainError err)
      | Inr (MError e) \<Rightarrow> Inl (RPCError e procedure)
      | Inr (MResult m) \<Rightarrow> Inr m
      | Inr msg \<Rightarrow> Inl (PlainError (formatUnexpectedMessage p ord msg RESULT)))"

end
