(* ===== verification/Handshake.thy ===== *)
theory Handshake
  imports Client Serialize_Props
begin

text \<open>
  Challenge and response from end to end, stated once for any method.  The interface \<open>cr_handshake\<close> is what the two
  sides of a method and the transport between them promise: \<open>via m\<close> is what a peer receives when
  \<open>m\<close> was sent to it.
\<close>

definition ok_send :: "message \<Rightarrow> go_error option" where
  "ok_send m = None"

lemma ok_send [simp]: "ok_send m = None"
  by (simp add: ok_send_def)

locale cr_handshake =
  fixes via :: "message \<Rightarrow> message"
    and carry :: "dict \<Rightarrow> dict"
    and mth :: string
    and authn :: CRAuthenticator
    and func :: AuthFunc
    and chal :: dict
    and good :: "string \<Rightarrow> bool"
    and bad :: go_error
    and answer :: string
    and extra :: dict
  assumes via_hello: "via (MHello h) = MHello \<lparr>Hello_Realm = Hello_Realm h, Hello_Details = carry (Hello_Details h)\<rparr>"
    and via_challenge: "via (MChallenge ch) =
        MChallenge \<lparr>Challenge_AuthMethod = Challenge_AuthMethod ch, Challenge_Extra = carry (Challenge_Extra ch)\<rparr>"
    and via_authenticate: "via (MAuthenticate a) =
        MAuthenticate \<lparr>Authenticate_Signature = Authenticate_Signature a, Authenticate_Extra = carry (Authenticate_Extra a)\<rparr>"
    and via_welcome: "via (MWelcome w) = MWelcome \<lparr>Welcome_Id = Welcome_Id w, Welcome_Details = carry (Welcome_Details w)\<rparr>"
    and via_abort: "via (MAbort ab) = MAbort \<lparr>Abort_Details = carry (Abort_Details ab), Abort_Reason = Abort_Reason ab\<rparr>"
    and carry_methods: "details_authmethods d = Some [VString mth] \<Longrightarrow> details_authmethods (carry d) = Some [VString mth]"
    and Challenge: "CRAuthenticator_Challenge authn d = Inr chal"
    and Authenticate: "CRAuthenticator_Authenticate authn chal sig = (if good sig then Inr None else Inl bad)"
    and func: "func d (carry chal) = Inr (answer, extra)"
begin

definition the_hello :: "URI \<Rightarrow> dict \<Rightarrow> message" where
  "the_hello uri details = MHello \<lparr>Hello_Realm = uri, Hello_Details =
      dict_set ''authmethods'' (VSlice (Some [VString mth])) (dict_set ''roles'' clientRoles details)\<rparr>"

definition the_answer :: message where
  "the_answer = MAuthenticate \<lparr>Authenticate_Signature = answer, Authenticate_Extra = extra\<rparr>"

definition the_challenge :: message where
  "the_challenge = MChallenge \<lparr>Challenge_AuthMethod = mth, Challenge_Extra = chal\<rparr>"

lemma join_side:
  assumes "Auth c = fmupd mth func fmempty" and "map_order ord"
  shows "JoinRealm p ord c ok_send (Got (via the_challenge)) rd uri details =
      (let (effs, res) = await_welcome p ord rd in (CSends (the_hello uri details) # CSends the_answer # effs, res))"
  using assms(1) map_order_single [OF assms(2)]
  by (simp add: JoinRealm_def joinRealmCRA_def the_hello_def the_answer_def the_challenge_def via_challenge func Let_def)

lemma accept_side:
  assumes "\<not> closing r" and "fmlookup (realms r) uri = Some realm"
    and "CRAuthenticators realm = fmupd mth authn fmempty" and "Authenticators realm = fmempty"
  shows "router_Accept r ok_send (Got (via (the_hello uri details))) (Got (via the_answer)) draw =
      (if good answer
       then (let (effs, res) = accept_welcome r ok_send draw uri
                \<lparr>Welcome_Id = 0, Welcome_Details = addAuthMethod None mth\<rparr>
             in (Sends the_challenge # effs, res))
       else (Sends the_challenge # abort (Some (fmupd ''error'' (VString bad) fmempty)) ErrAuthorizationFailed,
             Refused (AuthenticationError bad)))"
proof -
  let ?d = "dict_set ''authmethods'' (VSlice (Some [VString mth])) (dict_set ''roles'' clientRoles details)"
  let ?h = "\<lparr>Hello_Realm = uri, Hello_Details = carry ?d\<rparr>"
  have "details_authmethods ?d = Some [VString mth]" by (simp add: details_authmethods_def)
  then have m: "details_authmethods (carry ?d) = Some [VString mth]" by (rule carry_methods)
  have "authenticate realm (carry ?d) = Inr the_challenge"
    using assms(3,4) m by (simp add: authenticate_def the_challenge_def Challenge)
  then have auth: "handleAuth realm ok_send (Got (via the_answer)) (carry ?d) =
      ([the_challenge], if good answer then Ok \<lparr>Welcome_Id = 0, Welcome_Details = addAuthMethod None mth\<rparr> else Err bad)"
    using assms(3)
    by (simp add: handleAuth_def the_challenge_def the_answer_def via_authenticate checkResponse_def Authenticate)
  have hr: "fmlookup (realms r) (Hello_Realm ?h) = Some realm" using assms(2) by simp
  have h: "via (the_hello uri details) = MHello ?h" by (simp add: the_hello_def via_hello)
  show ?thesis
    unfolding h Accept_hello [OF assms(1) hr] using auth by simp
qed

lemma handshake:
  assumes "Auth c = fmupd mth func fmempty" and "map_order ord"
    and "\<not> closing r" and "fmlookup (realms r) uri = Some realm"
    and "CRAuthenticators realm = fmupd mth authn fmempty" and "Authenticators realm = fmempty"
  shows "if good answer
    then \<exists>w sess. router_Accept r ok_send (Got (via (the_hello uri details))) (Got (via the_answer)) draw =
           (Sends the_challenge # Sends (MWelcome w) # map (\<lambda>cb. Callback cb sess uri) (sessionOpenCallbacks r)
              @ [StartsSession sess uri], Accepted sess)
         \<and> JoinRealm p ord c ok_send (Got (via the_challenge)) (Got (via (MWelcome w))) uri details =
             ([CSends (the_hello uri details), CSends the_answer, CStartReceive], Inr (carry (Welcome_Details w)))
    else \<exists>ab err. router_Accept r ok_send (Got (via (the_hello uri details))) (Got (via the_answer)) draw =
           ([Sends the_challenge, Sends (MAbort ab), ClosesPeer], Refused (AuthenticationError bad))
         \<and> JoinRealm p ord c ok_send (Got (via the_challenge)) (Got (via (MAbort ab))) uri details =
             ([CSends (the_hello uri details), CSends the_answer, CSends abortUnexpectedMsg, CPeerClose, CActsClose],
              Inl err)"
proof (cases "good answer")
  case True
  then show ?thesis
    unfolding accept_side [OF assms(3-6)] join_side [OF assms(1,2)]
    by (simp add: accept_welcome_def Let_def await_welcome_def via_welcome)
next
  case False
  then show ?thesis
    unfolding accept_side [OF assms(3-6)] join_side [OF assms(1,2)]
    by (simp add: abort_def await_welcome_def give_up_def via_abort)
qed

end

section \<open>Messages through JSON\<close>

definition json_via :: "message \<Rightarrow> message" where
  "json_via m = omit_empty (json_message m)"

definition json_dict :: "dict \<Rightarrow> dict" where
  "json_dict d = map_option (fmmap json_view) d"

lemma json_via:
  "json_via (MHello h) = MHello \<lparr>Hello_Realm = Hello_Realm h, Hello_Details = json_dict (Hello_Details h)\<rparr>"
  "json_via (MChallenge ch) =
     MChallenge \<lparr>Challenge_AuthMethod = Challenge_AuthMethod ch, Challenge_Extra = json_dict (Challenge_Extra ch)\<rparr>"
  "json_via (MAuthenticate a) =
     MAuthenticate \<lparr>Authenticate_Signature = Authenticate_Signature a, Authenticate_Extra = json_dict (Authenticate_Extra a)\<rparr>"
  "json_via (MWelcome w) = MWelcome \<lparr>Welcome_Id = Welcome_Id w, Welcome_Details = json_dict (Welcome_Details w)\<rparr>"
  "json_via (MAbort ab) = MAbort \<lparr>Abort_Details = json_dict (Abort_Details ab), Abort_Reason = Abort_Reason ab\<rparr>"
  by (simp_all add: json_via_def json_message_def json_dict_def)

lemma json_dict_get: "dict_get (json_dict d) k = map_option json_view (dict_get d k)"
  by (cases d) (simp_all add: json_dict_def)

lemma json_dict_set: "json_dict (dict_set k v d) = dict_set k (json_view v) (json_dict d)"
  by (cases d) (auto simp: json_dict_def dict_set_def intro!: fmap_ext)


text \<open>
  A message through \<open>Serialize\<close>, the text layer and \<open>Deserialize\<close>; the layer reads back what it writes for
  values it keeps.
\<close>

definition over_json :: "platform \<Rightarrow> 'b encoder \<Rightarrow> 'b decoder \<Rightarrow> message \<Rightarrow> message go_result" where
  "over_json p marshal unmarshal m =
     (case JSON_Serialize marshal m of Inl err \<Rightarrow> Err err | Inr b \<Rightarrow> JSON_Deserialize p unmarshal b)"

definition json_codec :: "'b encoder \<Rightarrow> 'b decoder \<Rightarrow> bool" where
  "json_codec marshal unmarshal \<longleftrightarrow>
     (\<forall>xs. list_all json_ok xs \<longrightarrow> (\<exists>b. marshal xs = Inr b \<and> unmarshal b = Inr (map json_view xs)))"

lemma over_json:
  assumes "json_codec marshal unmarshal" and "list_all exact_field (field_values m)" and "list_all json_ok (toList m)"
  shows "over_json p marshal unmarshal m = Ok (json_via m)"
proof -
  obtain b where "marshal (toList m) = Inr b" "unmarshal b = Inr (map json_view (toList m))"
    using assms(1,3) by (auto simp: json_codec_def)
  with json_carried [OF assms(2)] show ?thesis by (simp add: over_json_def JSON_Serialize_def json_via_def)
qed

lemma json_codec_view: "json_codec (\<lambda>xs. Inr (map json_view xs)) Inr"
  by (simp add: json_codec_def)

end
