(* ===== verification/Client_Props.thy ===== *)
theory Client_Props
  imports Handshake Dealer_Runs
begin

text \<open>
  The client against itself (listeners) and against the router: subscriptions, calls and the ticket
  handshake from one end to the other.
\<close>

section \<open>Listeners\<close>

text \<open>What other requests and replies do to the listeners while one request waits.\<close>

datatype listener_op = LRegister nat ID | LNotify message ID | LDelete ID

fun listener_step :: "Client \<Rightarrow> listener_op \<Rightarrow> Client option" where
  "listener_step c (LRegister ch i) = Some (registerListener ch i c)"
| "listener_step c (LNotify msg i) = notifyListener msg i c"
| "listener_step c (LDelete i) = Some (listener_delete i c)"

fun listener_run :: "Client \<Rightarrow> listener_op list \<Rightarrow> Client option" where
  "listener_run c [] = Some c"
| "listener_run c (oper # ops) =
     (case listener_step c oper of None \<Rightarrow> None | Some c' \<Rightarrow> listener_run c' ops)"

text \<open>An operation of another request: its own identifier and its own new channel.\<close>

fun other_request :: "nat \<Rightarrow> ID \<Rightarrow> listener_op \<Rightarrow> bool" where
  "other_request ch i (LRegister ch' i') = (ch' \<noteq> ch \<and> i' \<noteq> i)"
| "other_request ch i (LNotify msg i') = (i' \<noteq> i)"
| "other_request ch i (LDelete i') = (i' \<noteq> i)"

text \<open>Channel \<open>ch\<close> is empty and is the listener of \<open>i\<close> and of no other request.\<close>

definition listening :: "nat \<Rightarrow> ID \<Rightarrow> Client \<Rightarrow> bool" where
  "listening ch i c \<longleftrightarrow>
     fmlookup (listeners c) i = Some ch \<and> (\<forall>j. j \<noteq> i \<longrightarrow> fmlookup (listeners c) j \<noteq> Some ch)
     \<and> l_buf c ch = None"

lemma listening_register:
  "(\<And>j. j \<noteq> i \<Longrightarrow> fmlookup (listeners c) j \<noteq> Some ch) \<Longrightarrow> listening ch i (registerListener ch i c)"
  by (auto simp: listening_def registerListener_def)

lemma listening_step:
  assumes "listening ch i c" "other_request ch i oper" "listener_step c oper = Some c'"
  shows "listening ch i c'"
proof (cases oper)
  case (LRegister ch' i')
  with assms show ?thesis by (auto simp: listening_def registerListener_def split: if_splits)
next
  case (LNotify msg i')
  show ?thesis
  proof (cases "fmlookup (listeners c) i'")
    case None
    with assms LNotify show ?thesis by (simp add: notifyListener_def)
  next
    case (Some ch')
    with assms(1,2) LNotify have "ch' \<noteq> ch" by (auto simp: listening_def)
    with assms LNotify Some show ?thesis
      by (auto simp: listening_def notifyListener_def split: if_splits)
  qed
next
  case (LDelete i')
  with assms show ?thesis by (auto simp: listening_def listener_delete_def split: if_splits)
qed

lemma listening_run:
  "listening ch i c \<Longrightarrow> list_all (other_request ch i) ops \<Longrightarrow> listener_run c ops = Some c' \<Longrightarrow>
   listening ch i c'"
  by (induction ops arbitrary: c) (auto split: option.splits intro: listening_step)

lemma notify_listening:
  "listening ch i c \<Longrightarrow> notifyListener msg i c = Some (c\<lparr>l_buf := (l_buf c)(ch := Some msg)\<rparr>)"
proof -
  assume l: "listening ch i c"
  then have "fmlookup (listeners c) i = Some ch" by (simp add: listening_def)
  then show ?thesis using l by (simp add: notifyListener_def) (simp add: listening_def)
qed

text \<open>
  A reply reaches the request it answers: from the moment a request has registered its listener,
  whatever other requests (with other identifiers and channels) register, receive and delete, a
  message with the request's identifier is what the request's wait reads.  A second message with
  this identifier before the first is read blocks the client's \<open>Receive\<close>; after the wait has ended it
  is dropped.
\<close>

theorem reply_reaches_request:
  assumes "\<And>j. j \<noteq> i \<Longrightarrow> fmlookup (listeners c) j \<noteq> Some ch"
    and "list_all (other_request ch i) ops"
    and "listener_run (registerListener ch i c) ops = Some c1"
  shows "\<exists>c2 c3. notifyListener msg i c1 = Some c2 \<and> listener_take ch c2 = Some (msg, c3)
    \<and> notifyListener msg2 i c2 = None
    \<and> notifyListener msg2 i (listener_delete i c3) = Some (listener_delete i c3)"
proof -
  have l: "listening ch i c1"
    using listening_run [OF listening_register assms(2,3)] assms(1) by blast
  then have "fmlookup (listeners c1) i = Some ch" by (simp add: listening_def)
  then show ?thesis
    by (simp add: notify_listening [OF l]) (simp add: listener_take_def notifyListener_def listener_delete_def)
qed

theorem reply_reaches_request_witness:
  "\<exists>c2 c3. notifyListener (MUnsubscribed \<lparr>Unsubscribed_Request = 5\<rparr>) 5
       (registerListener 1 6 (registerListener 0 5 NewClient)) = Some c2
     \<and> listener_take 0 c2 = Some (MUnsubscribed \<lparr>Unsubscribed_Request = 5\<rparr>, c3)"
proof -
  have n: "fmlookup (listeners NewClient) j \<noteq> Some 0" for j
    by (simp add: NewClient_def)
  have r: "listener_run (registerListener 0 5 NewClient) [LRegister 1 6] =
      Some (registerListener 1 6 (registerListener 0 5 NewClient))"
    by simp
  have o6: "list_all (other_request 0 5) [LRegister 1 6]" by simp
  from reply_reaches_request [OF n o6 r] show ?thesis by blast
qed

section \<open>Through the router\<close>

lemma receive_reply:
  assumes "listening ch i c"
  shows "Subscribed_Request sm = i \<Longrightarrow> client_receive (MSubscribed sm) c =
      Some (c\<lparr>l_buf := (l_buf c)(ch := Some (MSubscribed sm))\<rparr>, [])"
    and "Result_Request rm = i \<Longrightarrow> client_receive (MResult rm) c =
      Some (c\<lparr>l_buf := (l_buf c)(ch := Some (MResult rm))\<rparr>, [])"
    and "Error_Request em = i \<Longrightarrow> client_receive (MError em) c =
      Some (c\<lparr>l_buf := (l_buf c)(ch := Some (MError em))\<rparr>, [])"
  by (simp_all add: notify_listening [OF assms])

lemma take_full [simp]:
  "listener_take ch (c\<lparr>l_buf := (l_buf c)(ch := Some msg)\<rparr>) = Some (msg, c\<lparr>l_buf := (l_buf c)(ch := None)\<rparr>)"
  by (simp add: listener_take_def)

text \<open>
  A subscription from end to end: the SUBSCRIBE of a client, handled by the broker, is answered by
  one message; when the client receives it the waiting \<open>Subscribe\<close> reads it and returns without
  error, and from then on what another session publishes to the topic reaches the client as an EVENT
  for which it calls the handler with the arguments of the publication.  The same EVENT received
  before \<open>Subscribe\<close> has stored the handler is dropped.
\<close>

theorem subscribe_end_to_end:
  assumes inv: "br_inv b" and fresh: "br_fresh b (NewID bdraw)" and ord: "map_order iord"
    and ch: "\<And>j. j \<noteq> NewID draw \<Longrightarrow> fmlookup (listeners c) j \<noteq> Some ch"
    and other: "pub \<noteq> s" and topic: "Publish_Topic pm = topic" and new: "fmlookup (events c) (NewID bdraw) = None"
  shows "\<exists>c1 sm b1 reply c2 c3 c4 ev. client_Subscribe draw ch topic options c = (c1, MSubscribe sm)
    \<and> broker_Subscribe bdraw s sm b = (b1, [(s, reply)])
    \<and> client_receive reply c1 = Some (c2, []) \<and> listener_take ch c2 = Some (reply, c3)
    \<and> client_Subscribe_done p ord topic fn (Got reply) c3 = (c4, None)
    \<and> (s, MEvent ev) \<in> set (broker_Publish iord pdraw pub pm b1)
    \<and> client_receive (MEvent ev) c4 =
        Some (c4, [CallsHandler fn (Publish_Arguments pm) (Publish_ArgumentsKw pm)])
    \<and> client_receive (MEvent ev) c1 = Some (c1, [])"
proof -
  let ?c1 = "registerListener ch (NewID draw) c"
  let ?sm = "\<lparr>Subscribe_Request = NewID draw, Subscribe_Options = or_make options, Subscribe_Topic = topic\<rparr>"
  let ?b1 = "fst (broker_Subscribe bdraw s ?sm b)"
  let ?r = "\<lparr>Subscribed_Request = NewID draw, Subscribed_Subscription = NewID bdraw\<rparr>"
  let ?ev = "(event_template (NewID pdraw) pm)\<lparr>Event_Subscription := NewID bdraw\<rparr>"
  have l: "listening ch (NewID draw) ?c1" using ch by (rule listening_register)
  have b: "broker_Subscribe bdraw s ?sm b = (?b1, [(s, MSubscribed ?r)])"
    by (simp add: broker_Subscribe_def Let_def)
  have inv1: "br_inv ?b1" using inv fresh by (rule br_inv_Subscribe)
  have "br_live ?b1 (NewID bdraw) = Some (Publish_Topic pm, s)"
    by (simp add: br_live_Subscribe [OF inv fresh] topic)
  then have ev: "(s, MEvent ?ev) \<in> set (broker_Publish iord pdraw pub pm ?b1)"
    unfolding broker_Publish_def Let_def using publish_events [OF br_invD(1) [OF inv1] ord] other by auto
  have fin: "client_Subscribe_done p ord topic fn (Got (MSubscribed ?r)) c' =
      (c'\<lparr>events := fmupd (NewID bdraw) \<lparr>ev_topic = topic, ev_handler = fn\<rparr> (events c')\<rparr>, None)" for c'
    by (simp add: client_Subscribe_done_def)
  have late: "client_receive (MEvent ?ev)
        (c'\<lparr>events := fmupd (NewID bdraw) \<lparr>ev_topic = topic, ev_handler = fn\<rparr> (events c')\<rparr>) =
      Some (c'\<lparr>events := fmupd (NewID bdraw) \<lparr>ev_topic = topic, ev_handler = fn\<rparr> (events c')\<rparr>,
            [CallsHandler fn (Publish_Arguments pm) (Publish_ArgumentsKw pm)])" for c'
    by (simp add: handleEvent_def event_template_def)
  have early: "client_receive (MEvent ?ev) ?c1 = Some (?c1, [])"
    using new by (simp add: handleEvent_def event_template_def registerListener_def)
  have sub: "client_Subscribe draw ch topic options c = (?c1, MSubscribe ?sm)"
    by (simp add: client_Subscribe_def)
  show ?thesis
    by (intro exI conjI)
       (rule sub, rule b, rule receive_reply(1) [OF l], simp, rule take_full, rule fin, rule ev, rule late, rule early)
qed

theorem subscribe_end_to_end_witness:
  "\<exists>c4 ev. client_receive (MEvent ev) c4 = Some (c4, [CallsHandler 42 (Some [VBool True]) None])"
  using subscribe_end_to_end [OF br_inv_New br_fresh_New map_order_sorted, of 5 NewClient 0 2 1 demo_publish "''a''" 7]
  by (fastforce simp: NewClient_def demo_publish_def)

text \<open>The message with which a callee's client answers an invocation.\<close>

definition result_message :: "ID \<Rightarrow> CallResult \<Rightarrow> message" where
  "result_message i res =
     (if CallResult_Err res \<noteq> []
      then MError \<lparr>Error_Type = INVOCATION, Error_Request = i, Error_Details = dict_make,
             Error_Error = CallResult_Err res, Error_Arguments = CallResult_Args res,
             Error_ArgumentsKw = CallResult_Kwargs res\<rparr>
      else MYield \<lparr>Yield_Request = i, Yield_Options = dict_make, Yield_Arguments = CallResult_Args res,
             Yield_ArgumentsKw = CallResult_Kwargs res\<rparr>)"

lemma receive_invocation:
  assumes "fmlookup (client_procedures c) (Invocation_Registration iv) = Some pd"
  shows "client_receive (MInvocation iv) c = Some (c, [SendsReply (result_message (Invocation_Request iv)
     (proc_handler pd (Invocation_Arguments iv) (Invocation_ArgumentsKw iv) (Invocation_Details iv)))])"
  using assms by (simp add: handleInvocation_def result_message_def Let_def)

text \<open>From the callee's answer to the result of the waiting \<open>Call\<close>.\<close>

lemma answer_side:
  assumes pend: "pending d i r s" and l: "listening ch r c"
  shows "\<exists>d2 ans c2 c3. ((\<exists>y. result_message i res = MYield y \<and> dealer_Yield e y d = (d2, [(s, ans)]))
       \<or> (\<exists>er. result_message i res = MError er \<and> dealer_Error e er d = (d2, [(s, ans)])))
    \<and> client_receive ans c = Some (c2, []) \<and> listener_take ch c2 = Some (ans, c3)
    \<and> (case client_Call_done p ord proc (Got ans) of
         Inr r \<Rightarrow> CallResult_Err res = [] \<and> Result_Arguments r = CallResult_Args res
                  \<and> Result_ArgumentsKw r = CallResult_Kwargs res
       | Inl (RPCError er pr) \<Rightarrow> CallResult_Err res \<noteq> [] \<and> Error_Error er = CallResult_Err res
                  \<and> Error_Arguments er = CallResult_Args res
       | Inl (PlainError _) \<Rightarrow> False)"
proof (cases "CallResult_Err res = []")
  case True
  let ?y = "\<lparr>Yield_Request = i, Yield_Options = dict_make, Yield_Arguments = CallResult_Args res,
      Yield_ArgumentsKw = CallResult_Kwargs res\<rparr>"
  let ?ans = "\<lparr>Result_Request = r, Result_Details = dict_make, Result_Arguments = CallResult_Args res,
      Result_ArgumentsKw = CallResult_Kwargs res\<rparr>"
  have "dealer_Yield e ?y d = (fst (dealer_Yield e ?y d), [(s, MResult ?ans)])"
    using Yield_pending [OF pend, of ?y e] by (simp add: prod_eq_iff)
  moreover have "result_message i res = MYield ?y" by (simp add: result_message_def True)
  ultimately show ?thesis
    by (intro exI conjI)
       (intro disjI1 exI conjI, assumption, assumption, rule receive_reply(2) [OF l], simp, rule take_full,
        simp add: client_Call_done_def True)
next
  case False
  let ?er = "\<lparr>Error_Type = INVOCATION, Error_Request = i, Error_Details = dict_make, Error_Error = CallResult_Err res,
      Error_Arguments = CallResult_Args res, Error_ArgumentsKw = CallResult_Kwargs res\<rparr>"
  let ?ans = "\<lparr>Error_Type = CALL, Error_Request = r, Error_Details = dict_make, Error_Error = CallResult_Err res,
      Error_Arguments = CallResult_Args res, Error_ArgumentsKw = CallResult_Kwargs res\<rparr>"
  have "dealer_Error e ?er d = (fst (dealer_Error e ?er d), [(s, MError ?ans)])"
    using Error_pending [OF pend, of ?er e] by (simp add: prod_eq_iff)
  moreover have "result_message i res = MError ?er" by (simp add: result_message_def False)
  ultimately show ?thesis
    by (intro exI conjI)
       (intro disjI2 exI conjI, assumption, assumption, rule receive_reply(3) [OF l], simp, rule take_full,
        simp add: client_Call_done_def False)
qed

text \<open>
  C23. A call from end to end: the CALL of a client, handled by the dealer, reaches the callee's client
  as an INVOCATION of the handler it registered; what the handler returns is sent back to the dealer,
  which answers the caller's session; when the caller's client receives the answer the waiting \<open>Call\<close>
  reads it and returns the handler's result, or an \<open>RPCError\<close> with the handler's error.
\<close>

theorem call_end_to_end:
  assumes inv: "dl_inv d" and live: "dl_live d reg = Some (proc, e)"
    and new: "\<forall>j. fmlookup (invocations d) j \<noteq> Some (NewID draw)"
    and ch: "\<And>j. j \<noteq> NewID draw \<Longrightarrow> fmlookup (listeners c) j \<noteq> Some ch"
    and callee: "fmlookup (client_procedures ce) reg = Some pd"
  shows "\<exists>c1 m d1 iv reply d2 ans c2 c3 res. client_Call draw ch proc options args kwargs c = (c1, MCall m)
    \<and> dealer_Call heap ddraw s m d = (d1, [(e, MInvocation iv)])
    \<and> client_receive (MInvocation iv) ce = Some (ce, [SendsReply reply])
    \<and> res = proc_handler pd args kwargs (call_details heap s m)
    \<and> ((\<exists>y. reply = MYield y \<and> dealer_Yield e y d1 = (d2, [(s, ans)]))
       \<or> (\<exists>er. reply = MError er \<and> dealer_Error e er d1 = (d2, [(s, ans)])))
    \<and> client_receive ans c1 = Some (c2, []) \<and> listener_take ch c2 = Some (ans, c3)
    \<and> (case client_Call_done p ord proc (Got ans) of
         Inr r \<Rightarrow> CallResult_Err res = [] \<and> Result_Arguments r = CallResult_Args res
                  \<and> Result_ArgumentsKw r = CallResult_Kwargs res
       | Inl (RPCError er pr) \<Rightarrow> CallResult_Err res \<noteq> [] \<and> Error_Error er = CallResult_Err res
                  \<and> Error_Arguments er = CallResult_Args res
       | Inl (PlainError _) \<Rightarrow> False)"
proof -
  let ?c1 = "registerListener ch (NewID draw) c"
  let ?m = "\<lparr>Call_Request = NewID draw, Call_Options = options, Call_Procedure = proc,
             Call_Arguments = args, Call_ArgumentsKw = kwargs\<rparr>"
  let ?d1 = "fst (dealer_Call heap ddraw s ?m d)"
  let ?iv = "\<lparr>Invocation_Request = NewID ddraw, Invocation_Registration = reg,
      Invocation_Details = call_details heap s ?m, Invocation_Arguments = args, Invocation_ArgumentsKw = kwargs\<rparr>"
  let ?res = "proc_handler pd args kwargs (call_details heap s ?m)"
  have call: "client_Call draw ch proc options args kwargs c = (?c1, MCall ?m)"
    by (simp add: client_Call_def)
  have d1: "dealer_Call heap ddraw s ?m d = (?d1, [(e, MInvocation ?iv)])"
    using Call_live [OF inv, of reg ?m e heap ddraw s] live by simp
  have handled: "client_receive (MInvocation ?iv) ce = Some (ce, [SendsReply (result_message (NewID ddraw) ?res)])"
    using receive_invocation [of ce ?iv pd] callee by simp
  have "pending ?d1 (NewID ddraw) (NewID draw) s"
    using pending_Call [OF inv, of reg ?m e heap ddraw s] live new by simp
  from answer_side [OF this listening_register [OF ch], of ?res e p ord proc] call d1 handled
  show ?thesis by blast
qed

definition echo :: MethodHandler where
  "echo args kwargs details = \<lparr>CallResult_Args = args, CallResult_Kwargs = kwargs, CallResult_Err = []\<rparr>"

definition demo_callee :: Client where
  "demo_callee = NewClient\<lparr>client_procedures := fmupd 7 \<lparr>proc_name = ''p'', proc_handler = echo\<rparr> fmempty\<rparr>"

theorem call_end_to_end_witness:
  "\<exists>ans r. client_Call_done demo_platform sorted_list_of_fset ''p'' (Got ans) = Inr r \<and> Result_Arguments r = Some [VBool True]"
proof -
  have inv: "\<forall>j. fmlookup (invocations demo_dealer) j \<noteq> Some (NewID 5)"
    by (simp add: demo_dealer_def dealer_Register_def register_msg_def NewDefaultDealer_def addCallee_maps Let_def)
  have ch: "fmlookup (listeners NewClient) j \<noteq> Some 0" for j by (simp add: NewClient_def)
  have live: "dl_live demo_dealer 7 = Some (''p'', 1)" by simp
  have pd: "fmlookup (client_procedures demo_callee) 7 = Some \<lparr>proc_name = ''p'', proc_handler = echo\<rparr>"
    by (simp add: demo_callee_def)
  from call_end_to_end [OF demo_dealer_inv live inv ch pd, where args = "Some [VBool True]" and kwargs = None
      and options = None and heap = demo_heap and ddraw = 8 and s = 2 and p = demo_platform and ord = sorted_list_of_fset]
  obtain ans res where r: "res = echo (Some [VBool True]) None d" "case client_Call_done demo_platform sorted_list_of_fset ''p'' (Got ans) of
         Inr r \<Rightarrow> CallResult_Err res = [] \<and> Result_Arguments r = CallResult_Args res
                  \<and> Result_ArgumentsKw r = CallResult_Kwargs res
       | Inl (RPCError er pr) \<Rightarrow> CallResult_Err res \<noteq> [] \<and> Error_Error er = CallResult_Err res
                  \<and> Error_Arguments er = CallResult_Args res
       | Inl (PlainError _) \<Rightarrow> False" for d
    by (auto simp: echo_def)
  show ?thesis
  proof (cases "client_Call_done demo_platform sorted_list_of_fset ''p'' (Got ans)")
    case (Inl err)
    with r show ?thesis by (cases err) (simp_all add: echo_def)
  next
    case (Inr r')
    with r show ?thesis by (intro exI [of _ ans] exI [of _ r']) (simp add: echo_def)
  qed
qed

section \<open>Joining\<close>

text \<open>Tickets are a method of the challenge-response handshake, read without change by the other side.\<close>

interpretation ticket: cr_handshake "\<lambda>m. m" "\<lambda>d. d" "''ticket''" "NewBasicTicketAuthenticator ts" "\<lambda>_ _. Inr (sig, ex)"
    dict_make "\<lambda>s. s \<in> set ts" "''Invalid ticket''" sig ex for ts sig ex
  by unfold_locales (simp_all add: ticket_Challenge ticket_Authenticate)

text \<open>
  The ticket handshake from end to end: a client with a ticket function and a realm that only
  takes tickets, each reading what the other sends.  With a valid ticket the router sends a CHALLENGE
  and a WELCOME and accepts, and \<open>JoinRealm\<close> returns the WELCOME's details and starts receiving; with
  another ticket the router sends an ABORT, closes and refuses, and \<open>JoinRealm\<close> fails and closes.
\<close>

theorem ticket_join:
  fixes details :: dict
  assumes client: "Auth c = fmupd ''ticket'' f fmempty" and f: "\<And>d x. f d x = Inr (sig, ex)"
    and ord: "map_order ord"
    and router: "\<not> closing r" "fmlookup (realms r) uri = Some realm"
    and realm: "CRAuthenticators realm = fmupd ''ticket'' (NewBasicTicketAuthenticator ts) fmempty"
      "Authenticators realm = fmempty"
  defines "hello \<equiv> MHello \<lparr>Hello_Realm = uri, Hello_Details =
      dict_set ''authmethods'' (VSlice (Some [VString ''ticket''])) (dict_set ''roles'' clientRoles details)\<rparr>"
    and "a \<equiv> MAuthenticate \<lparr>Authenticate_Signature = sig, Authenticate_Extra = ex\<rparr>"
    and "ch \<equiv> MChallenge \<lparr>Challenge_AuthMethod = ''ticket'', Challenge_Extra = dict_make\<rparr>"
  shows "if sig \<in> set ts
    then \<exists>w sess. router_Accept r ok_send (Got hello) (Got a) draw =
           (Sends ch # Sends (MWelcome w) # map (\<lambda>cb. Callback cb sess uri) (sessionOpenCallbacks r)
              @ [StartsSession sess uri], Accepted sess)
         \<and> JoinRealm p ord c ok_send (Got ch) (Got (MWelcome w)) uri details =
             ([CSends hello, CSends a, CStartReceive], Inr (Welcome_Details w))
    else \<exists>ab err. router_Accept r ok_send (Got hello) (Got a) draw =
           ([Sends ch, Sends (MAbort ab), ClosesPeer], Refused (AuthenticationError ''Invalid ticket''))
         \<and> JoinRealm p ord c ok_send (Got ch) (Got (MAbort ab)) uri details =
             ([CSends hello, CSends a, CSends abortUnexpectedMsg, CPeerClose, CActsClose], Inl err)"
proof -
  have "f = (\<lambda>_ _. Inr (sig, ex))" using f by (intro ext) simp
  with client have c: "Auth c = fmupd ''ticket'' (\<lambda>_ _. Inr (sig, ex)) fmempty" by simp
  show ?thesis
    using ticket.handshake [OF c ord router realm]
    unfolding ticket.the_hello_def ticket.the_answer_def ticket.the_challenge_def hello_def a_def ch_def .
qed

theorem ticket_join_witness:
  "\<exists>w sess. router_Accept demo_router ok_send
       (Got (MHello \<lparr>Hello_Realm = ''realm1'', Hello_Details =
          dict_set ''authmethods'' (VSlice (Some [VString ''ticket''])) (dict_set ''roles'' clientRoles None)\<rparr>))
       (signed ''t'') 9
     = (Sends (MChallenge \<lparr>Challenge_AuthMethod = ''ticket'', Challenge_Extra = dict_make\<rparr>)
        # Sends (MWelcome w) # [Callback 1 sess ''realm1'', StartsSession sess ''realm1''], Accepted sess)"
proof -
  let ?c = "NewClient\<lparr>Auth := fmupd ''ticket'' (\<lambda>_ _. Inr (''t'', None)) fmempty\<rparr>"
  have c: "Auth ?c = fmupd ''ticket'' (\<lambda>_ _. Inr (''t'', None)) fmempty" by simp
  have r: "fmlookup (realms demo_router) ''realm1'' = Some (Realm_init ticket_config)" by simp
  have o1: "map_order (\<lambda>S :: string fset. sorted_list_of_fset S)" by (rule map_order_sorted)
  from ticket_join [OF c refl o1 demo_router_simps(1) r ticket_realm, where p = demo_platform
      and details = None and draw = 9]
  show ?thesis by (auto simp: signed_def)
qed

end
