(* ===== verification/Websocket.thy ===== *)
theory Websocket
  imports Router Serialize
begin

text \<open>
  \<^verbatim>\<open>websocket.go\<close> and \<^verbatim>\<open>websocket_server.go\<close>: the reading loop of a websocket
  peer, as a function of what the connection's successive reads return; sending and closing; the
  server's table of subprotocols, and the choice of serializer for a new connection.  The sockets
  and the HTTP upgrade are library code: what they return is an argument.
\<close>

section \<open>The peer\<close>

text \<open>The frame types of the library that the code names.\<close>

definition TextMessage :: int where "TextMessage = 1"
definition BinaryMessage :: int where "BinaryMessage = 2"
definition CloseMessage :: int where "CloseMessage = 8"

text \<open>
  A read fails (with what \<open>ep.closed\<close> holds at that moment) or returns a frame.
\<close>

datatype 'b ws_read = ReadError bool | Frame int 'b

datatype ws_effect = Delivers message | ConnClose | ChannelClose | Crashes

fun ws_run :: "('b \<Rightarrow> message go_result) \<Rightarrow> 'b ws_read list \<Rightarrow> ws_effect list" where
  "ws_run deserialize [] = []"
| "ws_run deserialize (ReadError closed_flag # _) = (if closed_flag then [] else [ConnClose]) @ [ChannelClose]"
| "ws_run deserialize (Frame msgType b # reads) =
     (if msgType = CloseMessage then [ConnClose, ChannelClose]
      else case deserialize b of
             Err err \<Rightarrow> ws_run deserialize reads
           | Ok msg \<Rightarrow> Delivers msg # ws_run deserialize reads
           | Panic \<Rightarrow> [Crashes])"

text \<open>\<open>Send\<close>: the frame written, if any, and the error.\<close>

definition ws_Send ::
  "(message \<Rightarrow> go_error + 'b) \<Rightarrow> int \<Rightarrow> (int \<Rightarrow> 'b \<Rightarrow> go_error option) \<Rightarrow> message \<Rightarrow>
   (int \<times> 'b) option \<times> go_error option" where
  "ws_Send serialize payloadType write msg =
     (case serialize msg of
        Inl err \<Rightarrow> (None, Some err)
      | Inr b \<Rightarrow> (Some (payloadType, b), write payloadType b))"

section \<open>The server\<close>

text \<open>The serializers of the package, and those a program registers.\<close>

datatype serializer = JSONSerializer | MessagePackSerializer | OtherSerializer nat

record protocol =
  payloadType :: int
  proto_serializer :: serializer

record WebsocketServer =
  srv_Router :: defaultRouter
  Subprotocols :: "string list"
  protocols :: "(string, protocol) fmap"

definition jsonWebsocketProtocol :: string where "jsonWebsocketProtocol = ''wamp.2.json''"
definition msgpackWebsocketProtocol :: string where "msgpackWebsocketProtocol = ''wamp.2.msgpack''"

datatype ws_error = InvalidPayload int | ProtocolExists string

fun ws_error_Error :: "ws_error \<Rightarrow> string" where
  "ws_error_Error (InvalidPayload e) = ''Invalid payloadType: '' @ decimal (nat (e mod 256))"
| "ws_error_Error (ProtocolExists e) = ''This protocol has already been registered: '' @ e"

definition RegisterProtocol ::
  "string \<Rightarrow> int \<Rightarrow> serializer \<Rightarrow> WebsocketServer \<Rightarrow> WebsocketServer \<times> ws_error option" where
  "RegisterProtocol proto pt ser s =
     (if pt \<noteq> TextMessage \<and> pt \<noteq> BinaryMessage then (s, Some (InvalidPayload pt))
      else case fmlookup (protocols s) proto of
             Some _ \<Rightarrow> (s, Some (ProtocolExists proto))
           | None \<Rightarrow>
               (s\<lparr>protocols := fmupd proto \<lparr>payloadType = pt, proto_serializer = ser\<rparr> (protocols s),
                  Subprotocols := Subprotocols s @ [proto]\<rparr>, None))"

definition newWebsocketServer :: "defaultRouter \<Rightarrow> WebsocketServer" where
  "newWebsocketServer r =
     (let s = \<lparr>srv_Router = r, Subprotocols = [], protocols = fmempty\<rparr>;
          s = fst (RegisterProtocol jsonWebsocketProtocol TextMessage JSONSerializer s)
      in fst (RegisterProtocol msgpackWebsocketProtocol BinaryMessage MessagePackSerializer s))"

text \<open>The realms in the order of the iteration over the map.\<close>

fun register_realms :: "(URI \<times> RealmConfig) list \<Rightarrow> defaultRouter \<Rightarrow> router_error + defaultRouter" where
  "register_realms [] r = Inr r"
| "register_realms ((uri, realm) # rs) r =
     (case RegisterRealm uri realm r of Inl err \<Rightarrow> Inl err | Inr r' \<Rightarrow> register_realms rs r')"

definition NewWebsocketServer :: "(URI \<times> RealmConfig) list \<Rightarrow> router_error + WebsocketServer" where
  "NewWebsocketServer rs =
     (case register_realms rs NewDefaultRouter of Inl err \<Rightarrow> Inl err | Inr r \<Rightarrow> Inr (newWebsocketServer r))"

text \<open>The realm of \<open>NewBasicWebsocketServer\<close>: the zero struct.\<close>

definition zero_realm :: RealmConfig where
  "zero_realm = \<lparr>cfg_URI = [], cfg_Broker = None, cfg_Dealer = None, cfg_Authorizer = None,
     cfg_Interceptor = None, cfg_CRAuthenticators = fmempty, cfg_Authenticators = fmempty,
     cfg_AuthTimeout = 0\<rparr>"

definition NewBasicWebsocketServer :: "URI \<Rightarrow> router_error + WebsocketServer" where
  "NewBasicWebsocketServer uri = NewWebsocketServer [(uri, zero_realm)]"

text \<open>
  \<open>handleWebsocket\<close>: the serializer and frame type of the peer that is then given to \<open>Accept\<close>, for the
  subprotocol of the connection; \<open>None\<close> when the connection is closed instead.
\<close>

definition handleWebsocket :: "WebsocketServer \<Rightarrow> string \<Rightarrow> (serializer \<times> int) option" where
  "handleWebsocket s subprotocol =
     (case fmlookup (protocols s) subprotocol of
        Some proto \<Rightarrow> Some (proto_serializer proto, payloadType proto)
      | None \<Rightarrow>
          if subprotocol = jsonWebsocketProtocol then Some (JSONSerializer, TextMessage)
          else if subprotocol = msgpackWebsocketProtocol then Some (MessagePackSerializer, BinaryMessage)
          else None)"

text \<open>\<open>NewWebsocketPeer\<close>, the client's side: subprotocol, serializer and frame type.\<close>

definition JSON_serialization :: int where "JSON_serialization = 0"
definition MSGPACK_serialization :: int where "MSGPACK_serialization = 1"

definition NewWebsocketPeer :: "int \<Rightarrow> (string \<times> serializer \<times> int) option" where
  "NewWebsocketPeer serialization =
     (if serialization = JSON_serialization then Some (jsonWebsocketProtocol, JSONSerializer, TextMessage)
      else if serialization = MSGPACK_serialization
      then Some (msgpackWebsocketProtocol, MessagePackSerializer, BinaryMessage)
      else None)"

section \<open>Facts\<close>

text \<open>The servers a program can build: registrations on top of a new server.\<close>

fun register_all :: "(string \<times> int \<times> serializer) list \<Rightarrow> WebsocketServer \<Rightarrow> WebsocketServer" where
  "register_all [] s = s"
| "register_all ((proto, pt, ser) # regs) s = register_all regs (fst (RegisterProtocol proto pt ser s))"

definition ws_ok :: "WebsocketServer \<Rightarrow> bool" where
  "ws_ok s \<longleftrightarrow> distinct (Subprotocols s) \<and> set (Subprotocols s) = fset (fmdom (protocols s))
     \<and> (\<forall>x p. fmlookup (protocols s) x = Some p \<longrightarrow> payloadType p \<in> {TextMessage, BinaryMessage})"

lemma ws_ok_Register: "ws_ok s \<Longrightarrow> ws_ok (fst (RegisterProtocol proto pt ser s))"
  by (auto simp: ws_ok_def RegisterProtocol_def fmdom_notD split: option.splits)

lemma ws_ok_new: "ws_ok (newWebsocketServer r)"
  unfolding newWebsocketServer_def Let_def
  by (intro ws_ok_Register) (simp add: ws_ok_def)

lemma ws_ok_all: "ws_ok s \<Longrightarrow> ws_ok (register_all regs s)"
  by (induction regs s rule: register_all.induct) (simp_all add: ws_ok_Register)

lemma Register_keeps:
  "fmlookup (protocols s) x = Some p \<Longrightarrow> fmlookup (protocols (fst (RegisterProtocol proto pt ser s))) x = Some p"
  by (auto simp: RegisterProtocol_def split: option.splits)

lemma register_all_keeps:
  "fmlookup (protocols s) x = Some p \<Longrightarrow> fmlookup (protocols (register_all regs s)) x = Some p"
  by (induction regs s rule: register_all.induct) (simp_all add: Register_keeps)

lemma new_protocols:
  "fmlookup (protocols (newWebsocketServer r)) jsonWebsocketProtocol =
     Some \<lparr>payloadType = TextMessage, proto_serializer = JSONSerializer\<rparr>"
  "fmlookup (protocols (newWebsocketServer r)) msgpackWebsocketProtocol =
     Some \<lparr>payloadType = BinaryMessage, proto_serializer = MessagePackSerializer\<rparr>"
  by (simp_all add: newWebsocketServer_def RegisterProtocol_def TextMessage_def BinaryMessage_def
      jsonWebsocketProtocol_def msgpackWebsocketProtocol_def Let_def)

text \<open>The part of a sequence of reads that is before the end of the connection, or a crash.\<close>

fun goes_on :: "('b \<Rightarrow> message go_result) \<Rightarrow> 'b ws_read \<Rightarrow> bool" where
  "goes_on deserialize (ReadError _) = False"
| "goes_on deserialize (Frame t b) = (t \<noteq> CloseMessage \<and> deserialize b \<noteq> Panic)"

fun frame_message :: "('b \<Rightarrow> message go_result) \<Rightarrow> 'b ws_read \<Rightarrow> message option" where
  "frame_message deserialize (Frame t b) = (case deserialize b of Ok m \<Rightarrow> Some m | _ \<Rightarrow> None)"
| "frame_message deserialize (ReadError _) = None"

fun ending :: "('b \<Rightarrow> message go_result) \<Rightarrow> 'b ws_read list \<Rightarrow> ws_effect list" where
  "ending deserialize [] = []"
| "ending deserialize (ReadError closed_flag # _) = (if closed_flag then [] else [ConnClose]) @ [ChannelClose]"
| "ending deserialize (Frame t b # _) = (if t = CloseMessage then [ConnClose, ChannelClose] else [Crashes])"

lemma ws_run_spec:
  "ws_run deserialize reads =
     map Delivers (List.map_filter (frame_message deserialize) (takeWhile (goes_on deserialize) reads))
     @ ending deserialize (dropWhile (goes_on deserialize) reads)"
  by (induction deserialize reads rule: ws_run.induct)
     (auto simp: List.map_filter_simps split: go_result.splits)

section \<open>Properties\<close>

text \<open>
  The reading loop delivers, in order, exactly the messages of the frames that deserialize, up to
  the first failed read, close frame or panic; frames that do not deserialize are skipped; at a failed
  read or close frame the channel of the peer is closed, once and last.
\<close>

theorem ws_run_delivers:
  assumes "\<And>b. deserialize b \<noteq> Panic"
  shows "\<exists>done_reads rest. reads = done_reads @ rest
    \<and> (\<forall>x \<in> set done_reads. \<exists>t b. x = Frame t b \<and> t \<noteq> CloseMessage)
    \<and> (case rest of
         [] \<Rightarrow> ws_run deserialize reads = map Delivers (List.map_filter (frame_message deserialize) done_reads)
       | x # _ \<Rightarrow> (\<forall>t b. x = Frame t b \<longrightarrow> t = CloseMessage)
           \<and> (\<exists>cl. set cl \<subseteq> {ConnClose} \<and> ws_run deserialize reads =
                 map Delivers (List.map_filter (frame_message deserialize) done_reads) @ cl @ [ChannelClose]))"
proof (intro exI conjI)
  let ?d = "takeWhile (goes_on deserialize) reads" and ?r = "dropWhile (goes_on deserialize) reads"
  show "reads = ?d @ ?r" by simp
  have g: "goes_on deserialize x \<longleftrightarrow> (\<exists>t b. x = Frame t b \<and> t \<noteq> CloseMessage)" for x
    using assms by (cases x) auto
  show "\<forall>x \<in> set ?d. \<exists>t b. x = Frame t b \<and> t \<noteq> CloseMessage"
    using set_takeWhileD [of _ "goes_on deserialize" reads] g by blast
  show "case ?r of
         [] \<Rightarrow> ws_run deserialize reads = map Delivers (List.map_filter (frame_message deserialize) ?d)
       | x # _ \<Rightarrow> (\<forall>t b. x = Frame t b \<longrightarrow> t = CloseMessage)
           \<and> (\<exists>cl. set cl \<subseteq> {ConnClose} \<and> ws_run deserialize reads =
                 map Delivers (List.map_filter (frame_message deserialize) ?d) @ cl @ [ChannelClose])"
  proof (cases ?r)
    case Nil
    then show ?thesis unfolding Nil by (simp add: ws_run_spec [of deserialize reads] Nil)
  next
    case (Cons x xs)
    then have "\<not> goes_on deserialize x" by (metis hd_dropWhile list.distinct(1) list.sel(1))
    then have x: "\<forall>t b. x = Frame t b \<longrightarrow> t = CloseMessage" using g by blast
    then have "\<exists>cl. set cl \<subseteq> {ConnClose} \<and> ending deserialize ?r = cl @ [ChannelClose]"
      unfolding Cons by (cases x) (auto intro: exI [of _ "[]"] exI [of _ "[ConnClose]"])
    with x show ?thesis unfolding Cons by (auto simp: ws_run_spec [of deserialize reads] Cons)
  qed
qed

theorem ws_run_delivers_witness:
  "\<exists>done_reads rest. [Frame 1 True, Frame 1 False, ReadError True] = done_reads @ rest
     \<and> ReadError True \<notin> set done_reads"
proof -
  have "(if b then Ok (MUnsubscribed \<lparr>Unsubscribed_Request = 1\<rparr>) else Err ''bad'') \<noteq> Panic" for b
    by simp
  from ws_run_delivers [OF this, of "[Frame 1 True, Frame 1 False, ReadError True]"]
  show ?thesis by blast
qed

text \<open>
  The server negotiates only what it can speak: whatever protocols a program registers on a new
  server, the subprotocols offered to the HTTP upgrade are those of the table, each once, every
  negotiated one gets the serializer and frame type it was registered with, the two standard ones
  cannot be replaced, and a connection that negotiated a name outside the table (such as none at all)
  is closed.
\<close>

theorem negotiation_consistent:
  fixes r :: defaultRouter and regs :: "(string \<times> int \<times> serializer) list"
  defines "s \<equiv> register_all regs (newWebsocketServer r)"
  shows "distinct (Subprotocols s)
    \<and> (x \<in> set (Subprotocols s) \<longleftrightarrow> (\<exists>p. fmlookup (protocols s) x = Some p
          \<and> payloadType p \<in> {TextMessage, BinaryMessage}
          \<and> handleWebsocket s x = Some (proto_serializer p, payloadType p)))
    \<and> (x \<in> set (Subprotocols s) \<longleftrightarrow> handleWebsocket s x \<noteq> None)
    \<and> handleWebsocket s jsonWebsocketProtocol = Some (JSONSerializer, TextMessage)
    \<and> handleWebsocket s msgpackWebsocketProtocol = Some (MessagePackSerializer, BinaryMessage)"
proof -
  have ok: "ws_ok s" unfolding s_def by (intro ws_ok_all ws_ok_new)
  have j: "fmlookup (protocols s) jsonWebsocketProtocol =
      Some \<lparr>payloadType = TextMessage, proto_serializer = JSONSerializer\<rparr>"
    "fmlookup (protocols s) msgpackWebsocketProtocol =
      Some \<lparr>payloadType = BinaryMessage, proto_serializer = MessagePackSerializer\<rparr>"
    unfolding s_def by (intro register_all_keeps new_protocols)+
  have m: "x \<in> set (Subprotocols s) \<longleftrightarrow> (\<exists>p. fmlookup (protocols s) x = Some p)"
    using ok by (auto simp: ws_ok_def fmlookup_dom_iff)
  show ?thesis
    using ok j m by (auto simp: ws_ok_def handleWebsocket_def split: option.splits)
qed

end
