(* ===== verification/Msgpack_Props.thy ===== *)
theory Msgpack_Props
  imports Serialize_Props "HOL-Library.List_Lexorder" "HOL-Library.Char_ord"
begin

text \<open>
  What the msgpack codec makes of the values of a message (\<open>msgpack_view\<close>, its documented behaviour
  with the default handle: strings become bytes except as keys of maps, numbers up to 127 and negative
  ones \<open>int64\<close> and other numbers \<open>uint64\<close>, maps \<open>map[interface{}]interface{}\<close>), and the round trip of messages.
\<close>

section \<open>Values through msgpack\<close>

definition bytes_of :: "string \<Rightarrow> 8 word list" where
  "bytes_of s = map (\<lambda>c. word_of_nat (of_char c)) s"

definition msgpack_num :: "int \<Rightarrow> gval" where
  "msgpack_num n = (if n \<le> 127 then VInt64 (word_of_int n) else VUint64 (word_of_int n))"

text \<open>The encoder visits the keys of a map in the order \<open>ord\<close>.\<close>

primrec msgpack_view :: "(string fset \<Rightarrow> string list) \<Rightarrow> gval \<Rightarrow> gval" where
  "msgpack_view ord VNil = VNil"
| "msgpack_view ord (VBool b) = VBool b"
| "msgpack_view ord (VInt w) = msgpack_num (sint w)"
| "msgpack_view ord (VInt64 w) = msgpack_num (sint w)"
| "msgpack_view ord (VUint8 w) = msgpack_num (uint w)"
| "msgpack_view ord (VUint64 w) = msgpack_num (uint w)"
| "msgpack_view ord (VFloat64 q) = VFloat64 q"
| "msgpack_view ord (VString s) = VBytes (bytes_of s)"
| "msgpack_view ord (VBytes bs) = VBytes bs"
| "msgpack_view ord (VURI s) = VBytes (bytes_of s)"
| "msgpack_view ord (VID w) = msgpack_num (uint w)"
| "msgpack_view ord (VMsgType w) = msgpack_num (sint w)"
| "msgpack_view ord VStruct0 = VIMap []"
| "msgpack_view ord (VSlice x) =
     (case map_option (map (msgpack_view ord)) x of None \<Rightarrow> VNil | Some l \<Rightarrow> VSlice (Some l))"
| "msgpack_view ord (VStrings ss) = VSlice (Some (map (\<lambda>s. VBytes (bytes_of s)) ss))"
| "msgpack_view ord (VDict x) =
     (case map_option (fmmap (msgpack_view ord)) x of
        None \<Rightarrow> VNil
      | Some m \<Rightarrow> VIMap (map (\<lambda>k. (VString k, the (fmlookup m k))) (ord (fmdom m))))"
| "msgpack_view ord (VIMap kvs) = VNil"
| "msgpack_view ord (VTyped n v) = msgpack_view ord v"
| "msgpack_view ord (VPtr x) = (case map_option (msgpack_view ord) x of None \<Rightarrow> VNil | Some v \<Rightarrow> v)"

text \<open>The view covers every value but maps whose keys are not strings.\<close>

primrec msgpack_ok :: "gval \<Rightarrow> bool" where
  "msgpack_ok VNil = True"
| "msgpack_ok (VBool b) = True"
| "msgpack_ok (VInt w) = True"
| "msgpack_ok (VInt64 w) = True"
| "msgpack_ok (VUint8 w) = True"
| "msgpack_ok (VUint64 w) = True"
| "msgpack_ok (VFloat64 q) = True"
| "msgpack_ok (VString s) = True"
| "msgpack_ok (VBytes bs) = True"
| "msgpack_ok (VURI s) = True"
| "msgpack_ok (VID w) = True"
| "msgpack_ok (VMsgType w) = True"
| "msgpack_ok VStruct0 = True"
| "msgpack_ok (VSlice x) = (case map_option (map msgpack_ok) x of None \<Rightarrow> True | Some l \<Rightarrow> list_all id l)"
| "msgpack_ok (VStrings ss) = True"
| "msgpack_ok (VDict x) = (case map_option (fmmap msgpack_ok) x of None \<Rightarrow> True
     | Some m \<Rightarrow> fBall (fmdom m) (\<lambda>k. fmlookup m k = Some True))"
| "msgpack_ok (VIMap kvs) = False"
| "msgpack_ok (VTyped n v) = msgpack_ok v"
| "msgpack_ok (VPtr x) = (case map_option msgpack_ok x of None \<Rightarrow> True | Some b \<Rightarrow> b)"

text \<open>A field of a message through msgpack, back in the field's type.\<close>

fun msgpack_field :: "(string fset \<Rightarrow> string list) \<Rightarrow> gval \<Rightarrow> gval" where
  "msgpack_field ord (VDict d) = VDict (map_option (fmmap (msgpack_view ord)) d)"
| "msgpack_field ord (VSlice l) = VSlice (map_option (map (msgpack_view ord)) l)"
| "msgpack_field ord v = v"

lemma to_string_bytes: "to_string (VBytes (bytes_of s)) = s"
proof -
  have "char_of (unat (word_of_nat (of_char c) :: 8 word)) = c" for c :: char
    using of_char_mod_256 [of c, where 'a = nat] by (simp add: unat_of_nat)
  then show ?thesis by (simp add: bytes_of_def comp_def map_idI)
qed

lemmas to_string_bytes_map = to_string_bytes [unfolded to_string.simps]

lemma msgpack_num_cases: "msgpack_num n = VInt64 (word_of_int n) \<or> msgpack_num n = VUint64 (word_of_int n)"
  by (simp add: msgpack_num_def)

lemma msgpack_num_back:
  "to_uint64 p (msgpack_num (uint w)) = w" "to_int64 p (msgpack_num (sint w)) = w"
  by (simp_all add: msgpack_num_def to_uint64_def to_int64_def)

lemma apply_field_num:
  "apply_field p i TID f (msgpack_num n) = Ok (VID (to_uint64 p (msgpack_num n)))"
  "apply_field p i TMsgType f (msgpack_num n) = Ok (VMsgType (to_int64 p (msgpack_num n)))"
  using msgpack_num_cases [of n]
  by (auto simp: apply_field_def assignable_def convertible_def int_types_def convert_to_def)

lemma apply_field_bytes:
  "apply_field p i TURI f (VBytes bs) = Ok (VURI (to_string (VBytes bs)))"
  "apply_field p i TString f (VBytes bs) = Ok (VString (to_string (VBytes bs)))"
  by (simp_all add: apply_field_def assignable_def convertible_def convert_to_def int_types_def)

text \<open>A dictionary: the loop of \<open>applyMap\<close> over the keys in any order rebuilds it.\<close>

lemma apply_field_dict:
  assumes "map_order ord"
  shows "apply_field p i TDict f (VIMap (map (\<lambda>k. (VString k, the (fmlookup m k))) (ord (fmdom m))))
    = Ok (VDict (Some m))"
proof -
  let ?kvs = "map (\<lambda>k. (VString k, the (fmlookup m k))) (ord (fmdom m))"
  have of: "map_of ?kvs (VString k) = fmlookup m k" for k
  proof (cases "fmlookup m k")
    case None
    then show ?thesis using assms by (auto simp: map_of_eq_None_iff fmlookup_dom_iff)
  next
    case (Some v)
    have "distinct (map fst ?kvs)" using assms by (simp add: comp_def distinct_map inj_on_def)
    then show ?thesis using Some assms by (force simp: fmlookup_dom_iff intro!: map_of_is_SomeI)
  qed
  have "\<forall>k \<in> set (map fst ?kvs). string_key k \<and> map_of ?kvs k \<noteq> None"
    using assms by (auto simp: string_key_def of fmlookup_dom_iff)
  from applyMap_strings [OF this, of p fmempty] obtain d where
    d: "applyMap_loop p ?kvs (map fst ?kvs) fmempty = Ok d"
    "\<And>s. fmlookup d s = (if VString s \<in> set (map fst ?kvs) then map_of ?kvs (VString s) else None)"
    by auto
  have "d = m"
  proof (rule fmap_ext)
    fix s
    show "fmlookup d s = fmlookup m s"
      using d(2) [of s] of [of s] assms by (cases "fmlookup m s") (auto simp: fmlookup_dom_iff image_iff)
  qed
  with d(1) show ?thesis by (simp add: apply_field_map applyMap_def)
qed

lemma apply_field_msgpack:
  assumes "map_order ord" and "T \<in> {TURI, TID, TMsgType, TString, TDict, TSlice}" and "type_of v = T"
    and "f \<in> set zero_values" and "type_of f = T"
  shows "apply_field p i T f (msgpack_view ord v) = Ok (msgpack_field ord v)"
proof (cases v)
  case (VDict d)
  then show ?thesis
  proof (cases d)
    case None
    with VDict assms show ?thesis by (auto simp: apply_field_def zero_values_def)
  next
    case (Some m)
    with VDict assms apply_field_dict [OF assms(1), of p i f "fmmap (msgpack_view ord) m"] show ?thesis by auto
  qed
next
  case (VSlice l)
  then show ?thesis
    using assms by (cases l) (auto simp: apply_field_def assignable_def zero_values_def)
qed (use assms in \<open>auto simp: apply_field_num msgpack_num_back apply_field_bytes to_string_bytes_map\<close>)

lemma msgpack_field_type: "type_of (msgpack_field ord v) = type_of v"
  by (cases v) simp_all

lemma msgpack_field_len: "gval_len (msgpack_field ord v) = gval_len v"
proof (cases v)
  case (VSlice l) then show ?thesis by (cases l) simp_all
next
  case (VDict d) then show ?thesis by (cases d) simp_all
qed simp_all

text \<open>The contract of the wire, for the sorted order of keys and for any other one.\<close>

lemma msgpack_codec: "map_order ord \<Longrightarrow> wire_codec (\<lambda>_. True) (msgpack_view ord) (msgpack_field ord)"
  by unfold_locales (simp_all add: apply_field_msgpack msgpack_field_type msgpack_field_len)

interpretation msgpack: wire_codec "\<lambda>_. True" "msgpack_view sorted_list_of_fset" "msgpack_field sorted_list_of_fset"
  by (rule msgpack_codec [OF map_order_sorted])

definition msgpack_message :: "(string fset \<Rightarrow> string list) \<Rightarrow> message \<Rightarrow> message" where
  "msgpack_message ord m = set_fields m (map (msgpack_field ord) (field_values m))"

lemma msgpack_code: "msgpack_view ord (VInt (MessageType_of m)) = VInt64 (MessageType_of m)"
  by (cases m) (simp_all add: msgpack_num_def mtypes)

lemma msgpack_carried:
  assumes "map_order ord" and "decode b = Inr (map (msgpack_view ord) (toList m))"
  shows "MessagePack_Deserialize p decode b = Ok (omit_empty (msgpack_message ord m))"
proof -
  note c = msgpack_codec [OF assms(1)]
  have "list_all (\<lambda>_. True) (field_values m)" by (simp add: list_all_iff)
  from wire_codec.apply_message_wire [OF c this, of p "VInt64 (MessageType_of m)"] assms(2)
  show ?thesis
    by (simp only: wire_codec.wire_message_def [OF c] MessagePack_Deserialize_def toList_n_sent list.simps(9)
        msgpack_code sum.case list.distinct if_False list.sel gval.case msgpack_message_def)
qed

section \<open>Property\<close>

text \<open>
  C26. Round trip through msgpack: if the codec returns what was written (with every value as msgpack
  represents it), then every message comes back with its identifiers, codes, strings and URIs
  unchanged, whatever their size, its dictionaries with the same keys, its arguments as msgpack
  represents them, and its trailing empty arguments nil.
\<close>

theorem msgpack_roundtrip:
  assumes "map_order ord" and "list_all msgpack_ok (toList m)" and "MessagePack_Serialize encode m = Inr b"
    and "\<And>xs b. list_all msgpack_ok xs \<Longrightarrow> encode xs = Inr b \<Longrightarrow> decode b = Inr (map (msgpack_view ord) xs)"
  shows "MessagePack_Deserialize p decode b = Ok (omit_empty (msgpack_message ord m))"
  by (rule msgpack_carried [OF assms(1)]) (use assms(2-4) in \<open>simp add: MessagePack_Serialize_def\<close>)

theorem msgpack_roundtrip_witness:
  "MessagePack_Deserialize demo_platform Inr [VInt64 33, VInt64 5, VUint64 (2 ^ 53 + 1)] =
     Ok (MSubscribed \<lparr>Subscribed_Request = 5, Subscribed_Subscription = 2 ^ 53 + 1\<rparr>)"
proof -
  let ?m = "MSubscribed \<lparr>Subscribed_Request = 5, Subscribed_Subscription = 2 ^ 53 + 1\<rparr>"
  have "MessagePack_Serialize (\<lambda>xs. Inr (map (msgpack_view sorted_list_of_fset) xs)) ?m =
      Inr [VInt64 33, VInt64 5, VUint64 (2 ^ 53 + 1)]"
    by (simp add: MessagePack_Serialize_def toList_def mtypes msgpack_num_def)
  from msgpack_roundtrip [OF map_order_sorted _ this, where decode = Inr and p = demo_platform]
  show ?thesis by (simp add: toList_def msgpack_message_def)
qed

end
