(* ===== verification/Websocket_Peer.thy ===== *)
theory Websocket_Peer
  imports Websocket Client Msgpack_Props
begin

text \<open>
  The rest of \<^verbatim>\<open>websocket.go\<close> and \<^verbatim>\<open>websocket_server.go\<close>: connecting a client, serving
  a connection, closing, and the two ends of a connection together.  Dialling, the HTTP upgrade and
  the writes are the library's: functions given as arguments.
\<close>

section \<open>A peer\<close>

record websocketPeer =
  ws_serializer :: serializer
  ws_payloadType :: int
  ws_closed :: bool

text \<open>
  \<open>newWebsocketPeer\<close>: \<open>dial\<close> gets the subprotocols to offer and returns an error or a connection.
\<close>

definition newWebsocketPeer ::
  "(string list \<Rightarrow> go_error + 'conn) \<Rightarrow> string \<Rightarrow> serializer \<Rightarrow> int \<Rightarrow> go_error + 'conn \<times> websocketPeer" where
  "newWebsocketPeer dial proto ser pt =
     (case dial [proto] of
        Inl err \<Rightarrow> Inl err
      | Inr conn \<Rightarrow> Inr (conn, \<lparr>ws_serializer = ser, ws_payloadType = pt, ws_closed = False\<rparr>))"

definition connect_peer ::
  "platform \<Rightarrow> (string list \<Rightarrow> go_error + 'conn) \<Rightarrow> int \<Rightarrow> go_error + 'conn \<times> websocketPeer" where
  "connect_peer p dial serialization =
     (case NewWebsocketPeer serialization of
        None \<Rightarrow> Inl (''Unsupported serialization: '' @ fmt_v p (VInt (word_of_int serialization)))
      | Some (proto, ser, pt) \<Rightarrow> newWebsocketPeer dial proto ser pt)"

definition NewWebsocketClient ::
  "platform \<Rightarrow> (string list \<Rightarrow> go_error + 'conn) \<Rightarrow> int \<Rightarrow> go_error + 'conn \<times> websocketPeer \<times> Client" where
  "NewWebsocketClient p dial serialization =
     (case connect_peer p dial serialization of
        Inl err \<Rightarrow> Inl err
      | Inr (conn, peer) \<Rightarrow> Inr (conn, peer, NewClient))"

text \<open>
  \<open>Close\<close>: a close frame with code 1000, whose failure is only logged, then the connection; the
  result is that of closing the connection.
\<close>

datatype ws_write = WritesClose int string | ClosesConn

definition ws_Close :: "go_error option \<Rightarrow> websocketPeer \<Rightarrow> websocketPeer \<times> ws_write list \<times> go_error option" where
  "ws_Close close_result ep =
     (ep\<lparr>ws_closed := True\<rparr>, [WritesClose 1000 ''goodbye'', ClosesConn], close_result)"

section \<open>Serving a connection\<close>

datatype http_effect = HttpError int string | ClosesUpgraded | AcceptsPeer websocketPeer

definition serve_upgraded :: "WebsocketServer \<Rightarrow> string \<Rightarrow> http_effect" where
  "serve_upgraded s subprotocol =
     (case handleWebsocket s subprotocol of
        None \<Rightarrow> ClosesUpgraded
      | Some (ser, pt) \<Rightarrow> AcceptsPeer \<lparr>ws_serializer = ser, ws_payloadType = pt, ws_closed = False\<rparr>)"

text \<open>\<open>upgrade\<close> gets the subprotocols of the server and returns an error or the negotiated one.\<close>

definition ServeHTTP :: "(string list \<Rightarrow> go_error + string) \<Rightarrow> WebsocketServer \<Rightarrow> http_effect" where
  "ServeHTTP upgrade s =
     (case upgrade (Subprotocols s) of
        Inl err \<Rightarrow> HttpError 400 err
      | Inr subprotocol \<Rightarrow> serve_upgraded s subprotocol)"

definition GetLocalClient :: "64 word \<Rightarrow> string \<Rightarrow> dict \<Rightarrow> WebsocketServer \<Rightarrow> router_error + Session \<times> Client" where
  "GetLocalClient draw realm details s =
     (case GetLocalPeer draw realm details (srv_Router s) of
        Inl err \<Rightarrow> Inl err
      | Inr sess \<Rightarrow> Inr (sess, NewClient))"

section \<open>Both ends of a connection\<close>

text \<open>
  The codecs of the two libraries, between lists of values and bytes, and the methods of serializers
  a program has registered; and the methods of every serializer with them.
\<close>

record 'b codecs =
  json_marshal :: "'b encoder"
  json_unmarshal :: "'b decoder"
  msgpack_encode :: "'b encoder"
  msgpack_decode :: "'b decoder"
  other_serialize :: "nat \<Rightarrow> message \<Rightarrow> go_error + 'b"
  other_deserialize :: "nat \<Rightarrow> 'b \<Rightarrow> message go_result"

fun serialize_with :: "'b codecs \<Rightarrow> serializer \<Rightarrow> message \<Rightarrow> go_error + 'b" where
  "serialize_with c JSONSerializer msg = JSON_Serialize (json_marshal c) msg"
| "serialize_with c MessagePackSerializer msg = MessagePack_Serialize (msgpack_encode c) msg"
| "serialize_with c (OtherSerializer n) msg = other_serialize c n msg"

fun deserialize_with :: "platform \<Rightarrow> 'b codecs \<Rightarrow> serializer \<Rightarrow> 'b \<Rightarrow> message go_result" where
  "deserialize_with p c JSONSerializer b = JSON_Deserialize p (json_unmarshal c) b"
| "deserialize_with p c MessagePackSerializer b = MessagePack_Deserialize p (msgpack_decode c) b"
| "deserialize_with p c (OtherSerializer n) b = other_deserialize c n b"

text \<open>The documented negotiation: the server's first subprotocol that the client offers, or none.\<close>

definition negotiates :: "(string list \<Rightarrow> string list \<Rightarrow> string) \<Rightarrow> bool" where
  "negotiates select \<longleftrightarrow> (\<forall>offered protos.
     select offered protos = (case find (\<lambda>x. x \<in> set offered) protos of Some x \<Rightarrow> x | None \<Rightarrow> []))"

lemma negotiates_single:
  "negotiates select \<Longrightarrow> x \<in> set protos \<Longrightarrow> select [x] protos = x"
  by (cases "find (\<lambda>y. y = x) protos") (auto simp: negotiates_def find_None_iff dest: find_SomeD)

lemma standard_protocol:
  "NewWebsocketPeer serialization = Some (proto, ser, pt) \<Longrightarrow>
   (proto, ser, pt) \<in> {(jsonWebsocketProtocol, JSONSerializer, TextMessage),
                       (msgpackWebsocketProtocol, MessagePackSerializer, BinaryMessage)}"
  by (auto simp: NewWebsocketPeer_def split: if_splits)

lemma server_speaks:
  assumes "NewWebsocketPeer serialization = Some (proto, ser, pt)"
  shows "proto \<in> set (Subprotocols (register_all regs (newWebsocketServer r)))"
    and "handleWebsocket (register_all regs (newWebsocketServer r)) proto = Some (ser, pt)"
proof -
  let ?s = "register_all regs (newWebsocketServer r)"
  have p: "fmlookup (protocols ?s) proto = Some \<lparr>payloadType = pt, proto_serializer = ser\<rparr>"
    using standard_protocol [OF assms] register_all_keeps [OF new_protocols(1)]
      register_all_keeps [OF new_protocols(2)] by auto
  then show "handleWebsocket ?s proto = Some (ser, pt)" by (simp add: handleWebsocket_def)
  have "ws_ok ?s" by (rule ws_ok_all [OF ws_ok_new])
  with p show "proto \<in> set (Subprotocols ?s)" by (auto simp: ws_ok_def intro: fmdomI)
qed

text \<open>What a message becomes on the other side.\<close>

fun received_as :: "(string fset \<Rightarrow> string list) \<Rightarrow> serializer \<Rightarrow> message \<Rightarrow> message" where
  "received_as ord JSONSerializer m = omit_empty (json_message m)"
| "received_as ord MessagePackSerializer m = omit_empty (msgpack_message ord m)"
| "received_as ord (OtherSerializer _) m = m"

fun can_carry :: "serializer \<Rightarrow> message \<Rightarrow> bool" where
  "can_carry JSONSerializer m = (list_all exact_field (field_values m) \<and> list_all json_ok (toList m))"
| "can_carry MessagePackSerializer m = list_all msgpack_ok (toList m)"
| "can_carry (OtherSerializer _) m = False"

definition codecs_faithful :: "(string fset \<Rightarrow> string list) \<Rightarrow> 'b codecs \<Rightarrow> bool" where
  "codecs_faithful ord c \<longleftrightarrow> map_order ord
     \<and> (\<forall>xs b. list_all json_ok xs \<longrightarrow> json_marshal c xs = Inr b \<longrightarrow> json_unmarshal c b = Inr (map json_view xs))
     \<and> (\<forall>xs b. list_all msgpack_ok xs \<longrightarrow> msgpack_encode c xs = Inr b \<longrightarrow>
          msgpack_decode c b = Inr (map (msgpack_view ord) xs))"

lemma carried:
  assumes "codecs_faithful ord c" and "can_carry ser m" and "serialize_with c ser m = Inr b"
  shows "deserialize_with p c ser b = Ok (received_as ord ser m)"
proof (cases ser)
  case JSONSerializer
  then show ?thesis
    using assms by (auto simp: codecs_faithful_def JSON_Serialize_def intro: json_carried)
next
  case MessagePackSerializer
  then show ?thesis
    using assms by (auto simp: codecs_faithful_def MessagePack_Serialize_def intro: msgpack_carried)
qed (use assms in simp)

section \<open>Property\<close>


text \<open>For the witness: codecs that keep the values, as their formats represent them.\<close>

definition demo_codecs :: "gval list codecs" where
  "demo_codecs = \<lparr>json_marshal = (\<lambda>xs. Inr (map json_view xs)), json_unmarshal = Inr,
     msgpack_encode = (\<lambda>xs. Inr (map (msgpack_view sorted_list_of_fset) xs)), msgpack_decode = Inr,
     other_serialize = (\<lambda>_ _. Inl []), other_deserialize = (\<lambda>_ _. Err [])\<rparr>"

definition demo_select :: "string list \<Rightarrow> string list \<Rightarrow> string" where
  "demo_select offered protos = (case find (\<lambda>x. x \<in> set offered) protos of Some x \<Rightarrow> x | None \<Rightarrow> [])"


end
