(* ===== verification/Log.thy ===== *)
theory Log
  imports Peer
begin

text \<open>
  \<^verbatim>\<open>log.go\<close>: the package variable \<open>log\<close>, the functions that set it and \<open>logErr\<close>.  A
  value of the interface \<open>Logger\<close> is nil, the silent logger, a \<open>log.Logger\<close> of the standard library or another
  implementation; the last two are known by a number, with \<open>stderr_logger\<close> the one that writes to
  \<open>os.Stderr\<close>.  Only \<open>logErr\<close> returns something; the other models leave out their calls of \<open>log\<close>.
\<close>

datatype Logger = NilLogger | NoopLogger | GlogLogger nat | OtherLogger nat

definition stderr_logger :: Logger where
  "stderr_logger = GlogLogger 0"

text \<open>\<open>init\<close>, given the value of the environment variable \<open>DEBUG\<close>.\<close>

definition log_init :: "string \<Rightarrow> Logger" where
  "log_init debug_env = (if debug_env \<noteq> [] then stderr_logger else NoopLogger)"

definition Debug :: "Logger \<Rightarrow> Logger" where
  "Debug l0 = stderr_logger"

definition DebugOff :: "Logger \<Rightarrow> Logger" where
  "DebugOff l0 = NoopLogger"

definition SetLogger :: "Logger \<Rightarrow> Logger \<Rightarrow> Logger" where
  "SetLogger l l0 = l"

datatype log_write = GlogOutput nat nat string | OtherPrintln nat string

text \<open>What is written, and the result: \<open>Panic\<close> for a method of the nil interface.\<close>

definition logErr :: "Logger \<Rightarrow> go_error option \<Rightarrow> log_write list \<times> go_error option go_result" where
  "logErr lg err =
     (case err of
        None \<Rightarrow> ([], Ok None)
      | Some e \<Rightarrow>
          (case lg of
             GlogLogger l \<Rightarrow> ([GlogOutput l 2 e], Ok err)
           | NoopLogger \<Rightarrow> ([], Ok err)
           | OtherLogger l \<Rightarrow> ([OtherPrintln l e], Ok err)
           | NilLogger \<Rightarrow> ([], Panic)))"

lemma logErr_returns: "lg \<noteq> NilLogger \<Longrightarrow> snd (logErr lg err) = Ok err"
  by (cases lg) (simp_all add: logErr_def split: option.splits)

lemma logErr_silent: "fst (logErr (DebugOff lg) err) = []"
  by (simp add: logErr_def DebugOff_def split: option.splits)

end
