(* ===== verification/Client_Steps.thy ===== *)
theory Client_Steps
  imports Client
begin

text \<open>
  The goroutines of a client: \<open>run\<close>, which executes the functions sent to \<open>acts\<close> and closes the
  listeners when \<open>acts\<close> is closed; \<open>Receive\<close>, which handles the router's messages and closes
  \<open>acts\<close> when the connection ends; and the callers of the request methods (\<open>Subscribe\<close>,
  \<open>Unsubscribe\<close>, \<open>Register\<close>, \<open>Unregister\<close>, \<open>Call\<close>), which all do the same up to their reply:
  register a listener, send, and wait on the listener.  \<open>client_step\<close> is one atomic action of one of
  them.  A send on the closed channel \<open>acts\<close> is a panic.
\<close>

section \<open>The goroutines\<close>

text \<open>
  Where a request is: not begun; its listener registered; its message sent; in the \<open>select\<close> of
  \<open>waitOnListener\<close> on a channel; past it, about to send the deletion of the listener; returned with a
  result; or the program has panicked in it.
\<close>

datatype request =
    ReqNew
  | ReqRegistered ID nat
  | ReqSent ID nat
  | ReqWaiting ID nat
  | ReqGot ID peer_read
  | ReqDone ID "go_error + message"
  | ReqPanicked

text \<open>The channel \<open>acts\<close>: open; closed by \<open>Receive\<close>; and seen to be closed by \<open>run\<close>, which has returned.\<close>

datatype acts_state = ActsOpen | ActsClosed | RunReturned

text \<open>Channels are numbered in the order in which they are made.\<close>

record client_world =
  cw_client :: Client
  cw_reqs :: "nat \<Rightarrow> request"
  cw_acts :: acts_state
  cw_l_closed :: "nat \<Rightarrow> bool"
  cw_made :: nat

definition set_req :: "nat \<Rightarrow> request \<Rightarrow> client_world \<Rightarrow> client_world" where
  "set_req t r w = w\<lparr>cw_reqs := (cw_reqs w)(t := r)\<rparr>"

definition set_client :: "Client \<Rightarrow> client_world \<Rightarrow> client_world" where
  "set_client c w = w\<lparr>cw_client := c\<rparr>"

definition unknown_listener :: "ID \<Rightarrow> go_error" where
  "unknown_listener i = ''unknown listener ID: '' @ decimal (unat i)"

definition register_act :: "ID \<Rightarrow> nat \<Rightarrow> client_world \<Rightarrow> client_world" where
  "register_act i t w =
     set_req t (ReqRegistered i (cw_made w))
       (set_client (registerListener (cw_made w) i (cw_client w)) (w\<lparr>cw_made := Suc (cw_made w)\<rparr>))"

definition lookup_act :: "ID \<Rightarrow> nat \<Rightarrow> client_world \<Rightarrow> client_world" where
  "lookup_act i t w =
     set_req t (case fmlookup (listeners (cw_client w)) i of
                  Some ch \<Rightarrow> ReqWaiting i ch
                | None \<Rightarrow> ReqDone i (Inl (unknown_listener i))) w"

definition delete_act :: "ID \<Rightarrow> peer_read \<Rightarrow> nat \<Rightarrow> client_world \<Rightarrow> client_world" where
  "delete_act i rd t w =
     set_req t (ReqDone i (listener_end rd)) (set_client (listener_delete i (cw_client w)) w)"

definition run_returns :: "client_world \<Rightarrow> client_world" where
  "run_returns w =
     w\<lparr>cw_acts := RunReturned,
       cw_l_closed := (\<lambda>ch. cw_l_closed w ch \<or> ch \<in> fset (fmran (listeners (cw_client w))))\<rparr>"

text \<open>
  \<open>client_step ok w w'\<close>; the identifiers drawn for requests satisfy \<open>ok\<close> in the world they are drawn in.
  A message for which \<open>Receive\<close> would block (the listener's channel is full) is not a step.
\<close>

inductive client_step :: "(client_world \<Rightarrow> ID \<Rightarrow> bool) \<Rightarrow> client_world \<Rightarrow> client_world \<Rightarrow> bool"
  for ok :: "client_world \<Rightarrow> ID \<Rightarrow> bool" where
  register: "cw_reqs w t = ReqNew \<Longrightarrow> cw_acts w = ActsOpen \<Longrightarrow> ok w (NewID draw) \<Longrightarrow>
    client_step ok w (register_act (NewID draw) t w)"
| register_panic: "cw_reqs w t = ReqNew \<Longrightarrow> cw_acts w \<noteq> ActsOpen \<Longrightarrow>
    client_step ok w (set_req t ReqPanicked w)"
| send: "cw_reqs w t = ReqRegistered i ch \<Longrightarrow> client_step ok w (set_req t (ReqSent i ch) w)"
| send_error: "cw_reqs w t = ReqRegistered i ch \<Longrightarrow> client_step ok w (set_req t (ReqDone i (Inl err)) w)"
| lookup: "cw_reqs w t = ReqSent i ch \<Longrightarrow> cw_acts w = ActsOpen \<Longrightarrow> client_step ok w (lookup_act i t w)"
| lookup_panic: "cw_reqs w t = ReqSent i ch \<Longrightarrow> cw_acts w \<noteq> ActsOpen \<Longrightarrow>
    client_step ok w (set_req t ReqPanicked w)"
| take: "cw_reqs w t = ReqWaiting i ch \<Longrightarrow> listener_take ch (cw_client w) = Some (msg, c) \<Longrightarrow>
    client_step ok w (set_req t (ReqGot i (Got msg)) (set_client c w))"
| wake: "cw_reqs w t = ReqWaiting i ch \<Longrightarrow> l_buf (cw_client w) ch = None \<Longrightarrow> cw_l_closed w ch \<Longrightarrow>
    client_step ok w (set_req t (ReqDone i (listener_end ReadClosed)) w)"
| timeout: "cw_reqs w t = ReqWaiting i ch \<Longrightarrow> client_step ok w (set_req t (ReqGot i ReadTimeout) w)"
| delete: "cw_reqs w t = ReqGot i rd \<Longrightarrow> cw_acts w = ActsOpen \<Longrightarrow> client_step ok w (delete_act i rd t w)"
| delete_panic: "cw_reqs w t = ReqGot i rd \<Longrightarrow> cw_acts w \<noteq> ActsOpen \<Longrightarrow>
    client_step ok w (set_req t ReqPanicked w)"
| receive: "cw_acts w = ActsOpen \<Longrightarrow> client_receive msg (cw_client w) = Some (c, actions) \<Longrightarrow>
    client_step ok w (set_client c w)"
| connection_ends: "cw_acts w = ActsOpen \<Longrightarrow> client_step ok w (w\<lparr>cw_acts := ActsClosed\<rparr>)"
| run_returns: "cw_acts w = ActsClosed \<Longrightarrow> client_step ok w (run_returns w)"

definition client_start :: client_world where
  "client_start = \<lparr>cw_client = NewClient, cw_reqs = (\<lambda>_. ReqNew), cw_acts = ActsOpen,
     cw_l_closed = (\<lambda>_. False), cw_made = 0\<rparr>"

definition client_reach :: "(client_world \<Rightarrow> ID \<Rightarrow> bool) \<Rightarrow> client_world \<Rightarrow> bool" where
  "client_reach ok w \<longleftrightarrow> (client_step ok)\<^sup>*\<^sup>* client_start w"

lemmas client_acts = register_act_def lookup_act_def delete_act_def run_returns_def set_req_def set_client_def

lemma client_reach_start: "client_reach ok client_start"
  by (simp add: client_reach_def)

lemma client_reach_step: "client_reach ok w \<Longrightarrow> client_step ok w w' \<Longrightarrow> client_reach ok w'"
  unfolding client_reach_def by (rule rtranclp.rtrancl_into_rtrancl)

lemma client_reach_induct [consumes 1, case_names start step]:
  assumes "client_reach ok w" and "P client_start"
    and "\<And>w w'. client_reach ok w \<Longrightarrow> P w \<Longrightarrow> client_step ok w w' \<Longrightarrow> P w'"
  shows "P w"
  using assms(1) unfolding client_reach_def
  by (induction rule: rtranclp_induct) (auto intro: assms(2,3) simp: client_reach_def)

section \<open>A request gets its own reply\<close>

text \<open>The request a message of the router answers.\<close>

fun reply_to :: "message \<Rightarrow> ID option" where
  "reply_to (MRegistered m) = Some (Registered_Request m)"
| "reply_to (MSubscribed m) = Some (Subscribed_Request m)"
| "reply_to (MUnsubscribed m) = Some (Unsubscribed_Request m)"
| "reply_to (MUnregistered m) = Some (Unregistered_Request m)"
| "reply_to (MResult m) = Some (Result_Request m)"
| "reply_to (MError m) = Some (Error_Request m)"
| "reply_to _ = None"

text \<open>\<open>Receive\<close> passes replies to the listener of their request and changes nothing else.\<close>

lemma client_receive_cases:
  assumes "client_receive msg c = Some (c', actions)"
  obtains (same) "c' = c"
  | (buffered) i ch where "reply_to msg = Some i" "fmlookup (listeners c) i = Some ch" "l_buf c ch = None"
      "c' = c\<lparr>l_buf := (l_buf c)(ch := Some msg)\<rparr>"
proof (cases "reply_to msg")
  case None
  with assms have "c' = c" by (cases msg) auto
  then show thesis by (rule same)
next
  case (Some i)
  with assms have "notifyListener msg i c = Some c'" by (cases msg) auto
  then show thesis
    using Some by (auto simp: notifyListener_def split: option.splits if_splits intro: same buffered)
qed

text \<open>Every channel was made for one request identifier, \<open>owner ch\<close>.\<close>

definition replies_ok :: "(nat \<Rightarrow> ID) \<Rightarrow> client_world \<Rightarrow> bool" where
  "replies_ok owner w \<longleftrightarrow>
     (\<forall>i ch. fmlookup (listeners (cw_client w)) i = Some ch \<longrightarrow> owner ch = i \<and> ch < cw_made w)
     \<and> (\<forall>ch msg. ch < cw_made w \<longrightarrow> l_buf (cw_client w) ch = Some msg \<longrightarrow> reply_to msg = Some (owner ch))
     \<and> (\<forall>t i ch. cw_reqs w t = ReqWaiting i ch \<longrightarrow> owner ch = i \<and> ch < cw_made w)
     \<and> (\<forall>t i msg. cw_reqs w t = ReqGot i (Got msg) \<longrightarrow> reply_to msg = Some i)
     \<and> (\<forall>t i msg. cw_reqs w t = ReqDone i (Inr msg) \<longrightarrow> reply_to msg = Some i)"

lemma replies_okD:
  assumes "replies_ok owner w"
  shows "fmlookup (listeners (cw_client w)) i = Some ch \<Longrightarrow> owner ch = i \<and> ch < cw_made w"
    and "ch < cw_made w \<Longrightarrow> l_buf (cw_client w) ch = Some msg \<Longrightarrow> reply_to msg = Some (owner ch)"
    and "cw_reqs w t = ReqWaiting i ch \<Longrightarrow> owner ch = i \<and> ch < cw_made w"
    and "cw_reqs w t = ReqGot i (Got msg) \<Longrightarrow> reply_to msg = Some i"
    and "cw_reqs w t = ReqDone i (Inr msg) \<Longrightarrow> reply_to msg = Some i"
  using assms by (auto simp: replies_ok_def)

text \<open>A step that leaves client and channels alone and moves one request.\<close>

lemma replies_ok_req:
  assumes "replies_ok owner w"
    and "\<And>i ch. r = ReqWaiting i ch \<Longrightarrow> owner ch = i \<and> ch < cw_made w"
    and "\<And>i msg. r = ReqGot i (Got msg) \<or> r = ReqDone i (Inr msg) \<Longrightarrow> reply_to msg = Some i"
  shows "replies_ok owner (set_req t r w)"
  using assms by (auto simp: replies_ok_def set_req_def)

lemma replies_ok_step:
  assumes "client_step ok w w'" and inv: "replies_ok owner w"
  shows "\<exists>owner'. replies_ok owner' w'"
  using assms(1)
proof cases
  case (register t draw)
  have old: "cw_reqs w t' \<noteq> ReqWaiting j (cw_made w)" "fmlookup (listeners (cw_client w)) j \<noteq> Some (cw_made w)"
    for t' j
    using replies_okD(1,3) [OF inv] less_irrefl by blast+
  have "replies_ok (owner(cw_made w := NewID draw)) w'"
    using replies_okD [OF inv] old
    by (auto simp: replies_ok_def register client_acts registerListener_def less_Suc_eq)
  then show ?thesis by blast
next
  case (lookup t i ch)
  have "replies_ok owner w'"
    unfolding lookup lookup_act_def
    by (rule replies_ok_req [OF inv]) (auto dest: replies_okD(1) [OF inv] split: option.splits)
  then show ?thesis by blast
next
  case (take t i ch msg c)
  have m: "l_buf (cw_client w) ch = Some msg" "c = (cw_client w)\<lparr>l_buf := (l_buf (cw_client w))(ch := None)\<rparr>"
    using take(3) by (auto simp: listener_take_def split: option.splits)
  have r: "reply_to msg = Some i" using replies_okD(2) [OF inv _ m(1)] replies_okD(3) [OF inv take(2)] by simp
  have "replies_ok owner (set_client c w)"
    using inv by (auto simp: replies_ok_def set_client_def m(2) split: if_splits)
  then have "replies_ok owner w'"
    unfolding take(1) by (rule replies_ok_req) (simp_all add: r)
  then show ?thesis by blast
next
  case (delete t i rd)
  have "replies_ok owner (set_client (listener_delete i (cw_client w)) w)"
    using inv by (auto simp: replies_ok_def set_client_def listener_delete_def split: if_splits)
  then have "replies_ok owner w'"
    unfolding delete(1) delete_act_def
    by (rule replies_ok_req) (use replies_okD(4) [OF inv] delete(2) in \<open>cases rd; auto\<close>)+
  then show ?thesis by blast
next
  case (receive msg c actions)
  from receive(3) have "replies_ok owner w'"
  proof (cases rule: client_receive_cases)
    case same
    with inv show ?thesis by (simp add: receive(1) set_client_def replies_ok_def)
  next
    case (buffered i ch)
    with inv replies_okD(1) [OF inv buffered(2)] show ?thesis
      by (auto simp: receive(1) set_client_def replies_ok_def split: if_splits)
  qed
  then show ?thesis by blast
next
  case connection_ends
  with inv have "replies_ok owner w'" by (simp add: replies_ok_def)
  then show ?thesis by blast
next
  case run_returns
  with inv have "replies_ok owner w'" by (simp add: replies_ok_def run_returns_def)
  then show ?thesis by blast
qed (use inv in \<open>auto intro!: exI [of _ owner] replies_ok_req\<close>)

lemma replies_ok_reach: "client_reach ok w \<Longrightarrow> \<exists>owner. replies_ok owner w"
proof (induction rule: client_reach_induct)
  case start
  show ?case by (auto simp: replies_ok_def client_start_def NewClient_def)
qed (auto intro: replies_ok_step)

section \<open>Requests in flight\<close>

fun in_flight :: "request \<Rightarrow> ID option" where
  "in_flight (ReqRegistered i ch) = Some i"
| "in_flight (ReqSent i ch) = Some i"
| "in_flight (ReqWaiting i ch) = Some i"
| "in_flight (ReqGot i rd) = Some i"
| "in_flight _ = None"

fun listens_on :: "request \<Rightarrow> (ID \<times> nat) option" where
  "listens_on (ReqRegistered i ch) = Some (i, ch)"
| "listens_on (ReqSent i ch) = Some (i, ch)"
| "listens_on (ReqWaiting i ch) = Some (i, ch)"
| "listens_on _ = None"

text \<open>Identifiers that no request in flight uses.\<close>

definition fresh_request :: "client_world \<Rightarrow> ID \<Rightarrow> bool" where
  "fresh_request w i \<longleftrightarrow> (\<forall>t. in_flight (cw_reqs w t) \<noteq> Some i)"

definition listeners_ok :: "client_world \<Rightarrow> bool" where
  "listeners_ok w \<longleftrightarrow>
     (\<forall>t i ch. listens_on (cw_reqs w t) = Some (i, ch) \<longrightarrow> fmlookup (listeners (cw_client w)) i = Some ch)
     \<and> (\<forall>t t' i. in_flight (cw_reqs w t) = Some i \<longrightarrow> in_flight (cw_reqs w t') = Some i \<longrightarrow> t = t')
     \<and> (cw_acts w = RunReturned \<longrightarrow>
          (\<forall>i ch. fmlookup (listeners (cw_client w)) i = Some ch \<longrightarrow> cw_l_closed w ch))"

lemma listeners_okD:
  assumes "listeners_ok w"
  shows "listens_on (cw_reqs w t) = Some (i, ch) \<Longrightarrow> fmlookup (listeners (cw_client w)) i = Some ch"
    and "in_flight (cw_reqs w t) = Some i \<Longrightarrow> in_flight (cw_reqs w t') = Some i \<Longrightarrow> t = t'"
    and "cw_acts w = RunReturned \<Longrightarrow> fmlookup (listeners (cw_client w)) i = Some ch \<Longrightarrow> cw_l_closed w ch"
  using assms unfolding listeners_ok_def by blast+

lemma listens_in_flight: "listens_on r = Some (i, ch) \<Longrightarrow> in_flight r = Some i"
  by (cases r) auto

lemma listeners_ok_req:
  assumes ok: "listeners_ok w"
    and "\<And>i. in_flight r = Some i \<Longrightarrow> in_flight (cw_reqs w t) = Some i"
    and "\<And>i ch. listens_on r = Some (i, ch) \<Longrightarrow> fmlookup (listeners (cw_client w)) i = Some ch"
  shows "listeners_ok (set_req t r w)"
  using listeners_okD [OF ok] assms(2,3) unfolding listeners_ok_def set_req_def
  by (simp add: fun_upd_apply) blast

lemma listeners_ok_client:
  "listeners_ok w \<Longrightarrow> listeners c = listeners (cw_client w) \<Longrightarrow> listeners_ok (set_client c w)"
  by (simp add: listeners_ok_def set_client_def)

lemma listeners_ok_step:
  assumes "client_step fresh_request w w'" and inv: "listeners_ok w"
  shows "listeners_ok w'"
  using assms(1)
proof cases
  case (register t draw)
  then have f: "in_flight (cw_reqs w t') \<noteq> Some (NewID draw)" for t' by (simp add: fresh_request_def)
  then have l: "listens_on (cw_reqs w t') \<noteq> Some (NewID draw, ch)" for t' ch
    using listens_in_flight by metis
  show ?thesis
    using listeners_okD [OF inv] f l register(3)
    unfolding listeners_ok_def register(1) client_acts registerListener_def
    by (auto split: if_splits)
next
  case (lookup t i ch)
  then have "fmlookup (listeners (cw_client w)) i = Some ch" using listeners_okD(1) [OF inv, of t i ch] by simp
  then show ?thesis
    unfolding lookup(1) lookup_act_def by (intro listeners_ok_req [OF inv]) (simp_all add: lookup)
next
  case (send t i ch)
  then have "fmlookup (listeners (cw_client w)) i = Some ch" using listeners_okD(1) [OF inv, of t i ch] by simp
  then show ?thesis unfolding send(1) by (intro listeners_ok_req [OF inv]) (simp_all add: send)
next
  case (take t i ch msg c)
  then have "listeners c = listeners (cw_client w)" by (auto simp: listener_take_def split: option.splits)
  with inv have "listeners_ok (set_client c w)" by (rule listeners_ok_client)
  then show ?thesis
    unfolding take(1) by (rule listeners_ok_req) (simp_all add: take set_client_def)
next
  case (delete t i rd)
  have other: "listens_on (cw_reqs w t') = Some (j, ch) \<Longrightarrow> t' \<noteq> t \<Longrightarrow> j \<noteq> i" for t' j ch
    using listeners_okD(2) [OF inv, of t' i t] delete(2) listens_in_flight by fastforce
  show ?thesis
    using listeners_okD [OF inv] other delete(3)
    unfolding listeners_ok_def delete(1) client_acts listener_delete_def
    by (auto split: if_splits)
next
  case (receive msg c actions)
  from receive(3) have "listeners c = listeners (cw_client w)"
    by (cases rule: client_receive_cases) simp_all
  with inv show ?thesis unfolding receive(1) by (rule listeners_ok_client)
next
  case connection_ends
  with inv show ?thesis by (simp add: listeners_ok_def)
next
  case run_returns
  with inv show ?thesis by (auto simp: listeners_ok_def run_returns_def fmlookup_ran'_iff intro: fmranI)
qed (use inv in \<open>auto intro!: listeners_ok_req dest: listeners_okD(1)\<close>)

lemma listeners_ok_reach: "client_reach fresh_request w \<Longrightarrow> listeners_ok w"
proof (induction rule: client_reach_induct)
  case start
  show ?case by (simp add: listeners_ok_def client_start_def NewClient_def)
qed (rule listeners_ok_step)

section \<open>Progress of requests\<close>

fun request_work :: "request \<Rightarrow> nat" where
  "request_work ReqNew = 5"
| "request_work (ReqRegistered _ _) = 4"
| "request_work (ReqSent _ _) = 3"
| "request_work (ReqWaiting _ _) = 2"
| "request_work (ReqGot _ _) = 1"
| "request_work _ = 0"

lemma request_moves:
  "client_step ok w w' \<Longrightarrow> cw_reqs w' t \<noteq> cw_reqs w t \<Longrightarrow>
   request_work (cw_reqs w' t) < request_work (cw_reqs w t)"
  by (erule client_step.cases) (auto simp: client_acts split: if_splits option.splits)


lemma acts_progress: "client_step ok w w' \<Longrightarrow> cw_acts w \<noteq> ActsOpen \<Longrightarrow> cw_acts w' \<noteq> ActsOpen"
  by (erule client_step.cases) (auto simp: client_acts)

text \<open>A request whose message is sent can always take its next step while \<open>acts\<close> is open.\<close>

lemma request_next:
  assumes "cw_acts w = ActsOpen" and "in_flight (cw_reqs w t) = Some i"
  shows "\<exists>w'. client_step ok w w' \<and> cw_acts w' = ActsOpen
    \<and> (in_flight (cw_reqs w' t) = Some i \<or> (\<exists>res. cw_reqs w' t = ReqDone i res))
    \<and> request_work (cw_reqs w' t) < request_work (cw_reqs w t)"
proof (cases "cw_reqs w t")
  case (ReqRegistered j ch)
  then show ?thesis
    using assms by (intro exI [of _ "set_req t (ReqSent j ch) w"]) (auto simp: set_req_def intro: client_step.send [unfolded set_req_def])
next
  case (ReqSent j ch)
  then have "client_step ok w (lookup_act j t w)" using assms(1) by (rule client_step.lookup)
  moreover have "cw_acts (lookup_act j t w) = ActsOpen" "j = i"
    using assms ReqSent by (simp_all add: lookup_act_def set_req_def)
  moreover have "in_flight (cw_reqs (lookup_act j t w) t) = Some j \<or> (\<exists>res. cw_reqs (lookup_act j t w) t = ReqDone j res)"
    "request_work (cw_reqs (lookup_act j t w) t) < request_work (cw_reqs w t)"
    using ReqSent by (simp_all add: lookup_act_def set_req_def split: option.splits)
  ultimately show ?thesis by blast
next
  case (ReqWaiting j ch)
  then show ?thesis
    using assms
    by (intro exI [of _ "set_req t (ReqGot j ReadTimeout) w"]) (auto simp: set_req_def intro: client_step.timeout [unfolded set_req_def])
next
  case (ReqGot j rd)
  then have "client_step ok w (delete_act j rd t w)" using assms(1) by (rule client_step.delete)
  moreover have "cw_acts (delete_act j rd t w) = ActsOpen" "cw_reqs (delete_act j rd t w) t = ReqDone i (listener_end rd)"
    using assms ReqGot by (simp_all add: delete_act_def set_req_def set_client_def)
  ultimately show ?thesis using ReqGot by auto
qed (use assms(2) in auto)

lemma request_can_return:
  assumes "cw_acts w = ActsOpen" and "in_flight (cw_reqs w t) = Some i"
  shows "\<exists>n w' res. n \<le> request_work (cw_reqs w t) \<and> (client_step ok ^^ n) w w' \<and> cw_reqs w' t = ReqDone i res"
  using assms
proof (induction "request_work (cw_reqs w t)" arbitrary: w rule: less_induct)
  case less
  obtain w1 where w1: "client_step ok w w1" "cw_acts w1 = ActsOpen"
      "in_flight (cw_reqs w1 t) = Some i \<or> (\<exists>res. cw_reqs w1 t = ReqDone i res)"
      "request_work (cw_reqs w1 t) < request_work (cw_reqs w t)"
    using request_next [OF less.prems] by blast
  have "\<exists>n w' res. n \<le> request_work (cw_reqs w1 t) \<and> (client_step ok ^^ n) w1 w' \<and> cw_reqs w' t = ReqDone i res"
    using w1(3)
  proof
    assume "\<exists>res. cw_reqs w1 t = ReqDone i res"
    then show ?thesis by (intro exI [of _ 0]) auto
  qed (rule less.hyps [OF w1(4,2)])
  then obtain n w' res where n: "n \<le> request_work (cw_reqs w1 t)" "(client_step ok ^^ n) w1 w'" "cw_reqs w' t = ReqDone i res"
    by blast
  from w1(1) n(2) have "(client_step ok ^^ Suc n) w w'" by (rule relpowp_Suc_I2)
  with n(1,3) w1(4) show ?case by (intro exI [of _ "Suc n"]) auto
qed

section \<open>The properties\<close>

text \<open>
  C16. A request that returns a message returns an answer to that request, whatever the client's other
  requests do.
\<close>

theorem own_reply:
  assumes "client_reach ok w" and "cw_reqs w t = ReqDone i (Inr msg)"
  shows "reply_to msg = Some i"
  using replies_ok_reach [OF assms(1)] replies_okD(5) assms(2) by blast

text \<open>
  A run for the witnesses: request 0 draws the identifier 5 and sends; its reply arrives; it takes the reply;
  then either the connection ends or the request deletes its listener and returns.
\<close>

definition demo_reply :: message where
  "demo_reply = MSubscribed \<lparr>Subscribed_Request = 5, Subscribed_Subscription = 9\<rparr>"

definition demo_registered :: client_world where
  "demo_registered = register_act (NewID 5) 0 client_start"

definition demo_waiting :: client_world where
  "demo_waiting = lookup_act 5 0 (set_req 0 (ReqSent 5 0) demo_registered)"

definition demo_got :: client_world where
  "demo_got = set_req 0 (ReqGot 5 (Got demo_reply)) demo_waiting"

lemmas demo_defs = demo_registered_def demo_waiting_def demo_got_def demo_reply_def client_acts client_start_def
  registerListener_def NewClient_def

lemma NewID_5: "NewID 5 = 5"
  by (simp add: NewID_def maxID_def)

lemma demo_waiting_eq:
  "cw_reqs demo_waiting 0 = ReqWaiting 5 0" "cw_acts demo_waiting = ActsOpen"
  "fmlookup (listeners (cw_client demo_waiting)) 5 = Some 0" "l_buf (cw_client demo_waiting) = (\<lambda>_. None)"
  by (simp_all add: demo_defs NewID_5)

lemma demo_reach_waiting:
  assumes "ok client_start 5" shows "client_reach ok demo_waiting"
proof -
  have "client_step ok client_start demo_registered"
    unfolding demo_registered_def
    by (rule client_step.register) (use assms in \<open>simp_all add: client_start_def NewID_5\<close>)
  moreover have "client_step ok demo_registered (set_req 0 (ReqSent 5 0) demo_registered)"
    by (rule client_step.send) (simp add: demo_defs NewID_5)
  moreover have "client_step ok (set_req 0 (ReqSent 5 0) demo_registered) demo_waiting"
    unfolding demo_waiting_def by (rule client_step.lookup [where ch = 0]) (simp_all add: demo_defs)
  ultimately show ?thesis by (meson client_reach_start client_reach_step)
qed

lemma demo_reach_got:
  assumes "ok client_start 5" shows "client_reach ok demo_got"
proof -
  let ?c = "cw_client demo_waiting"
  let ?b = "?c\<lparr>l_buf := (l_buf ?c)(0 := Some demo_reply)\<rparr>"
  have "client_receive demo_reply ?c = Some (?b, [])"
    by (simp add: demo_reply_def notifyListener_def demo_waiting_eq)
  then have "client_step ok demo_waiting (set_client ?b demo_waiting)"
    by (intro client_step.receive) (simp_all add: demo_waiting_eq)
  moreover have "listener_take 0 ?b = Some (demo_reply, ?c)"
    by (simp add: listener_take_def demo_waiting_eq)
  then have "client_step ok (set_client ?b demo_waiting)
      (set_req 0 (ReqGot 5 (Got demo_reply)) (set_client ?c (set_client ?b demo_waiting)))"
    by (intro client_step.take [where ch = 0]) (simp_all add: set_client_def demo_waiting_eq)
  moreover have "set_client ?c (set_client ?b demo_waiting) = demo_waiting"
    by (simp add: set_client_def)
  ultimately show ?thesis
    using demo_reach_waiting [where ok = ok, OF assms] unfolding demo_got_def by (metis client_reach_step)
qed

theorem own_reply_witness:
  "reply_to demo_reply = Some 5 \<and>
   (\<exists>w. client_reach fresh_request w \<and> cw_reqs w 0 = ReqDone 5 (Inr demo_reply))"
proof -
  let ?w = "delete_act 5 (Got demo_reply) 0 demo_got"
  have "client_reach fresh_request demo_got"
    by (rule demo_reach_got) (simp add: fresh_request_def client_start_def)
  moreover have "client_step fresh_request demo_got ?w"
    by (rule client_step.delete) (simp_all add: demo_got_def set_req_def demo_waiting_eq)
  ultimately have r: "client_reach fresh_request ?w" by (rule client_reach_step)
  have d: "cw_reqs ?w 0 = ReqDone 5 (Inr demo_reply)"
    by (simp add: delete_act_def set_req_def)
  show ?thesis using own_reply [OF r d] r d by blast
qed



text \<open>
  C30. When \<open>run\<close> has returned, no request waits for ever: while no request draws the identifier of another one in
  flight, the channel of a waiting request is closed, and the request can at once go on with the message in it or
  with the error of a closed listener.
\<close>

theorem waiters_woken:
  assumes "client_reach fresh_request w" and "cw_acts w = RunReturned" and "cw_reqs w t = ReqWaiting i ch"
  shows "cw_l_closed w ch \<and> (\<exists>w'. client_step fresh_request w w' \<and>
    cw_reqs w' t = (case l_buf (cw_client w) ch of
        None \<Rightarrow> ReqDone i (Inl ''listener closed while waiting for message'')
      | Some msg \<Rightarrow> ReqGot i (Got msg)))"
proof -
  have ok: "listeners_ok w" using assms(1) by (rule listeners_ok_reach)
  have "fmlookup (listeners (cw_client w)) i = Some ch" using listeners_okD(1) [OF ok, of t i ch] assms(3) by simp
  then have closed: "cw_l_closed w ch" using listeners_okD(3) [OF ok assms(2)] by blast
  show ?thesis
  proof (cases "l_buf (cw_client w) ch")
    case None
    then show ?thesis
      using client_step.wake [OF assms(3) None closed, of fresh_request] closed
      by (auto simp: set_req_def)
  next
    case (Some msg)
    then have "listener_take ch (cw_client w) = Some (msg, (cw_client w)\<lparr>l_buf := (l_buf (cw_client w))(ch := None)\<rparr>)"
      by (simp add: listener_take_def)
    from client_step.take [OF assms(3) this, of fresh_request] Some closed show ?thesis
      by (auto simp: set_req_def set_client_def)
  qed
qed

text \<open>
  A send on the closed channel \<open>acts\<close> panics.  So when the connection ends, a request that is about to register its listener, has sent
  its message, or has just received its reply can only panic: the client's process dies with it.
\<close>

theorem closing_panics:
  assumes "cw_acts w \<noteq> ActsOpen"
    and "cw_reqs w t = ReqNew \<or> cw_reqs w t = ReqSent i ch \<or> cw_reqs w t = ReqGot i rd"
  shows "(\<exists>w'. client_step ok w w' \<and> cw_reqs w' t = ReqPanicked)
    \<and> (\<forall>w'. (client_step ok)\<^sup>*\<^sup>* w w' \<longrightarrow> cw_reqs w' t = cw_reqs w t \<or> cw_reqs w' t = ReqPanicked)"
proof
  have "client_step ok w (set_req t ReqPanicked w)"
    using assms client_step.register_panic client_step.lookup_panic client_step.delete_panic by metis
  then show "\<exists>w'. client_step ok w w' \<and> cw_reqs w' t = ReqPanicked"
    by (intro exI [of _ "set_req t ReqPanicked w"]) (simp add: set_req_def)
  have step: "cw_acts v' \<noteq> ActsOpen \<and> (cw_reqs v' t = r \<or> cw_reqs v' t = ReqPanicked)"
    if "client_step ok v v'" "cw_acts v \<noteq> ActsOpen" "cw_reqs v t = r \<or> cw_reqs v t = ReqPanicked"
      "r = ReqNew \<or> r = ReqSent i ch \<or> r = ReqGot i rd" for v v' r
    using that by (cases rule: client_step.cases) (auto simp: client_acts)
  have "(client_step ok)\<^sup>*\<^sup>* w w' \<Longrightarrow> cw_acts w' \<noteq> ActsOpen \<and> (cw_reqs w' t = cw_reqs w t \<or> cw_reqs w' t = ReqPanicked)" for w'
    by (induction rule: rtranclp_induct) (use assms step in blast)+
  then show "\<forall>w'. (client_step ok)\<^sup>*\<^sup>* w w' \<longrightarrow> cw_reqs w' t = cw_reqs w t \<or> cw_reqs w' t = ReqPanicked"
    by blast
qed

theorem waiters_woken_witness:
  "\<exists>w w'. client_reach fresh_request w \<and> client_step fresh_request w w'
     \<and> cw_reqs w' 0 = ReqDone 5 (Inl ''listener closed while waiting for message'')"
proof -
  let ?w = "run_returns (demo_waiting\<lparr>cw_acts := ActsClosed\<rparr>)"
  have "client_reach fresh_request demo_waiting"
    by (rule demo_reach_waiting) (simp add: fresh_request_def client_start_def)
  moreover have "client_step fresh_request demo_waiting (demo_waiting\<lparr>cw_acts := ActsClosed\<rparr>)"
    by (rule client_step.connection_ends) (simp add: demo_waiting_eq)
  moreover have "client_step fresh_request (demo_waiting\<lparr>cw_acts := ActsClosed\<rparr>) ?w"
    by (rule client_step.run_returns) simp
  ultimately have r: "client_reach fresh_request ?w" by (meson client_reach_step)
  have "cw_reqs ?w 0 = ReqWaiting 5 0" "cw_acts ?w = RunReturned" "l_buf (cw_client ?w) 0 = None"
    by (simp_all add: run_returns_def demo_waiting_eq)
  with waiters_woken [OF r, of 0 5 0] r show ?thesis by auto
qed

theorem closing_panics_witness:
  "\<exists>w w'. client_reach fresh_request w \<and> cw_reqs w 0 = ReqGot 5 (Got demo_reply)
     \<and> client_step fresh_request w w' \<and> cw_reqs w' 0 = ReqPanicked"
proof -
  let ?w = "demo_got\<lparr>cw_acts := ActsClosed\<rparr>"
  have "client_reach fresh_request demo_got"
    by (rule demo_reach_got) (simp add: fresh_request_def client_start_def)
  moreover have "client_step fresh_request demo_got ?w"
    by (rule client_step.connection_ends) (simp add: demo_got_def set_req_def demo_waiting_eq)
  ultimately have r: "client_reach fresh_request ?w" by (rule client_reach_step)
  have g: "cw_reqs ?w 0 = ReqGot 5 (Got demo_reply)" by (simp add: demo_got_def set_req_def)
  show ?thesis
    using closing_panics [of ?w 0 5 0 "Got demo_reply" fresh_request] g r by auto
qed

end
