(* ===== verification/Client_Runs.thy ===== *)
theory Client_Runs
  imports Client_Steps Simulation
begin

text \<open>
  Runs of a client seen from its connection: every step of \<open>client_step\<close> sends the message of a
  request, takes a message that has arrived, or does neither (\<open>client_event\<close>).  What holds of the
  messages a run sends and receives.
\<close>

datatype client_label = SendsRequest nat ID | CReceives message | CInternal

text \<open>Nothing is sent and nothing arrives.\<close>

definition quiet :: "client_world \<Rightarrow> client_world \<Rightarrow> bool" where
  "quiet w w' \<longleftrightarrow>
     (\<forall>t i ch. cw_reqs w t = ReqRegistered i ch \<longrightarrow> cw_reqs w' t \<noteq> ReqSent i ch)
     \<and> (\<forall>ch msg. l_buf (cw_client w') ch = Some msg \<longrightarrow> l_buf (cw_client w) ch = Some msg)"

inductive client_event ::
  "(client_world \<Rightarrow> ID \<Rightarrow> bool) \<Rightarrow> client_world \<Rightarrow> client_label \<Rightarrow> client_world \<Rightarrow> unit \<Rightarrow> bool"
  for ok :: "client_world \<Rightarrow> ID \<Rightarrow> bool" where
  sends: "cw_reqs w t = ReqRegistered i ch \<Longrightarrow> client_event ok w (SendsRequest t i) (set_req t (ReqSent i ch) w) ()"
| receives: "cw_acts w = ActsOpen \<Longrightarrow> client_receive msg (cw_client w) = Some (c, actions) \<Longrightarrow>
    client_event ok w (CReceives msg) (set_client c w) ()"
| internal: "client_step ok w w' \<Longrightarrow> quiet w w' \<Longrightarrow> client_event ok w CInternal w' ()"

inductive_cases client_sendsE: "client_event ok w (SendsRequest t i) w' u"
inductive_cases client_receivesE: "client_event ok w (CReceives msg) w' u"
inductive_cases client_internalE: "client_event ok w CInternal w' u"

text \<open>The labels leave nothing out and add nothing.\<close>

lemma client_event_iff: "(\<exists>lab. client_event ok w lab w' ()) \<longleftrightarrow> client_step ok w w'"
proof
  assume "\<exists>lab. client_event ok w lab w' ()"
  then show "client_step ok w w'"
    by (auto elim!: client_event.cases intro: client_step.send client_step.receive)
next
  assume step: "client_step ok w w'"
  then show "\<exists>lab. client_event ok w lab w' ()"
  proof cases
    case (send t i ch)
    then show ?thesis by (blast intro: client_event.sends)
  next
    case (receive msg c actions)
    then show ?thesis by (blast intro: client_event.receives)
  next
    case (take t i ch msg c)
    then have "quiet w w'"
      by (auto simp: quiet_def client_acts listener_take_def split: option.splits if_splits)
    with step show ?thesis by (blast intro: client_event.internal)
  qed (use step in \<open>intro exI, rule client_event.internal;
         auto simp: quiet_def client_acts registerListener_def listener_delete_def split: if_splits option.splits\<close>)+
qed

section \<open>Identifiers\<close>

text \<open>The identifier a request has drawn, while the program has not panicked in it.\<close>

fun req_id :: "request \<Rightarrow> ID option" where
  "req_id (ReqDone i res) = Some i"
| "req_id r = in_flight r"

text \<open>Identifiers that no request of the client has had.\<close>

definition never_used :: "client_world \<Rightarrow> ID \<Rightarrow> bool" where
  "never_used w i \<longleftrightarrow> (\<forall>t. req_id (cw_reqs w t) \<noteq> Some i)"

lemma in_flight_req_id: "in_flight r = Some i \<Longrightarrow> req_id r = Some i"
  by (cases r) auto

lemma never_used_fresh: "never_used w i \<Longrightarrow> fresh_request w i"
  unfolding never_used_def fresh_request_def using in_flight_req_id by blast

text \<open>
  What a run has sent: while \<open>acts\<close> is open, the identifiers of the requests that have sent; and no
  request has the identifier of another one that has sent.
\<close>

definition sent_ok :: "(nat \<times> ID) set \<Rightarrow> client_world \<Rightarrow> bool" where
  "sent_ok sent w \<longleftrightarrow>
     (cw_acts w = ActsOpen \<longrightarrow> (\<forall>(t, i) \<in> sent. req_id (cw_reqs w t) = Some i))
     \<and> (cw_acts w = ActsOpen \<longrightarrow> (\<forall>t. cw_reqs w t \<noteq> ReqPanicked))
     \<and> (\<forall>(t', i) \<in> sent. \<forall>t. req_id (cw_reqs w t) = Some i \<longrightarrow> t = t')
     \<and> (\<forall>t t' i. req_id (cw_reqs w t) = Some i \<longrightarrow> req_id (cw_reqs w t') = Some i \<longrightarrow> t = t')"

lemma sent_okD:
  assumes "sent_ok sent w"
  shows "cw_acts w = ActsOpen \<Longrightarrow> (t, i) \<in> sent \<Longrightarrow> req_id (cw_reqs w t) = Some i"
    and "cw_acts w = ActsOpen \<Longrightarrow> cw_reqs w t \<noteq> ReqPanicked"
    and "(t', i) \<in> sent \<Longrightarrow> req_id (cw_reqs w t) = Some i \<Longrightarrow> t = t'"
    and "req_id (cw_reqs w t) = Some i \<Longrightarrow> req_id (cw_reqs w t') = Some i \<Longrightarrow> t = t'"
  using assms unfolding sent_ok_def by blast+

text \<open>A step after which no request has a new identifier.\<close>

lemma sent_ok_ids:
  assumes ok: "sent_ok sent w"
    and sub: "\<And>t i. req_id (cw_reqs w' t) = Some i \<Longrightarrow> req_id (cw_reqs w t) = Some i"
    and open_w: "cw_acts w' = ActsOpen \<Longrightarrow> cw_acts w = ActsOpen \<and>
      (\<forall>t. req_id (cw_reqs w' t) = req_id (cw_reqs w t) \<and> cw_reqs w' t \<noteq> ReqPanicked)"
  shows "sent_ok sent w'"
  unfolding sent_ok_def
proof (intro conjI impI ballI allI; clarify?)
  fix t i
  assume "cw_acts w' = ActsOpen" "(t, i) \<in> sent"
  with open_w sent_okD(1) [OF ok] show "req_id (cw_reqs w' t) = Some i" by simp
next
  fix t i t'
  assume "(t', i) \<in> sent" "req_id (cw_reqs w' t) = Some i"
  with sub sent_okD(3) [OF ok] show "t = t'" by blast
next
  fix t t' i
  assume "req_id (cw_reqs w' t) = Some i" "req_id (cw_reqs w' t') = Some i"
  with sub sent_okD(4) [OF ok] show "t = t'" by blast
qed (use open_w in blast)

lemma sent_ok_step:
  assumes "client_step never_used w w'" and ok: "sent_ok sent w"
  shows "sent_ok sent w'"
  using assms(1)
proof cases
  case (register t draw)
  then have new: "req_id (cw_reqs w t') \<noteq> Some (NewID draw)" for t' by (simp add: never_used_def)
  have t: "(t, i) \<notin> sent" for i using sent_okD(1) [OF ok register(3)] register(2) by fastforce
  have n: "(t', NewID draw) \<notin> sent" for t' using sent_okD(1) [OF ok register(3)] new by blast
  show ?thesis
    using sent_okD [OF ok] new register(3) t n
    unfolding sent_ok_def register(1) client_acts
    by (auto split: if_splits) 
next
  case (lookup t i ch)
  then show ?thesis
    by (intro sent_ok_ids [OF ok])
       (auto simp: client_acts sent_okD(2) [OF ok] split: if_splits option.splits)
qed (auto intro!: sent_ok_ids [OF ok] simp: client_acts sent_okD(2) [OF ok] split: if_splits)


lemma sent_ok_event:
  assumes "client_event never_used w lab w' u" and ok: "sent_ok sent w"
  shows "sent_ok (case lab of SendsRequest t i \<Rightarrow> insert (t, i) sent | _ \<Rightarrow> sent) w'"
  using assms(1)
proof cases
  case (sends t i ch)
  have "sent_ok sent w'"
    using sent_ok_step [OF client_step.send [OF sends(4)] ok] sends by simp
  moreover have "req_id (cw_reqs w' t) = Some i" by (simp add: sends set_req_def)
  ultimately show ?thesis unfolding sends(1) sent_ok_def by auto
next
  case (receives msg c actions)
  from sent_ok_step [OF client_step.receive [OF receives(4,5)] ok] receives show ?thesis by simp
next
  case internal
  from sent_ok_step [OF internal(3) ok] internal show ?thesis by simp
qed

section \<open>Messages\<close>

definition held_ok :: "message set \<Rightarrow> client_world \<Rightarrow> bool" where
  "held_ok got w \<longleftrightarrow>
     (\<forall>ch msg. l_buf (cw_client w) ch = Some msg \<longrightarrow> msg \<in> got)
     \<and> (\<forall>t i msg. cw_reqs w t = ReqGot i (Got msg) \<or> cw_reqs w t = ReqDone i (Inr msg) \<longrightarrow> msg \<in> got)"

lemma held_okD:
  assumes "held_ok got w"
  shows "l_buf (cw_client w) ch = Some msg \<Longrightarrow> msg \<in> got" "cw_reqs w t = ReqGot i (Got msg) \<Longrightarrow> msg \<in> got"
    "cw_reqs w t = ReqDone i (Inr msg) \<Longrightarrow> msg \<in> got"
  using assms unfolding held_ok_def by blast+

lemma held_ok_mono: "held_ok got w \<Longrightarrow> got \<subseteq> got' \<Longrightarrow> held_ok got' w"
  unfolding held_ok_def by blast

lemma listener_end_Inr: "listener_end rd = Inr msg \<longleftrightarrow> rd = Got msg"
  by (cases rd) auto

lemma held_ok_step:
  assumes "client_step ok w w'" and inv: "held_ok got w" and q: "\<And>ch msg. l_buf (cw_client w') ch = Some msg \<Longrightarrow> msg \<in> got"
  shows "held_ok got w'"
  using assms(1)
proof cases
  case (take t i ch msg c)
  then have "msg \<in> got" using held_okD(1) [OF inv, of ch msg] by (auto simp: listener_take_def split: option.splits)
  with take q held_okD [OF inv] show ?thesis by (auto simp: held_ok_def client_acts split: if_splits)
qed (use q held_okD [OF inv] in \<open>auto simp: held_ok_def client_acts listener_end_Inr split: if_splits option.splits\<close>)

lemma held_ok_event:
  assumes "client_event ok w lab w' u" and inv: "held_ok got w"
  shows "held_ok (case lab of CReceives msg \<Rightarrow> insert msg got | _ \<Rightarrow> got) w'"
  using assms(1)
proof cases
  case (sends t i ch)
  with inv show ?thesis by (auto simp: held_ok_def set_req_def)
next
  case (receives msg c actions)
  have "held_ok (insert msg got) w" using inv by (rule held_ok_mono) blast
  then have "held_ok (insert msg got) w'"
  proof (rule held_ok_step [OF client_step.receive [OF receives(4,5), of ok, folded receives(2)]])
    fix ch m assume "l_buf (cw_client w') ch = Some m"
    moreover from receives(5) have "l_buf c ch = Some m \<Longrightarrow> l_buf (cw_client w) ch = Some m \<or> m = msg"
      by (cases rule: client_receive_cases) (auto split: if_splits)
    ultimately show "m \<in> insert msg got"
      using held_okD(1) [OF inv] by (auto simp: receives(2) set_client_def)
  qed
  with receives(1) show ?thesis by simp
next
  case internal
  have "held_ok got w'"
    by (rule held_ok_step [OF internal(3) inv]) (use internal(4) held_okD(1) [OF inv] quiet_def in blast)
  with internal(1) show ?thesis by simp
qed

section \<open>Runs\<close>

definition sent_of :: "client_label list \<Rightarrow> (nat \<times> ID) set" where
  "sent_of ls = {(t, i). SendsRequest t i \<in> set ls}"

definition received_of :: "client_label list \<Rightarrow> message set" where
  "received_of ls = {msg. CReceives msg \<in> set ls}"

lemma client_run_ok:
  assumes "runs (client_event never_used) client_start ls w outs"
  shows "client_reach never_used w \<and> sent_ok (sent_of ls) w \<and> held_ok (received_of ls) w"
  using assms
proof (induction rule: runs_rev_induct)
  case stop
  show ?case
    using client_reach_start [of never_used]
    by (auto simp: sent_ok_def held_ok_def sent_of_def client_start_def NewClient_def)
next
  case (snoc ls w1 outs lab w2 out)
  have "client_step never_used w1 w2" using snoc.hyps(2) client_event_iff [of never_used w1 w2] by (cases out) auto
  then have "client_reach never_used w2" using snoc.IH client_reach_step by blast
  moreover have "sent_ok (case lab of SendsRequest t i \<Rightarrow> insert (t, i) (sent_of ls) | _ \<Rightarrow> sent_of ls) w2"
    using sent_ok_event [OF snoc.hyps(2)] snoc.IH by blast
  then have "sent_ok (sent_of (ls @ [lab])) w2"
    by (rule back_subst [of "\<lambda>x. sent_ok x w2"]) (auto simp: sent_of_def split: client_label.splits)
  moreover have "held_ok (case lab of CReceives msg \<Rightarrow> insert msg (received_of ls) | _ \<Rightarrow> received_of ls) w2"
    using held_ok_event [OF snoc.hyps(2)] snoc.IH by blast
  then have "held_ok (received_of (ls @ [lab])) w2"
    by (rule back_subst [of "\<lambda>x. held_ok x w2"]) (auto simp: received_of_def split: client_label.splits)
  ultimately show ?case by simp
qed

text \<open>A message that a request returns has arrived in the run, and only that request has sent its identifier.\<close>

lemma run_reply:
  assumes "runs (client_event never_used) client_start ls w outs" and "cw_reqs w t = ReqDone i (Inr msg)"
  shows "CReceives msg \<in> set ls" and "reply_to msg = Some i" and "SendsRequest t' i \<in> set ls \<Longrightarrow> t' = t"
proof -
  note ok = client_run_ok [OF assms(1)]
  show "CReceives msg \<in> set ls"
    using ok held_okD(3) [OF _ assms(2)] by (auto simp: received_of_def)
  show "reply_to msg = Some i"
    using ok replies_ok_reach replies_okD(5) assms(2) by blast
  assume "SendsRequest t' i \<in> set ls"
  moreover have "req_id (cw_reqs w t) = Some i" by (simp add: assms(2))
  ultimately show "t' = t"
    using ok sent_okD(3) by (fastforce simp: sent_of_def)
qed

end
