(* ===== verification/Local_Peer.thy ===== *)
theory Local_Peer
  imports Session Simulation Go_Reflect
begin

text \<open>
  The rest of \<^verbatim>\<open>session.go\<close>: buffered channels, \<open>localPipe\<close> and the \<open>Peer\<close> methods of its two
  ends.  A channel operation goes through, blocks, or panics.  The channels stand in a heap, so that the two ends share
  them as in the code.
\<close>

section \<open>Channels\<close>

datatype 'a outcome = Goes 'a | Blocks | Panics

record channel =
  ch_cap :: nat
  ch_buf :: "message list"
  ch_closed :: bool

definition make_chan :: "nat \<Rightarrow> channel" where
  "make_chan n = \<lparr>ch_cap = n, ch_buf = [], ch_closed = False\<rparr>"

definition chan_send :: "message \<Rightarrow> channel \<Rightarrow> channel outcome" where
  "chan_send m c =
     (if ch_closed c then Panics
      else if length (ch_buf c) < ch_cap c then Goes (c\<lparr>ch_buf := ch_buf c @ [m]\<rparr>)
      else Blocks)"

definition chan_recv :: "channel \<Rightarrow> (channel \<times> peer_read) outcome" where
  "chan_recv c =
     (case ch_buf c of
        m # ms \<Rightarrow> Goes (c\<lparr>ch_buf := ms\<rparr>, Got m)
      | [] \<Rightarrow> if ch_closed c then Goes (c, ReadClosed) else Blocks)"

definition chan_close :: "channel \<Rightarrow> channel outcome" where
  "chan_close c = (if ch_closed c then Panics else Goes (c\<lparr>ch_closed := True\<rparr>))"

lemmas chan_defs = chan_send_def chan_recv_def chan_close_def make_chan_def

section \<open>The ends of a pipe\<close>

type_synonym channels = "nat \<Rightarrow> channel"

record localPeer =
  outgoing :: nat
  incoming :: nat

text \<open>\<open>localPipe n\<close> makes its channels at the free addresses \<open>n\<close> and \<open>Suc n\<close>.\<close>

definition localPipe :: "nat \<Rightarrow> channels \<Rightarrow> (localPeer \<times> localPeer) \<times> channels" where
  "localPipe n h =
     (let aToB = n; bToA = Suc n
      in ((\<lparr>outgoing = aToB, incoming = bToA\<rparr>, \<lparr>outgoing = bToA, incoming = aToB\<rparr>),
          h(aToB := make_chan 10, bToA := make_chan 10)))"

definition localPeer_Receive :: "localPeer \<Rightarrow> nat" where
  "localPeer_Receive s = incoming s"

definition localPeer_Send :: "localPeer \<Rightarrow> message \<Rightarrow> channels \<Rightarrow> (channels \<times> go_error option) outcome" where
  "localPeer_Send s msg h =
     (case chan_send msg (h (outgoing s)) of
        Goes c \<Rightarrow> Goes (h(outgoing s := c), None)
      | Blocks \<Rightarrow> Blocks
      | Panics \<Rightarrow> Panics)"

definition localPeer_Close :: "localPeer \<Rightarrow> channels \<Rightarrow> (channels \<times> go_error option) outcome" where
  "localPeer_Close s h =
     (case chan_close (h (outgoing s)) of
        Goes c \<Rightarrow> Goes (h(outgoing s := c), None)
      | Blocks \<Rightarrow> Blocks
      | Panics \<Rightarrow> Panics)"

text \<open>\<open><-s.Receive()\<close>.\<close>

definition read_peer :: "localPeer \<Rightarrow> channels \<Rightarrow> (channels \<times> peer_read) outcome" where
  "read_peer s h =
     (case chan_recv (h (localPeer_Receive s)) of
        Goes (c, rd) \<Rightarrow> Goes (h(localPeer_Receive s := c), rd)
      | Blocks \<Rightarrow> Blocks
      | Panics \<Rightarrow> Panics)"

definition Session_String :: "Session \<Rightarrow> string" where
  "Session_String s = decimal (unat (Session_Id s))"

section \<open>Runs\<close>

datatype side = SideA | SideB

fun other :: "side \<Rightarrow> side" where
  "other SideA = SideB"
| "other SideB = SideA"

fun end_of :: "localPeer \<times> localPeer \<Rightarrow> side \<Rightarrow> localPeer" where
  "end_of (a, b) SideA = a"
| "end_of (a, b) SideB = b"

datatype pipe_op = SendBy side message | ReadBy side | CloseBy side

fun pipe_exec :: "localPeer \<times> localPeer \<Rightarrow> pipe_op \<Rightarrow> channels \<Rightarrow> (channels \<times> peer_read option) outcome" where
  "pipe_exec p (SendBy x msg) h =
     (case localPeer_Send (end_of p x) msg h of Goes (h', _) \<Rightarrow> Goes (h', None) | Blocks \<Rightarrow> Blocks | Panics \<Rightarrow> Panics)"
| "pipe_exec p (ReadBy x) h =
     (case read_peer (end_of p x) h of Goes (h', rd) \<Rightarrow> Goes (h', Some rd) | Blocks \<Rightarrow> Blocks | Panics \<Rightarrow> Panics)"
| "pipe_exec p (CloseBy x) h =
     (case localPeer_Close (end_of p x) h of Goes (h', _) \<Rightarrow> Goes (h', None) | Blocks \<Rightarrow> Blocks | Panics \<Rightarrow> Panics)"

definition pipe_step :: "localPeer \<times> localPeer \<Rightarrow> channels \<Rightarrow> pipe_op \<Rightarrow> channels \<Rightarrow> peer_read option \<Rightarrow> bool" where
  "pipe_step p h op h' out \<longleftrightarrow> pipe_exec p op h = Goes (h', out)"

text \<open>What an operation puts into the queue of side \<open>x\<close>, and what it takes out of it.\<close>

fun puts_by :: "side \<Rightarrow> pipe_op \<Rightarrow> message list" where
  "puts_by x (SendBy y msg) = (if y = x then [msg] else [])"
| "puts_by x _ = []"

fun gets_from :: "side \<Rightarrow> pipe_op \<Rightarrow> peer_read option \<Rightarrow> message list" where
  "gets_from x (ReadBy y) (Some (Got m)) = (if y = other x then [m] else [])"
| "gets_from x _ _ = []"

section \<open>Queues\<close>

text \<open>
  The contract of a queue inside a labelled system: what is waiting, followed by what a step puts in, is what
  the step takes out followed by what then waits.
\<close>

locale message_queue =
  fixes step :: "'s \<Rightarrow> 'l \<Rightarrow> 's \<Rightarrow> 'out \<Rightarrow> bool"
    and puts :: "'l \<Rightarrow> 'out \<Rightarrow> 'm list"
    and gets :: "'l \<Rightarrow> 'out \<Rightarrow> 'm list"
    and waiting :: "'s \<Rightarrow> 'm list"
    and fit :: "'s \<Rightarrow> bool"
  assumes fit_step: "fit s \<Longrightarrow> step s l s' out \<Longrightarrow> fit s'"
    and queue_step: "fit s \<Longrightarrow> step s l s' out \<Longrightarrow> waiting s @ puts l out = gets l out @ waiting s'"
begin

lemma fit_runs: "runs step s ls s' outs \<Longrightarrow> fit s \<Longrightarrow> fit s'"
  by (induction rule: runs.induct) (auto dest: fit_step)

lemma fifo:
  "runs step s ls s' outs \<Longrightarrow> fit s \<Longrightarrow>
   waiting s @ concat (map2 puts ls outs) = concat (map2 gets ls outs) @ waiting s'"
proof (induction rule: runs.induct)
  case (go s l s' out ls s'' outs)
  have "waiting s @ puts l out @ concat (map2 puts ls outs) = gets l out @ waiting s' @ concat (map2 puts ls outs)"
    using queue_step [OF go.prems go.hyps(1)] by (metis append.assoc)
  with go.IH fit_step [OF go.prems go.hyps(1)] show ?case by simp
qed simp

end

lemma map2_fst: "length outs = length ls \<Longrightarrow> map2 (\<lambda>l _. f l) ls outs = map f ls"
  by (induction ls outs rule: list_induct2') simp_all

lemma map2_snd: "length outs = length ls \<Longrightarrow> map2 (\<lambda>_ out. f out) ls outs = map f outs"
  by (induction ls outs rule: list_induct2') simp_all

definition chan_of :: "localPeer \<times> localPeer \<Rightarrow> side \<Rightarrow> channels \<Rightarrow> channel" where
  "chan_of p x h = h (outgoing (end_of p x))"

text \<open>The pipe at the addresses 0 and 1.\<close>

definition the_pipe :: "localPeer \<times> localPeer" where
  "the_pipe = fst (localPipe 0 (\<lambda>_. make_chan 0))"

definition new_pipe :: channels where
  "new_pipe = snd (localPipe 0 (\<lambda>_. make_chan 0))"

lemma the_pipe_ends:
  "outgoing (end_of the_pipe SideA) = 0" "incoming (end_of the_pipe SideA) = 1"
  "outgoing (end_of the_pipe SideB) = 1" "incoming (end_of the_pipe SideB) = 0"
  by (simp_all add: the_pipe_def localPipe_def)

lemma incoming_other: "incoming (end_of the_pipe x) = outgoing (end_of the_pipe (other x))"
  by (cases x) (simp_all add: the_pipe_ends)

lemma outgoing_eq: "outgoing (end_of the_pipe x) = outgoing (end_of the_pipe y) \<longleftrightarrow> x = y"
  by (cases x; cases y) (simp_all add: the_pipe_ends)

lemma other_other [simp]: "other (other x) = x" "other x \<noteq> x" "x \<noteq> other x"
  by (cases x; simp)+

lemma chan_of_upd:
  "chan_of the_pipe x (h(outgoing (end_of the_pipe y) := c)) = (if x = y then c else chan_of the_pipe x h)"
  by (simp add: chan_of_def outgoing_eq)

text \<open>What each operation does to the channels of the pipe.\<close>

lemma pipe_stepE:
  assumes "pipe_step the_pipe h op h' out"
  obtains (send) x m where "op = SendBy x m" "out = None" "\<not> ch_closed (chan_of the_pipe x h)"
      "length (ch_buf (chan_of the_pipe x h)) < ch_cap (chan_of the_pipe x h)"
      "\<And>y. chan_of the_pipe y h' = (if y = x then (chan_of the_pipe x h)\<lparr>ch_buf := ch_buf (chan_of the_pipe x h) @ [m]\<rparr>
                               else chan_of the_pipe y h)"
  | (got) x m ms where "op = ReadBy (other x)" "out = Some (Got m)" "ch_buf (chan_of the_pipe x h) = m # ms"
      "\<And>y. chan_of the_pipe y h' = (if y = x then (chan_of the_pipe x h)\<lparr>ch_buf := ms\<rparr> else chan_of the_pipe y h)"
  | (ended) x where "op = ReadBy (other x)" "out = Some ReadClosed" "ch_buf (chan_of the_pipe x h) = []"
      "ch_closed (chan_of the_pipe x h)" "\<And>y. chan_of the_pipe y h' = chan_of the_pipe y h"
  | (close) x where "op = CloseBy x" "out = None" "\<not> ch_closed (chan_of the_pipe x h)"
      "\<And>y. chan_of the_pipe y h' = (if y = x then (chan_of the_pipe x h)\<lparr>ch_closed := True\<rparr> else chan_of the_pipe y h)"
proof (cases op)
  case (SendBy x m)
  with assms show thesis
    by (intro send [of x m])
       (auto simp: pipe_step_def localPeer_Send_def chan_send_def chan_of_upd chan_of_def [of _ x h]
          split: outcome.splits if_splits)
next
  case (ReadBy x)
  have in_x: "incoming (end_of the_pipe x) = outgoing (end_of the_pipe (other x))" by (rule incoming_other)
  show thesis
  proof (cases "ch_buf (chan_of the_pipe (other x) h)")
    case Nil
    with assms ReadBy show thesis
      by (intro ended [of "other x"])
         (auto simp: pipe_step_def read_peer_def localPeer_Receive_def chan_recv_def in_x chan_of_def split: if_splits)
  next
    case (Cons m ms)
    with assms ReadBy show thesis
      by (intro got [of "other x" m ms])
         (auto simp: pipe_step_def read_peer_def localPeer_Receive_def chan_recv_def in_x chan_of_upd
            chan_of_def [of _ "other x" h])
  qed
next
  case (CloseBy x)
  with assms show thesis
    by (intro close [of x])
       (auto simp: pipe_step_def localPeer_Close_def chan_close_def chan_of_upd chan_of_def [of _ x h]
          split: outcome.splits if_splits)
qed


definition pipe_fit :: "channels \<Rightarrow> bool" where
  "pipe_fit h \<longleftrightarrow> (\<forall>x. ch_cap (chan_of the_pipe x h) = 10 \<and> length (ch_buf (chan_of the_pipe x h)) \<le> 10)"

lemma pipe_fit_step: "pipe_fit h \<Longrightarrow> pipe_step the_pipe h op h' out \<Longrightarrow> pipe_fit h'"
proof (erule pipe_stepE)
  fix x m ms
  assume h: "pipe_fit h" "ch_buf (chan_of the_pipe x h) = m # ms"
    and y: "\<And>y. chan_of the_pipe y h' = (if y = x then (chan_of the_pipe x h)\<lparr>ch_buf := ms\<rparr> else chan_of the_pipe y h)"
  from h have "length (m # ms) \<le> 10" unfolding pipe_fit_def by metis
  with h y show "pipe_fit h'" by (simp add: pipe_fit_def)
qed (auto simp: pipe_fit_def Suc_le_eq)

lemma pipe_queue_step:
  "pipe_step the_pipe h op h' out \<Longrightarrow>
   ch_buf (chan_of the_pipe x h) @ puts_by x op = gets_from x op out @ ch_buf (chan_of the_pipe x h')"
  by (erule pipe_stepE) (auto dest: arg_cong [where f = other])

interpretation pipe: message_queue "pipe_step the_pipe" "\<lambda>op _. puts_by x op" "gets_from x"
    "\<lambda>h. ch_buf (chan_of the_pipe x h)" pipe_fit for x
  by unfold_locales (rule pipe_fit_step pipe_queue_step, assumption+)+

lemma chan_of_new: "chan_of the_pipe x new_pipe = make_chan 10"
  by (cases x) (simp_all add: chan_of_def the_pipe_ends new_pipe_def localPipe_def)

lemma pipe_fit_new: "pipe_fit new_pipe"
  by (simp add: pipe_fit_def chan_of_new make_chan_def)

lemma pipe_closed_runs:
  "runs (pipe_step the_pipe) h ls h' outs \<Longrightarrow>
   ch_closed (chan_of the_pipe x h') \<longleftrightarrow> ch_closed (chan_of the_pipe x h) \<or> CloseBy x \<in> set ls"
proof (induction rule: runs.induct)
  case (go h op h1 out ls h' outs)
  from go.hyps(1) have "ch_closed (chan_of the_pipe x h1) \<longleftrightarrow> ch_closed (chan_of the_pipe x h) \<or> op = CloseBy x"
    by (rule pipe_stepE) auto
  with go.IH show ?case by auto
qed simp

section \<open>Properties\<close>

text \<open>
  Whatever the two ends of a pipe do, each end reads what the other sent, in that order, nothing lost and nothing
  twice, with at most ten messages under way; and an end that is told that the channel is closed has read everything and the
  other end has called \<open>Close\<close>.
\<close>

theorem pipe_in_order:
  assumes "runs (pipe_step the_pipe) new_pipe ls h outs"
  shows "\<exists>under_way. length under_way \<le> 10
    \<and> concat (map (puts_by x) ls) = concat (map2 (gets_from x) ls outs) @ under_way
    \<and> (\<forall>h'. pipe_step the_pipe h (ReadBy (other x)) h' (Some ReadClosed) \<longrightarrow> under_way = [] \<and> CloseBy x \<in> set ls)"
proof (intro exI conjI)
  let ?under_way = "ch_buf (chan_of the_pipe x h)"
  show "length ?under_way \<le> 10" using pipe.fit_runs [OF assms pipe_fit_new] by (simp add: pipe_fit_def)
  show "concat (map (puts_by x) ls) = concat (map2 (gets_from x) ls outs) @ ?under_way"
    using pipe.fifo [OF assms pipe_fit_new, of x]
    by (simp add: chan_of_new make_chan_def map2_fst [OF runs_length [OF assms]])
  have "pipe_step the_pipe h (ReadBy (other x)) h' (Some ReadClosed) \<Longrightarrow>
      ?under_way = [] \<and> ch_closed (chan_of the_pipe x h)" for h'
    by (erule pipe_stepE) (auto dest: arg_cong [where f = other])
  then show "\<forall>h'. pipe_step the_pipe h (ReadBy (other x)) h' (Some ReadClosed) \<longrightarrow>
      ?under_way = [] \<and> CloseBy x \<in> set ls"
    using pipe_closed_runs [OF assms, of x] by (auto simp: chan_of_new make_chan_def)
qed

text \<open>
  The panics of a pipe: exactly a \<open>Send\<close> or a \<open>Close\<close> of an end that has called \<open>Close\<close> before.  The comment of the interface
  says that further calls of \<open>Close\<close> have no effect.
\<close>

theorem pipe_panics:
  assumes "runs (pipe_step the_pipe) new_pipe ls h outs"
  shows "pipe_exec the_pipe op h = Panics \<longleftrightarrow>
    (\<exists>x. CloseBy x \<in> set ls \<and> (op = CloseBy x \<or> (\<exists>msg. op = SendBy x msg)))"
proof -
  have closed: "ch_closed (h (outgoing (end_of the_pipe x))) \<longleftrightarrow> CloseBy x \<in> set ls" for x
    using pipe_closed_runs [OF assms, of x] chan_of_new [of x] by (simp add: make_chan_def chan_of_def)
  show ?thesis
    by (cases op)
       (auto simp: localPeer_Send_def localPeer_Close_def read_peer_def chan_defs closed split: outcome.splits list.splits)
qed

text \<open>For the witnesses: one end sends a message and closes, the other reads it and the end of the channel.\<close>

definition demo_ops :: "pipe_op list" where
  "demo_ops = [SendBy SideA (MSubscribed \<lparr>Subscribed_Request = 1, Subscribed_Subscription = 2\<rparr>), CloseBy SideA, ReadBy SideB]"

definition demo_outs :: "peer_read option list" where
  "demo_outs = [None, None, Some (Got (MSubscribed \<lparr>Subscribed_Request = 1, Subscribed_Subscription = 2\<rparr>))]"

lemma demo_pipe_run: "\<exists>h. runs (pipe_step the_pipe) new_pipe demo_ops h demo_outs"
  unfolding demo_ops_def demo_outs_def
  by (rule exI, (rule runs.go, simp add: pipe_step_def localPeer_Send_def localPeer_Close_def read_peer_def
        localPeer_Receive_def chan_defs the_pipe_def new_pipe_def localPipe_def)+, rule runs.stop)

theorem pipe_in_order_witness:
  "concat (map (puts_by SideA) demo_ops) = concat (map2 (gets_from SideA) demo_ops demo_outs)"
proof -
  obtain h where "runs (pipe_step the_pipe) new_pipe demo_ops h demo_outs" using demo_pipe_run by blast
  from pipe_in_order [OF this, of SideA] show ?thesis by (auto simp: demo_ops_def demo_outs_def)
qed

theorem pipe_panics_witness:
  "\<exists>h. runs (pipe_step the_pipe) new_pipe demo_ops h demo_outs \<and> pipe_exec the_pipe (CloseBy SideA) h = Panics
     \<and> pipe_exec the_pipe (CloseBy SideB) h \<noteq> Panics"
proof -
  obtain h where r: "runs (pipe_step the_pipe) new_pipe demo_ops h demo_outs" using demo_pipe_run by blast
  show ?thesis
    using pipe_panics [OF r, of "CloseBy SideA"] pipe_panics [OF r, of "CloseBy SideB"] r
    by (intro exI [of _ h]) (auto simp: demo_ops_def)
qed

end
