(* ===== verification/Links.thy ===== *)
theory Links
  imports Handshake Websocket_Peer Client_Steps
begin

text \<open>
  What a connection does to the messages that pass through it.  A local peer passes them on as they are; a websocket
  peer serializes them, and what its format does to values changes dictionaries and lists of arguments, but nothing else:
  the kind of a message, its identifiers and its URIs arrive as they were sent (\<open>head\<close>).
\<close>

section \<open>The head of a message\<close>

fun erase :: "gval \<Rightarrow> gval" where
  "erase (VDict d) = VDict None"
| "erase (VSlice l) = VSlice None"
| "erase v = v"

definition head :: "message \<Rightarrow> message" where
  "head m = set_fields m (map erase (field_values m))"

lemma head_simps [simp]:
  "head (MHello m1) = MHello \<lparr>Hello_Realm = Hello_Realm m1, Hello_Details = None\<rparr>"
  "head (MWelcome m2) = MWelcome \<lparr>Welcome_Id = Welcome_Id m2, Welcome_Details = None\<rparr>"
  "head (MAbort m3) = MAbort \<lparr>Abort_Details = None, Abort_Reason = Abort_Reason m3\<rparr>"
  "head (MChallenge m4) = MChallenge \<lparr>Challenge_AuthMethod = Challenge_AuthMethod m4,
     Challenge_Extra = None\<rparr>"
  "head (MAuthenticate m5) = MAuthenticate \<lparr>Authenticate_Signature = Authenticate_Signature m5,
     Authenticate_Extra = None\<rparr>"
  "head (MGoodbye m6) = MGoodbye \<lparr>Goodbye_Details = None, Goodbye_Reason = Goodbye_Reason m6\<rparr>"
  "head (MError m7) = MError \<lparr>Error_Type = Error_Type m7, Error_Request = Error_Request m7, Error_Details = None,
     Error_Error = Error_Error m7, Error_Arguments = None, Error_ArgumentsKw = None\<rparr>"
  "head (MPublish m8) = MPublish \<lparr>Publish_Request = Publish_Request m8, Publish_Options = None, Publish_Topic = Publish_Topic m8,
     Publish_Arguments = None, Publish_ArgumentsKw = None\<rparr>"
  "head (MPublished m9) = MPublished m9"
  "head (MSubscribe m10) = MSubscribe \<lparr>Subscribe_Request = Subscribe_Request m10, Subscribe_Options = None,
     Subscribe_Topic = Subscribe_Topic m10\<rparr>"
  "head (MSubscribed m11) = MSubscribed m11"
  "head (MUnsubscribe m12) = MUnsubscribe m12"
  "head (MUnsubscribed m13) = MUnsubscribed m13"
  "head (MEvent m14) = MEvent \<lparr>Event_Subscription = Event_Subscription m14, Event_Publication = Event_Publication m14, Event_Details = None,
     Event_Arguments = None, Event_ArgumentsKw = None\<rparr>"
  "head (MCall m15) = MCall \<lparr>Call_Request = Call_Request m15, Call_Options = None, Call_Procedure = Call_Procedure m15,
     Call_Arguments = None, Call_ArgumentsKw = None\<rparr>"
  "head (MResult m16) = MResult \<lparr>Result_Request = Result_Request m16, Result_Details = None,
     Result_Arguments = None, Result_ArgumentsKw = None\<rparr>"
  "head (MRegister m17) = MRegister \<lparr>Register_Request = Register_Request m17, Register_Options = None,
     Register_Procedure = Register_Procedure m17\<rparr>"
  "head (MRegistered m18) = MRegistered m18"
  "head (MUnregister m19) = MUnregister m19"
  "head (MUnregistered m20) = MUnregistered m20"
  "head (MInvocation m21) = MInvocation \<lparr>Invocation_Request = Invocation_Request m21, Invocation_Registration = Invocation_Registration m21, Invocation_Details = None,
     Invocation_Arguments = None, Invocation_ArgumentsKw = None\<rparr>"
  "head (MYield m22) = MYield \<lparr>Yield_Request = Yield_Request m22, Yield_Options = None,
     Yield_Arguments = None, Yield_ArgumentsKw = None\<rparr>"
  "head (MCancel m23) = MCancel \<lparr>Cancel_Request = Cancel_Request m23, Cancel_Options = None\<rparr>"
  "head (MInterrupt m24) = MInterrupt \<lparr>Interrupt_Request = Interrupt_Request m24,
     Interrupt_Options = None\<rparr>"
  by (simp_all add: head_def)

text \<open>What is kept by every change of a message that keeps its head.\<close>

lemma reply_to_head: "reply_to (head m) = reply_to m"
  by (cases m) simp_all

lemma head_plain:
  "head m = MSubscribed x1 \<longleftrightarrow> m = MSubscribed x1" "head m = MRegistered x2 \<longleftrightarrow> m = MRegistered x2"
  "head m = MUnsubscribed x3 \<longleftrightarrow> m = MUnsubscribed x3" "head m = MUnregistered x4 \<longleftrightarrow> m = MUnregistered x4"
  "head m = MUnsubscribe x5 \<longleftrightarrow> m = MUnsubscribe x5" "head m = MUnregister x6 \<longleftrightarrow> m = MUnregister x6"
  "head m = MPublished x7 \<longleftrightarrow> m = MPublished x7"
  by (cases m; simp)+

lemma head_json: "head (json_message m) = head m"
  by (cases m) (simp_all add: json_message_def)

lemma head_msgpack: "head (msgpack_message ord m) = head m"
  by (cases m) (simp_all add: msgpack_message_def)

lemma head_omit: "head (omit_empty m) = head m"
  by (cases m) simp_all

lemma head_received: "head (received_as ord ser m) = head m"
  by (cases ser) (simp_all add: head_json head_msgpack head_omit)

section \<open>Links\<close>

text \<open>What the clients and the realm rely on: on the way to or from session \<open>s\<close>, \<open>m\<close> becomes \<open>via s m\<close>.\<close>

locale link =
  fixes via :: "sess_ptr \<Rightarrow> message \<Rightarrow> message"
  assumes head_via: "head (via s m) = head m"
begin

lemma same_head: "via s m = m' \<Longrightarrow> head m = head m'"
  using head_via by metis

lemma reply_to_via [simp]: "reply_to (via s m) = reply_to m"
  using head_via reply_to_head by metis

text \<open>Messages without dictionaries and lists do not change, and no other message becomes one of them.\<close>

lemma via_plain [simp]:
  "via s m = MSubscribed x1 \<longleftrightarrow> m = MSubscribed x1" "via s m = MRegistered x2 \<longleftrightarrow> m = MRegistered x2"
  "via s m = MUnsubscribed x3 \<longleftrightarrow> m = MUnsubscribed x3" "via s m = MUnregistered x4 \<longleftrightarrow> m = MUnregistered x4"
  "via s m = MUnsubscribe x5 \<longleftrightarrow> m = MUnsubscribe x5" "via s m = MUnregister x6 \<longleftrightarrow> m = MUnregister x6"
  by (metis head_plain head_via)+

text \<open>The kinds and the identifiers of the others.\<close>

lemma via_Result: "via s m = MResult x \<Longrightarrow> \<exists>y. m = MResult y \<and> Result_Request y = Result_Request x"
  by (drule same_head, cases m) auto

lemma via_Yield: "via s m = MYield x \<Longrightarrow> \<exists>y. m = MYield y \<and> Yield_Request y = Yield_Request x"
  by (drule same_head, cases m) auto

lemma via_Publish: "via s m = MPublish x \<Longrightarrow> \<exists>y. m = MPublish y \<and> Publish_Topic y = Publish_Topic x"
  by (drule same_head, cases m) auto

lemma via_Event: "via s m = MEvent x \<Longrightarrow> \<exists>y. m = MEvent y \<and> Event_Subscription y = Event_Subscription x
    \<and> Event_Publication y = Event_Publication x"
  by (drule same_head, cases m) auto

end

text \<open>The connection of a session: a local pipe, or a websocket with the serializer of its subprotocol.\<close>

datatype connection = Pipe | Socket serializer

fun carried_as :: "(string fset \<Rightarrow> string list) \<Rightarrow> connection \<Rightarrow> message \<Rightarrow> message" where
  "carried_as ord Pipe m = m"
| "carried_as ord (Socket ser) m = received_as ord ser m"

definition links :: "(string fset \<Rightarrow> string list) \<Rightarrow> (sess_ptr \<Rightarrow> connection) \<Rightarrow> sess_ptr \<Rightarrow> message \<Rightarrow> message" where
  "links ord conns s = carried_as ord (conns s)"

interpretation wires: link "links ord conns" for ord conns
proof
  show "head (links ord conns s m) = head m" for s m
    by (cases "conns s") (simp_all add: links_def head_received)
qed

end
