(* ===== verification/System.thy ===== *)
theory System
  imports Client_Runs Realm_Spec Local_Peer Links
begin

text \<open>
  A realm and its clients together.  Between every session and its client run two queues; a client's
  requests put their messages into one, the realm's \<open>handleSession\<close> takes them out, and what the realm
  sends goes into the other, from which the client's \<open>Receive\<close> takes it.  What the requests of a client
  ask for is its program (\<open>prog\<close>).  A message stands in a queue as it will arrive: \<open>via s\<close> is what the
  connection of session \<open>s\<close> makes of it (\<open>Links\<close>); the bytes themselves are in \<open>Wired\<close>.
\<close>

text \<open>What the five request methods ask for, and the message each of them sends under the identifier it has drawn.\<close>

datatype client_request =
    AskSubscribe string dict
  | AskUnsubscribe ID
  | AskRegister string dict
  | AskUnregister ID
  | AskCall string dict glist dict

fun request_message :: "client_request \<Rightarrow> ID \<Rightarrow> message" where
  "request_message (AskSubscribe topic options) i =
     MSubscribe \<lparr>Subscribe_Request = i, Subscribe_Options = or_make options, Subscribe_Topic = topic\<rparr>"
| "request_message (AskUnsubscribe subscriptionID) i =
     MUnsubscribe \<lparr>Unsubscribe_Request = i, Unsubscribe_Subscription = subscriptionID\<rparr>"
| "request_message (AskRegister procedure options) i =
     MRegister \<lparr>Register_Request = i, Register_Options = options, Register_Procedure = procedure\<rparr>"
| "request_message (AskUnregister procedureID) i =
     MUnregister \<lparr>Unregister_Request = i, Unregister_Registration = procedureID\<rparr>"
| "request_message (AskCall procedure options args kwargs) i =
     MCall \<lparr>Call_Request = i, Call_Options = options, Call_Procedure = procedure,
            Call_Arguments = args, Call_ArgumentsKw = kwargs\<rparr>"

text \<open>A request method is \<open>register_act\<close> on the client's state, and then sends that message.\<close>

lemma request_message_client:
  "client_Subscribe draw (cw_made w) topic options (cw_client w) =
     (cw_client (register_act (NewID draw) t w), request_message (AskSubscribe topic options) (NewID draw))"
  "client_Register draw (cw_made w) topic options (cw_client w) =
     (cw_client (register_act (NewID draw) t w), request_message (AskRegister topic options) (NewID draw))"
  "client_Call draw (cw_made w) topic options args kwargs (cw_client w) =
     (cw_client (register_act (NewID draw) t w), request_message (AskCall topic options args kwargs) (NewID draw))"
  "find_event ord topic (cw_client w) = Some i \<Longrightarrow> client_Unsubscribe ord draw (cw_made w) topic (cw_client w) =
     Inr (cw_client (register_act (NewID draw) t w), request_message (AskUnsubscribe i) (NewID draw))"
  "find_procedure ord topic (cw_client w) = Some i \<Longrightarrow> client_Unregister ord draw (cw_made w) topic (cw_client w) =
     Inr (cw_client (register_act (NewID draw) t w), request_message (AskUnregister i) (NewID draw))"
  by (simp_all add: client_Subscribe_def client_Register_def client_Call_def client_Unsubscribe_def
      client_Unregister_def client_acts)

type_synonym program = "sess_ptr \<Rightarrow> nat \<Rightarrow> client_request"

record system =
  sys_world :: world
  sys_client :: "sess_ptr \<Rightarrow> client_world"
  sys_up :: "sess_ptr \<Rightarrow> message list"
  sys_down :: "sess_ptr \<Rightarrow> message list"

datatype system_label =
    AtRealm realm_label
  | AtClient sess_ptr client_label
  | Speaks sess_ptr message

text \<open>What a client sends besides requests: publications, answers to invocations and its GOODBYE.\<close>

fun is_speech :: "message \<Rightarrow> bool" where
  "is_speech (MPublish m) = True"
| "is_speech (MYield m) = True"
| "is_speech (MError m) = True"
| "is_speech (MGoodbye m) = True"
| "is_speech _ = False"

definition deliver ::
  "(sess_ptr \<Rightarrow> message \<Rightarrow> message) \<Rightarrow> sends \<Rightarrow> (sess_ptr \<Rightarrow> message list) \<Rightarrow> sess_ptr \<Rightarrow> message list" where
  "deliver via out down s = down s @ map (via s) (sent_to s out)"

definition send_up :: "sess_ptr \<Rightarrow> message \<Rightarrow> system \<Rightarrow> system" where
  "send_up s msg S = S\<lparr>sys_up := (sys_up S)(s := sys_up S s @ [msg])\<rparr>"

definition set_client_of :: "sess_ptr \<Rightarrow> client_world \<Rightarrow> system \<Rightarrow> system" where
  "set_client_of s c S = S\<lparr>sys_client := (sys_client S)(s := c)\<rparr>"

inductive sys_step ::
  "(sess_ptr \<Rightarrow> message \<Rightarrow> message) \<Rightarrow> program \<Rightarrow> env \<Rightarrow> sess_ptr \<Rightarrow> system \<Rightarrow> system_label \<Rightarrow> system \<Rightarrow> sends \<Rightarrow> bool"
  for via :: "sess_ptr \<Rightarrow> message \<Rightarrow> message" and prog :: program and e :: env and l :: sess_ptr where
  realm_reads: "realm_event e l (sys_world S) (Received draw s msg) out w' \<Longrightarrow> s \<noteq> l \<Longrightarrow> sys_up S s = msg # rest \<Longrightarrow>
    sys_step via prog e l S (AtRealm (Received draw s msg))
      (S\<lparr>sys_world := w', sys_up := (sys_up S)(s := rest), sys_down := deliver via out (sys_down S)\<rparr>) out"
| realm_works: "realm_event e l (sys_world S) lab out w' \<Longrightarrow> (\<forall>draw s msg. lab = Received draw s msg \<longrightarrow> s = l) \<Longrightarrow>
    sys_step via prog e l S (AtRealm lab) (S\<lparr>sys_world := w', sys_down := deliver via out (sys_down S)\<rparr>) out"
| client_sends: "client_event never_used (sys_client S s) (SendsRequest t i) c u \<Longrightarrow>
    sys_step via prog e l S (AtClient s (SendsRequest t i)) (send_up s (via s (request_message (prog s t) i)) (set_client_of s c S)) []"
| client_reads: "client_event never_used (sys_client S s) (CReceives msg) c u \<Longrightarrow> sys_down S s = msg # rest \<Longrightarrow>
    sys_step via prog e l S (AtClient s (CReceives msg))
      (set_client_of s c S\<lparr>sys_down := (sys_down S)(s := rest)\<rparr>) []"
| client_works: "client_event never_used (sys_client S s) CInternal c u \<Longrightarrow>
    sys_step via prog e l S (AtClient s CInternal) (set_client_of s c S) []"
| speaks: "is_speech msg \<Longrightarrow> sys_step via prog e l S (Speaks s msg) (send_up s (via s msg) S) []"

definition sys_start :: "RealmConfig \<Rightarrow> sess_ptr \<Rightarrow> system" where
  "sys_start cfg l = \<lparr>sys_world = init_world cfg l, sys_client = (\<lambda>_. client_start), sys_up = (\<lambda>_. []),
     sys_down = (\<lambda>_. [])\<rparr>"

lemmas sys_defs = deliver_def send_up_def set_client_of_def

section \<open>The parts of a run\<close>

definition realm_rel :: "env \<Rightarrow> sess_ptr \<Rightarrow> world \<Rightarrow> realm_label \<Rightarrow> world \<Rightarrow> sends \<Rightarrow> bool" where
  "realm_rel e l w lab w' out \<longleftrightarrow> realm_event e l w lab out w'"

lemma realm_relI: "realm_event e l w lab out w' \<Longrightarrow> realm_rel e l w lab w' out"
  by (simp add: realm_rel_def)

fun realm_part :: "system_label \<Rightarrow> realm_label list" where
  "realm_part (AtRealm lab) = [lab]"
| "realm_part _ = []"

fun client_part :: "sess_ptr \<Rightarrow> system_label \<Rightarrow> client_label list" where
  "client_part s (AtClient s' lab) = (if s' = s then [lab] else [])"
| "client_part s _ = []"

lemma in_client_part: "lab' \<in> set (client_part s lab) \<longleftrightarrow> lab = AtClient s lab'"
  by (cases lab) auto

lemma runs_one: "step s l s' out \<Longrightarrow> runs step s [l] s' [out]"
  by (rule runs.go [OF _ runs.stop])

lemma realm_run:
  "runs (sys_step via prog e l) S ls S' outs \<Longrightarrow>
   \<exists>routs. runs (realm_rel e l) (sys_world S) (concat (map realm_part ls)) (sys_world S') routs
     \<and> concat routs = concat outs"
proof (induction rule: runs_rev_induct)
  case stop
  show ?case by (intro exI [of _ "[]"]) (simp add: runs.stop)
next
  case (snoc ls S1 outs lab S2 out)
  then obtain routs where r: "runs (realm_rel e l) (sys_world S) (concat (map realm_part ls)) (sys_world S1) routs"
    "concat routs = concat outs" by blast
  from snoc.hyps(2) show ?case
  proof cases
    case (realm_reads draw s msg w' rest)
    with runs_snoc [OF r(1) realm_relI [OF realm_reads(3)]] r(2) show ?thesis
      by (intro exI [of _ "routs @ [out]"]) simp
  next
    case (realm_works lab' w')
    with runs_snoc [OF r(1) realm_relI [OF realm_works(3)]] r(2) show ?thesis
      by (intro exI [of _ "routs @ [out]"]) simp
  qed (use r in \<open>intro exI [of _ routs]; simp add: sys_defs\<close>)+
qed

lemma client_run:
  "runs (sys_step via prog e l) S ls S' outs \<Longrightarrow>
   \<exists>us. runs (client_event never_used) (sys_client S s) (concat (map (client_part s) ls)) (sys_client S' s) us"
proof (induction rule: runs_rev_induct)
  case stop
  show ?case by (intro exI [of _ "[]"]) (simp add: runs.stop)
next
  case (snoc ls S1 outs lab S2 out)
  then obtain us where r: "runs (client_event never_used) (sys_client S s) (concat (map (client_part s) ls)) (sys_client S1 s) us"
    by blast
  from snoc.hyps(2) show ?case
  proof cases
    case (client_sends s' t i c u)
    show ?thesis
    proof (cases "s' = s")
      case True
      with client_sends runs_snoc [OF r, of "SendsRequest t i" c u] show ?thesis
        by (intro exI [of _ "us @ [u]"]) (simp add: sys_defs)
    qed (use r client_sends in \<open>auto simp: sys_defs\<close>)
  next
    case (client_reads s' msg c u rest)
    show ?thesis
    proof (cases "s' = s")
      case True
      with client_reads runs_snoc [OF r, of "CReceives msg" c u] show ?thesis
        by (intro exI [of _ "us @ [u]"]) (simp add: sys_defs)
    qed (use r client_reads in \<open>auto simp: sys_defs\<close>)
  next
    case (client_works s' c u)
    show ?thesis
    proof (cases "s' = s")
      case True
      with client_works runs_snoc [OF r, of CInternal c u] show ?thesis
        by (intro exI [of _ "us @ [u]"]) (simp add: sys_defs)
    qed (use r client_works in \<open>auto simp: sys_defs\<close>)
  qed (use r in \<open>auto simp: sys_defs\<close>)
qed

section \<open>The queues\<close>

text \<open>What a step puts into and takes out of the queues of session \<open>s\<close>.\<close>

fun says :: "program \<Rightarrow> sess_ptr \<Rightarrow> system_label \<Rightarrow> message list" where
  "says prog s (AtClient s' (SendsRequest t i)) = (if s' = s then [request_message (prog s t) i] else [])"
| "says prog s (Speaks s' msg) = (if s' = s then [msg] else [])"
| "says prog s _ = []"

fun realm_hears :: "sess_ptr \<Rightarrow> sess_ptr \<Rightarrow> system_label \<Rightarrow> message list" where
  "realm_hears l s (AtRealm (Received draw s' msg)) = (if s' = s \<and> s \<noteq> l then [msg] else [])"
| "realm_hears l s _ = []"

fun client_hears :: "sess_ptr \<Rightarrow> system_label \<Rightarrow> message list" where
  "client_hears s (AtClient s' (CReceives msg)) = (if s' = s then [msg] else [])"
| "client_hears s _ = []"

lemma up_step:
  "sys_step via prog e l S lab S' out \<Longrightarrow> sys_up S s @ map (via s) (says prog s lab) = realm_hears l s lab @ sys_up S' s"
proof (induction rule: sys_step.cases)
  case (realm_works S lab out w')
  then show ?case by (cases lab) auto
qed (auto simp: sys_defs)

lemma down_step:
  "sys_step via prog e l S lab S' out \<Longrightarrow> sys_down S s @ map (via s) (sent_to s out) = client_hears s lab @ sys_down S' s"
  by (induction rule: sys_step.cases) (auto simp: sys_defs)

interpretation up: message_queue "sys_step via prog e l" "\<lambda>lab _. map (via s) (says prog s lab)" "\<lambda>lab _. realm_hears l s lab"
    "\<lambda>S. sys_up S s" "\<lambda>_. True" for via prog e l s
  by unfold_locales (simp_all add: up_step)

interpretation down: message_queue "sys_step via prog e l" "\<lambda>_ out. map (via s) (sent_to s out)" "\<lambda>lab _. client_hears s lab"
    "\<lambda>S. sys_down S s" "\<lambda>_. True" for via prog e l s
  by unfold_locales (simp_all add: down_step)


lemma sent_to_concat: "sent_to s (concat outs) = concat (map (sent_to s) outs)"
  by (induction outs) (simp_all add: sent_to_def)

section \<open>What comes out of the queues\<close>

lemma speech_run:
  "runs (sys_step via prog e l) S ls S' outs \<Longrightarrow> Speaks s msg \<in> set ls \<Longrightarrow> is_speech msg"
proof (induction rule: runs.induct)
  case (go S lab S1 out ls S2 outs)
  then show ?case by (auto elim: sys_step.cases)
qed simp

lemma set_map2: "length ys = length xs \<Longrightarrow> x \<in> set (concat (map2 (\<lambda>a _. f a) xs ys)) \<longleftrightarrow> (\<exists>a \<in> set xs. x \<in> set (f a))"
  by (simp add: map2_fst)

text \<open>What the realm receives from a session, its client has sent, as its connection carries it.\<close>

lemma heard_said:
  assumes run: "runs (sys_step via prog e l) (sys_start cfg l) ls S outs"
    and heard: "AtRealm (Received draw s q) \<in> set ls" "s \<noteq> l"
  obtains (spoken) msg where "Speaks s msg \<in> set ls" "via s msg = q"
  | (requested) t i where "AtClient s (SendsRequest t i) \<in> set ls" "via s (request_message (prog s t) i) = q"
proof -
  have "q \<in> set (concat (map2 (\<lambda>lab _. realm_hears l s lab) ls outs))"
    unfolding set_map2 [OF runs_length [OF run]] using heard by force
  then have "q \<in> set (concat (map2 (\<lambda>lab _. map (via s) (says prog s lab)) ls outs))"
    using up.fifo [OF run, of s] by (auto simp: sys_start_def)
  then obtain lab where "lab \<in> set ls" "q \<in> set (map (via s) (says prog s lab))"
    unfolding set_map2 [OF runs_length [OF run]] by blast
  then show thesis
    by (cases "(prog, s, lab)" rule: says.cases) (auto split: if_splits intro: that)
qed

text \<open>What a client receives, the realm has sent to its session.\<close>

lemma received_sent:
  assumes run: "runs (sys_step via prog e l) (sys_start cfg l) ls S outs" and r: "AtClient s (CReceives r) \<in> set ls"
  obtains r0 where "(s, r0) \<in> set (concat outs)" "via s r0 = r"
proof -
  have "r \<in> set (concat (map2 (\<lambda>lab _. client_hears s lab) ls outs))"
    unfolding set_map2 [OF runs_length [OF run]] using r by force
  then have "r \<in> set (concat (map2 (\<lambda>_ out. map (via s) (sent_to s out)) ls outs))"
    using down.fifo [OF run, of s] by (simp add: sys_start_def)
  then obtain out r0 where "out \<in> set outs" "r0 \<in> set (sent_to s out)" "via s r0 = r"
    by (auto dest: set_zip_rightD)
  then show thesis by (intro that [of r0]) (auto simp: sent_to_def)
qed

text \<open>What a request returns was sent to its session by some step of the realm.\<close>

lemma reply_sent:
  assumes run: "runs (sys_step via prog e l) (sys_start cfg l) ls S outs"
    and returned: "cw_reqs (sys_client S s) t = ReqDone i (Inr r)"
  shows "\<exists>r0. (s, r0) \<in> set (concat outs) \<and> via s r0 = r" and "reply_to r = Some i"
    and "AtClient s (SendsRequest t' i) \<in> set ls \<Longrightarrow> t' = t"
proof -
  obtain us where c: "runs (client_event never_used) client_start (concat (map (client_part s) ls)) (sys_client S s) us"
    using client_run [OF run, of s] by (auto simp: sys_start_def)
  note reply = run_reply [OF c returned]
  show "reply_to r = Some i" by (rule reply(2))
  show "AtClient s (SendsRequest t' i) \<in> set ls \<Longrightarrow> t' = t"
    by (rule reply(3) [of t']) (force simp: image_iff)
  from reply(1) have "AtClient s (CReceives r) \<in> set ls" by (auto simp: in_client_part)
  from received_sent [OF run this] show "\<exists>r0. (s, r0) \<in> set (concat outs) \<and> via s r0 = r" by blast
qed

section \<open>Requests over a link\<close>

lemma is_speech_head: "is_speech (head m) = is_speech m"
  by (cases m) simp_all

text \<open>The identifier of a request.\<close>

fun request_id :: "message \<Rightarrow> ID option" where
  "request_id (MSubscribe m) = Some (Subscribe_Request m)"
| "request_id (MUnsubscribe m) = Some (Unsubscribe_Request m)"
| "request_id (MRegister m) = Some (Register_Request m)"
| "request_id (MUnregister m) = Some (Unregister_Request m)"
| "request_id (MCall m) = Some (Call_Request m)"
| "request_id _ = None"

lemma request_id_head: "request_id (head m) = request_id m"
  by (cases m) simp_all

lemma request_id_message: "request_id (request_message a i) = Some i"
  by (cases a) simp_all

lemma request_not_speech: "\<not> is_speech (request_message a i)"
  by (cases a) simp_all

context link
begin

lemma is_speech_via [simp]: "is_speech (via s m) = is_speech m"
  using head_via is_speech_head by metis

lemma request_id_via [simp]: "request_id (via s m) = request_id m"
  using head_via request_id_head by metis

text \<open>The request that has been heard, and what was asked for.\<close>

lemma asked_for:
  "via s (request_message a i) = MSubscribe sm \<Longrightarrow> \<exists>options. a = AskSubscribe (Subscribe_Topic sm) options"
  "via s (request_message a i) = MRegister rm \<Longrightarrow> \<exists>options. a = AskRegister (Register_Procedure rm) options"
  "via s (request_message a i) = MCall cm \<Longrightarrow> \<exists>options args kwargs. a = AskCall (Call_Procedure cm) options args kwargs"
  by (drule same_head, cases a; simp)+

lemma heard_spoken:
  assumes run: "runs (sys_step via prog e l) (sys_start cfg l) ls S outs"
    and heard: "AtRealm (Received draw s q) \<in> set ls" "s \<noteq> l" and q: "is_speech q"
  obtains msg where "Speaks s msg \<in> set ls" "via s msg = q"
  using run heard
proof (cases rule: heard_said)
  case (requested t i)
  with q is_speech_via request_not_speech show thesis by metis
qed (rule that)

text \<open>The request that the realm answers is the one that returns the answer.\<close>

lemma answered_request:
  assumes run: "runs (sys_step via prog e l) (sys_start cfg l) ls S outs"
    and returned: "cw_reqs (sys_client S s) t = ReqDone i (Inr r)"
    and heard: "AtRealm (Received draw s q) \<in> set ls" "s \<noteq> l" and id: "request_id q = reply_to r"
  shows "via s (request_message (prog s t) i) = q"
proof -
  have i: "reply_to r = Some i" by (rule reply_sent(2) [OF run returned])
  from run heard show ?thesis
  proof (cases rule: heard_said)
    case (spoken msg)
    then have "request_id msg = Some i" "is_speech msg"
      using id i request_id_via [of s msg] speech_run [OF run, of s msg] by auto
    then show ?thesis by (cases msg) auto
  next
    case (requested t' j)
    then have "j = i" using id i request_id_via [of s] request_id_message by (metis option.inject)
    with requested have "t' = t" using reply_sent(3) [OF run returned] by simp
    with requested(2) \<open>j = i\<close> show ?thesis by simp
  qed
qed

end

section \<open>The realm's invariant\<close>

lemma runs_out:
  assumes "runs step s ls s' outs" and "x \<in> set (concat outs)"
  shows "\<exists>ls1 lab ls2 s1 outs1 s2 out outs2. ls = ls1 @ lab # ls2 \<and> runs step s ls1 s1 outs1
    \<and> step s1 lab s2 out \<and> x \<in> set out \<and> runs step s2 ls2 s' outs2"
  using assms
proof (induction rule: runs.induct)
  case (go s l s' out ls s'' outs)
  show ?case
  proof (cases "x \<in> set out")
    case True
    with go.hyps runs.stop [of step s] show ?thesis by (metis append_Nil)
  next
    case False
    with go.prems have "x \<in> set (concat outs)" by simp
    with go.IH runs.go [where step = step, OF go.hyps(1)] show ?thesis by (metis append_Cons)
  qed
qed simp

lemma realm_event_interceptor:
  "realm_event e l w lab out w' \<Longrightarrow> Realm_Interceptor (w_realm w') = Realm_Interceptor (w_realm w)"
proof (induction rule: realm_event.cases)
  case (received w s draw msg w' out)
  then show ?case
    using handle_message_frame(3) [of e draw s msg "w_realm w"]
    by (auto simp: take_message_def set_phase_def split: prod.splits)
next
  case (received_local w msg pipe draw w' out)
  then show ?case
    using handle_message_frame(3) [of e draw l msg "w_realm w"]
    by (auto simp: take_message_def set_phase_def split: prod.splits)
qed (simp_all add: leave_dealer_def leave_broker_def same_stores_def)

definition system_good :: "world \<Rightarrow> bool" where
  "system_good w \<longleftrightarrow> world_ok w \<and> Realm_Interceptor (w_realm w) = defaultInterceptor_Intercept"

lemma system_goodD:
  assumes "system_good w"
  shows "world_ok w" "realm_ok (w_realm w)" "Realm_Interceptor (w_realm w) = defaultInterceptor_Intercept"
  using assms by (simp_all add: system_good_def world_ok_def)

lemma system_good_step:
  "realm_event e l w lab out w' \<Longrightarrow> map_order (env_ord e) \<Longrightarrow> system_good w \<Longrightarrow> system_good w'"
  unfolding system_good_def using world_ok_step realm_event_iff realm_event_interceptor by metis

lemma system_realm_ok:
  assumes "runs (sys_step via prog e l) (sys_start cfg l) ls S outs"
    and "default_stores cfg" "cfg_Interceptor cfg = None" "map_order (env_ord e)"
  shows "system_good (sys_world S)"
  using assms(1)
proof (induction rule: runs_rev_induct)
  case stop
  show ?case
    using world_ok_init [OF assms(2)] assms(3) by (simp add: sys_start_def init_world_def Realm_init_def system_good_def)
next
  case (snoc ls S1 outs lab S2 out)
  from snoc.hyps(2) snoc.IH system_good_step [OF _ assms(4)] show ?case by cases (auto simp: sys_defs)
qed

text \<open>What the realm sends, it sends in one of its steps, from a state that satisfies its invariant.\<close>

lemma sent_at:
  assumes "runs (sys_step via prog e l) (sys_start cfg l) ls S outs"
    and "default_stores cfg" "cfg_Interceptor cfg = None" "map_order (env_ord e)" and "x \<in> set (concat outs)"
  obtains ls1 rlab ls2 S1 outs1 S2 out outs2 where "ls = ls1 @ AtRealm rlab # ls2"
    "runs (sys_step via prog e l) (sys_start cfg l) ls1 S1 outs1" "sys_step via prog e l S1 (AtRealm rlab) S2 out"
    "realm_event e l (sys_world S1) rlab out (sys_world S2)" "x \<in> set out" "system_good (sys_world S1)"
    "runs (sys_step via prog e l) S2 ls2 S outs2"
proof -
  obtain ls1 lab ls2 S1 outs1 S2 out outs2 where at: "ls = ls1 @ lab # ls2"
      "runs (sys_step via prog e l) (sys_start cfg l) ls1 S1 outs1" "sys_step via prog e l S1 lab S2 out" "x \<in> set out"
      "runs (sys_step via prog e l) S2 ls2 S outs2"
    using runs_out [OF assms(1,5)] by blast
  have ok: "system_good (sys_world S1)"
    using system_realm_ok [OF at(2) assms(2-4)] .
  from at(3) show thesis
  proof cases
    case realm_reads
    with at ok show thesis by (intro that) auto
  next
    case realm_works
    with at ok show thesis by (intro that) auto
  qed (use at(4) in simp_all)
qed

text \<open>What a realm's steps keep until some label ends it.\<close>

lemma kept_or_ended:
  assumes "runs (sys_step via prog e l) S ls S' outs" and "map_order (env_ord e)"
    and "\<And>w lab out w'. realm_event e l w lab out w' \<Longrightarrow> system_good w \<Longrightarrow> P w \<Longrightarrow> \<not> ends lab \<Longrightarrow> P w'"
    and "system_good (sys_world S)" "P (sys_world S)"
  shows "P (sys_world S') \<or> (\<exists>lab. AtRealm lab \<in> set ls \<and> ends lab)"
  using assms(1,4,5)
proof (induction rule: runs.induct)
  case (go S lab S1 out ls S2 outs)
  have "system_good (sys_world S1) \<and> (P (sys_world S1) \<or> (\<exists>rlab. lab = AtRealm rlab \<and> ends rlab))"
    using go.hyps(1) go.prems assms(3) system_good_step [OF _ assms(2)]
    by cases (simp_all add: sys_defs, (metis+)?)
  with go.IH show ?case by auto
qed simp

end
