(* ===== verification/System_Live.thy ===== *)
theory System_Live
  imports System
begin

text \<open>
  Runs of the system put together from runs of its parts: a run of a client on messages that are waiting in
  its queue, and steps of the realm.  A request that the realm answers returns the answer; and the runs of
  the witnesses of \<open>System_Props\<close>.
\<close>

lemmas sys_runs_snoc = runs_snoc [where step = "sys_step via prog e l"] for via prog e l
lemmas sys_runs_append = runs_append [where step = "sys_step via prog e l"] for via prog e l

section \<open>Runs of a client\<close>

text \<open>The messages that a label of the client puts into its queue to the realm, and takes from the other one.\<close>

fun label_sends :: "(nat \<Rightarrow> client_request) \<Rightarrow> client_label \<Rightarrow> message list" where
  "label_sends asks (SendsRequest t i) = [request_message (asks t) i]"
| "label_sends asks _ = []"

fun label_takes :: "client_label \<Rightarrow> message list" where
  "label_takes (CReceives msg) = [msg]"
| "label_takes _ = []"

text \<open>The system after a run of client \<open>s\<close> alone.\<close>

definition client_moved ::
  "sess_ptr \<Rightarrow> client_world \<Rightarrow> message list \<Rightarrow> message list \<Rightarrow> system \<Rightarrow> system" where
  "client_moved s c sent rest S = S\<lparr>sys_client := (sys_client S)(s := c), sys_up := (sys_up S)(s := sys_up S s @ sent),
     sys_down := (sys_down S)(s := rest)\<rparr>"

lemma client_step_lift:
  assumes "client_event never_used (sys_client S s) lab c u" and "sys_down S s = label_takes lab @ rest"
  shows "sys_step via prog e l S (AtClient s lab) (client_moved s c (map (via s) (label_sends (prog s) lab)) rest S) []"
proof (cases lab)
  case (SendsRequest t i)
  with assms sys_step.client_sends [of S s t i c u via prog e l] show ?thesis
    by (auto simp: client_moved_def sys_defs fun_upd_idem)
next
  case (CReceives msg)
  with assms sys_step.client_reads [of S s msg c u rest via prog e l] show ?thesis
    by (auto simp: client_moved_def sys_defs fun_upd_idem)
next
  case CInternal
  with assms sys_step.client_works [of S s c u via prog e l] show ?thesis
    by (auto simp: client_moved_def sys_defs fun_upd_idem)
qed

lemma client_run_lift:
  assumes "runs (client_event never_used) c labs c' us" and "sys_client S s = c"
    and "sys_down S s = concat (map label_takes labs) @ rest"
  shows "runs (sys_step via prog e l) S (map (AtClient s) labs)
    (client_moved s c' (map (via s) (concat (map (label_sends (prog s)) labs))) rest S) (map (\<lambda>_. []) labs)"
  using assms
proof (induction arbitrary: S rule: runs.induct)
  case (stop c)
  have "client_moved s c [] rest S = S" using stop by (simp add: client_moved_def fun_upd_idem)
  then show ?case by (simp add: runs.stop)
next
  case (go c lab c1 u labs c' us)
  let ?rest = "concat (map label_takes labs) @ rest"
  let ?S = "client_moved s c1 (map (via s) (label_sends (prog s) lab)) ?rest S"
  have "sys_step via prog e l S (AtClient s lab) ?S []"
    using go.hyps(1) go.prems by (intro client_step_lift) simp_all
  moreover have "runs (sys_step via prog e l) ?S (map (AtClient s) labs)
      (client_moved s c' (map (via s) (concat (map (label_sends (prog s)) labs))) rest ?S) (map (\<lambda>_. []) labs)"
    by (rule go.IH) (simp_all add: client_moved_def)
  ultimately show ?case by (auto simp: client_moved_def intro: runs.go)
qed

section \<open>A request, alone\<close>

text \<open>The client once request \<open>t\<close> waits for the answer to \<open>i\<close>, and once it has returned \<open>r\<close>.\<close>

definition begun :: "nat \<Rightarrow> ID \<Rightarrow> client_world \<Rightarrow> client_world" where
  "begun t i c = c\<lparr>cw_client := registerListener (cw_made c) i (cw_client c),
     cw_reqs := (cw_reqs c)(t := ReqWaiting i (cw_made c)), cw_made := Suc (cw_made c)\<rparr>"

definition returned :: "nat \<Rightarrow> ID \<Rightarrow> message \<Rightarrow> client_world \<Rightarrow> client_world" where
  "returned t i r c = c\<lparr>cw_client := listener_delete i (cw_client c), cw_reqs := (cw_reqs c)(t := ReqDone i (Inr r))\<rparr>"

lemma begin_run:
  assumes "cw_acts c = ActsOpen" "cw_reqs c t = ReqNew" "never_used c (NewID draw)"
  shows "runs (client_event never_used) c [CInternal, SendsRequest t (NewID draw), CInternal] (begun t (NewID draw) c)
    [(), (), ()]"
proof -
  let ?i = "NewID draw"
  let ?c1 = "register_act ?i t c" let ?c2 = "set_req t (ReqSent ?i (cw_made c)) ?c1"
  have 1: "client_event never_used c CInternal ?c1 ()"
    using client_step.register [OF assms(2,1), of never_used draw] assms(3)
    by (intro client_event.internal) (auto simp: quiet_def client_acts registerListener_def)
  have 2: "client_event never_used ?c1 (SendsRequest t ?i) ?c2 ()"
    by (rule client_event.sends) (simp add: client_acts)
  have "client_step never_used ?c2 (lookup_act ?i t ?c2)"
    by (rule client_step.lookup [where ch = "cw_made c"]) (simp_all add: client_acts assms(1))
  then have 3: "client_event never_used ?c2 CInternal (lookup_act ?i t ?c2) ()"
    by (rule client_event.internal) (auto simp: quiet_def client_acts split: option.splits)
  have "lookup_act ?i t ?c2 = begun t ?i c"
    by (simp add: begun_def client_acts registerListener_def)
  with 1 2 3 show ?thesis by (auto intro: runs.intros)
qed

lemma end_run:
  assumes "cw_acts c = ActsOpen" "cw_reqs c t = ReqWaiting i ch" "fmlookup (listeners (cw_client c)) i = Some ch"
    "l_buf (cw_client c) ch = None" "reply_to r = Some i"
  shows "runs (client_event never_used) c [CReceives r, CInternal, CInternal] (returned t i r c) [(), (), ()]"
proof -
  let ?cl = "cw_client c" let ?b = "?cl\<lparr>l_buf := (l_buf ?cl)(ch := Some r)\<rparr>"
  let ?c1 = "set_client ?b c" let ?c2 = "set_req t (ReqGot i (Got r)) c"
  have "client_receive r ?cl = Some (?b, [])"
    using assms(3-5) by (cases r) (simp_all add: notifyListener_def)
  then have 1: "client_event never_used c (CReceives r) ?c1 ()" by (rule client_event.receives [OF assms(1)])
  have "listener_take ch ?b = Some (r, ?cl)" using assms(4) by (simp add: listener_take_def fun_upd_idem)
  then have "client_step never_used ?c1 (set_req t (ReqGot i (Got r)) (set_client ?cl ?c1))"
    by (intro client_step.take [where ch = ch]) (simp_all add: set_client_def assms(2))
  moreover have "set_client ?cl ?c1 = c" by (simp add: set_client_def)
  ultimately have 2: "client_event never_used ?c1 CInternal ?c2 ()"
    by (intro client_event.internal) (auto simp: quiet_def client_acts assms(4))
  have "client_step never_used ?c2 (delete_act i (Got r) t ?c2)"
    by (rule client_step.delete) (simp_all add: set_req_def assms(1))
  then have 3: "client_event never_used ?c2 CInternal (delete_act i (Got r) t ?c2) ()"
    by (rule client_event.internal) (auto simp: quiet_def client_acts listener_delete_def)
  have "delete_act i (Got r) t ?c2 = returned t i r c"
    by (simp add: returned_def client_acts)
  with 1 2 3 show ?thesis by (auto intro: runs.intros)
qed

section \<open>A request and the realm\<close>

text \<open>The system after request \<open>t\<close> of client \<open>s\<close> is sent and the realm has taken it.\<close>

definition asked ::
  "(sess_ptr \<Rightarrow> message \<Rightarrow> message) \<Rightarrow> sess_ptr \<Rightarrow> nat \<Rightarrow> ID \<Rightarrow> sends \<Rightarrow> world \<Rightarrow> system \<Rightarrow> system" where
  "asked via s t i out w' S = S\<lparr>sys_world := w', sys_client := (sys_client S)(s := begun t i (sys_client S s)),
     sys_down := deliver via out (sys_down S)\<rparr>"

definition ask_labels :: "(sess_ptr \<Rightarrow> message \<Rightarrow> message) \<Rightarrow> (nat \<Rightarrow> client_request) \<Rightarrow> sess_ptr \<Rightarrow> nat \<Rightarrow> ID \<Rightarrow> 64 word \<Rightarrow> system_label list" where
  "ask_labels via asks s t i d = map (AtClient s) [CInternal, SendsRequest t i, CInternal]
     @ [AtRealm (Received d s (via s (request_message (asks t) i)))]"

lemma ask_run:
  assumes "cw_acts (sys_client S s) = ActsOpen" "cw_reqs (sys_client S s) t = ReqNew"
    "never_used (sys_client S s) (NewID draw)" and "s \<noteq> l" "sys_up S s = []" "sys_down S s = []"
    and event: "realm_event e l (sys_world S) (Received d s (via s (request_message (prog s t) (NewID draw)))) out w'"
  shows "runs (sys_step via prog e l) S (ask_labels via (prog s) s t (NewID draw) d) (asked via s t (NewID draw) out w' S)
    ([[], [], []] @ [out])"
proof -
  let ?i = "NewID draw" and ?c = "begun t (NewID draw) (sys_client S s)"
  let ?q = "via s (request_message (prog s t) ?i)"
  let ?S1 = "client_moved s ?c [?q] [] S"
  let ?S2 = "?S1\<lparr>sys_world := w', sys_up := (sys_up ?S1)(s := []), sys_down := deliver via out (sys_down ?S1)\<rparr>"
  have 1: "runs (sys_step via prog e l) S (map (AtClient s) [CInternal, SendsRequest t ?i, CInternal]) ?S1 [[], [], []]"
    using client_run_lift [OF begin_run [OF assms(1-3)] HOL.refl, where via = via and prog = prog and e = e and l = l and rest = "[]"]
      assms(6) by simp
  have 2: "sys_step via prog e l ?S1 (AtRealm (Received d s ?q)) ?S2 out"
    by (rule sys_step.realm_reads) (simp_all add: client_moved_def event assms(4,5))
  from sys_runs_snoc [OF 1 2] show ?thesis
    unfolding ask_labels_def
    by (rule back_subst [of "\<lambda>x. runs _ _ _ x _"])
       (auto simp: client_moved_def asked_def assms(5,6) fun_eq_iff deliver_def)
qed

lemma reply_run:
  assumes "cw_acts (sys_client S s) = ActsOpen" "cw_reqs (sys_client S s) t = ReqWaiting i ch"
    "fmlookup (listeners (cw_client (sys_client S s))) i = Some ch" "l_buf (cw_client (sys_client S s)) ch = None"
    and "reply_to r = Some i" "sys_down S s = [r]"
  shows "runs (sys_step via prog e l) S (map (AtClient s) [CReceives r, CInternal, CInternal])
    (client_moved s (returned t i r (sys_client S s)) [] [] S) [[], [], []]"
  using client_run_lift [OF end_run [OF assms(1-5)] HOL.refl, where via = via and prog = prog and e = e and l = l and rest = "[]"]
    assms(6) by simp

text \<open>A waiting client is ready for its reply.\<close>

lemma begun_ready:
  "cw_acts (begun t i c) = cw_acts c" "cw_reqs (begun t i c) t = ReqWaiting i (cw_made c)"
  "fmlookup (listeners (cw_client (begun t i c))) i = Some (cw_made c)"
  "l_buf (cw_client (begun t i c)) (cw_made c) = None"
  by (simp_all add: begun_def registerListener_def)

lemma request_run:
  assumes "cw_acts (sys_client S s) = ActsOpen" "cw_reqs (sys_client S s) t = ReqNew"
    "never_used (sys_client S s) (NewID draw)" and "s \<noteq> l" "sys_up S s = []" "sys_down S s = []"
    and event: "realm_event e l (sys_world S) (Received d s (via s (request_message (prog s t) (NewID draw)))) out w'"
    and reply: "sent_to s out = [r]" "reply_to (via s r) = Some (NewID draw)"
  shows "runs (sys_step via prog e l) S
    (ask_labels via (prog s) s t (NewID draw) d @ map (AtClient s) [CReceives (via s r), CInternal, CInternal])
    (client_moved s (returned t (NewID draw) (via s r) (begun t (NewID draw) (sys_client S s))) [] [] (asked via s t (NewID draw) out w' S))
    (([[], [], []] @ [out]) @ [[], [], []])"
proof (rule sys_runs_append [OF ask_run [where via = via and prog = prog and draw = draw, OF assms(1-7)]])
  let ?S = "asked via s t (NewID draw) out w' S"
  have c: "sys_client ?S s = begun t (NewID draw) (sys_client S s)" by (simp add: asked_def)
  have "sys_down ?S s = [via s r]" using assms(6) reply(1) by (simp add: asked_def deliver_def)
  from reply_run [OF _ _ _ _ reply(2) this, of t "cw_made (sys_client S s)" via prog e l]
  show "runs (sys_step via prog e l) ?S (map (AtClient s) [CReceives (via s r), CInternal, CInternal])
      (client_moved s (returned t (NewID draw) (via s r) (begun t (NewID draw) (sys_client S s))) [] [] ?S) [[], [], []]"
    unfolding c by (simp add: begun_ready assms(1))
qed

section \<open>The runs of the witnesses\<close>

lemma deliver_Nil [simp]: "deliver via [] down = down"
  by (rule ext) (simp add: deliver_def sent_to_def)

lemma same_down: "(S :: system)\<lparr>sys_world := w, sys_down := sys_down S\<rparr> = S\<lparr>sys_world := w\<rparr>"
  by (cases S) simp

lemma internal_lift:
  "runs (realm_cstep e l) w labs w' outs \<Longrightarrow> set labs \<subseteq> {Internal} \<Longrightarrow> set outs \<subseteq> {[]} \<Longrightarrow>
   runs (sys_step via prog e l) (S\<lparr>sys_world := w\<rparr>) (map AtRealm labs) (S\<lparr>sys_world := w'\<rparr>) outs"
proof (induction rule: runs.induct)
  case (go w lab w1 out labs w2 outs)
  have "realm_event e l (sys_world (S\<lparr>sys_world := w\<rparr>)) Internal [] w1"
    using go by (simp add: realm_cstep_def)
  from sys_step.realm_works [OF this, of via prog] go show ?case
    by (auto simp: same_down intro: runs.go)
qed (simp add: runs.stop)

lemma plain_event:
  "plain_realm (w_realm w) \<Longrightarrow> w_phase w s = Running \<Longrightarrow> s \<noteq> l \<Longrightarrow> draw_fresh draw msg (w_realm w) \<Longrightarrow>
   route_message e draw s msg (w_realm w) = (r', out, Continue) \<Longrightarrow>
   realm_event e l w (Received draw s msg) out (w\<lparr>w_realm := r'\<rparr>)"
  by (rule realm_event.received)
     (simp_all add: seen_fresh_plain take_message_def handle_plain set_phase_def fun_upd_idem)

text \<open>All sessions are connected by websockets with JSON.\<close>

abbreviation demo_via :: "sess_ptr \<Rightarrow> message \<Rightarrow> message" where
  "demo_via \<equiv> links sorted_list_of_fset (\<lambda>_. Socket JSONSerializer)"

lemma demo_via_json: "demo_via s m = json_via m"
  by (simp add: links_def json_via_def)

text \<open>Client 1 subscribes to \<open>a\<close> in request 0, registers \<open>f\<close> in request 1 and calls it in request 2.\<close>

fun demo_asks :: "sess_ptr \<Rightarrow> nat \<Rightarrow> client_request" where
  "demo_asks s 0 = AskSubscribe ''a'' None"
| "demo_asks s (Suc 0) = AskRegister ''f'' None"
| "demo_asks s _ = AskCall ''f'' None (Some [VBool True]) None"

definition demo_joined :: system where
  "demo_joined = (sys_start ticket_config 0)\<lparr>sys_world := demo_world1\<rparr>"

definition demo_labs :: "system_label list" where
  "demo_labs = map AtRealm [Internal, Internal, Internal, Internal, Internal]"

lemma demo_joined_run:
  "runs (sys_step demo_via demo_asks demo_env 0) (sys_start ticket_config 0) demo_labs demo_joined [[], [], [], [], []]"
  using internal_lift [OF demo_world1_run, of demo_via demo_asks "sys_start ticket_config 0"]
  by (simp add: demo_joined_def demo_labs_def sys_start_def)

lemma demo_joined_sel [simp]:
  "sys_world demo_joined = demo_world1" "sys_client demo_joined s = client_start"
  "sys_up demo_joined s = []" "sys_down demo_joined s = []"
  by (simp_all add: demo_joined_def sys_start_def)

lemma client_start_sel [simp]:
  "cw_acts client_start = ActsOpen" "cw_reqs client_start t = ReqNew" "never_used client_start i"
  by (simp_all add: client_start_def never_used_def)

lemma ticket_interceptor: "cfg_Interceptor ticket_config = None"
  by (simp add: ticket_config_def)

lemma demo_world1_dealer: "Realm_Dealer (w_realm demo_world1) = NewDefaultDealer"
  by (simp add: demo_world1_def demo_world_def world_steps init_world_def Realm_init_def ticket_config_def)

lemma NewID_small [simp]: "NewID 5 = 5" "NewID 6 = 6" "NewID 7 = 7" "NewID 8 = 8" "NewID 9 = 9"
  by (simp_all add: NewID_def maxID_def)

text \<open>After request 0, and after request 1.\<close>

definition demo_sub :: "message \<times> Realm" where
  "demo_sub = (MSubscribed \<lparr>Subscribed_Request = 5, Subscribed_Subscription = 7\<rparr>,
     (w_realm demo_world1)\<lparr>Realm_Broker := fst (broker_Subscribe 7 1
        \<lparr>Subscribe_Request = 5, Subscribe_Options = dict_make, Subscribe_Topic = ''a''\<rparr> NewDefaultBroker)\<rparr>)"

definition demo_reg :: "message \<times> Realm" where
  "demo_reg = (MRegistered \<lparr>Registered_Request = 5, Registered_Registration = 7\<rparr>,
     (w_realm demo_world1)\<lparr>Realm_Dealer := fst (dealer_Register 7 1
        \<lparr>Register_Request = 5, Register_Options = None, Register_Procedure = ''f''\<rparr> NewDefaultDealer)\<rparr>)"

definition demo_after :: "nat \<Rightarrow> message \<times> Realm \<Rightarrow> system" where
  "demo_after t x = client_moved 1 (returned t 5 (fst x) (begun t 5 client_start)) [] []
     (asked demo_via 1 t 5 [(1, fst x)] (demo_world1\<lparr>w_realm := snd x\<rparr>) demo_joined)"

lemma demo_sub_event:
  "realm_event demo_env 0 demo_world1 (Received 7 1 (request_message (demo_asks 1 0) 5))
     [(1, fst demo_sub)] (demo_world1\<lparr>w_realm := snd demo_sub\<rparr>)"
  by (rule plain_event)
     (simp_all add: demo_world1_fields demo_sub_def or_make_def broker_Subscribe_def Let_def del: One_nat_def)

lemma demo_reg_event:
  "realm_event demo_env 0 demo_world1 (Received 7 1 (request_message (demo_asks 1 (Suc 0)) 5))
     [(1, fst demo_reg)] (demo_world1\<lparr>w_realm := snd demo_reg\<rparr>)"
  by (rule plain_event)
     (simp_all add: demo_world1_fields demo_world1_dealer demo_reg_def dealer_Register_def NewDefaultDealer_def dl_fresh_def Let_def
        del: One_nat_def)

text \<open>The runs of request 0 and of request 1.\<close>

lemma demo_carried [simp]:
  "demo_via s (request_message (demo_asks s' t) i) = request_message (demo_asks s' t) i"
  "demo_via s (fst demo_sub) = fst demo_sub" "demo_via s (fst demo_reg) = fst demo_reg"
  by (cases "(s', t)" rule: demo_asks.cases)
     (simp_all add: demo_via_json json_via_def json_message_def omit_args_def omit_kwargs_def or_make_def demo_sub_def
        demo_reg_def del: One_nat_def)

lemma demo_request_run:
  assumes "realm_event demo_env 0 demo_world1 (Received 7 1 (request_message (demo_asks 1 t) 5))
      [(1, fst x)] (demo_world1\<lparr>w_realm := snd x\<rparr>)" and "reply_to (fst x) = Some 5" and "demo_via 1 (fst x) = fst x"
  shows "\<exists>ls outs. runs (sys_step demo_via demo_asks demo_env 0) (sys_start ticket_config 0) ls (demo_after t x) outs"
proof -
  note r = request_run [of demo_joined 1 t 5 0 demo_env 7 demo_via demo_asks "[(1, fst x)]" "demo_world1\<lparr>w_realm := snd x\<rparr>" "fst x"]
  from sys_runs_append [OF demo_joined_run r] assms show ?thesis
    unfolding demo_after_def by (auto simp: sent_to_def)
qed

lemma demo_after_sel [simp]:
  "cw_reqs (sys_client (demo_after t x) 1) = (cw_reqs client_start)(t := ReqDone 5 (Inr (fst x)))"
  "sys_world (demo_after t x) = demo_world1\<lparr>w_realm := snd x\<rparr>"
  "cw_acts (sys_client (demo_after t x) 1) = ActsOpen"
  "sys_up (demo_after t x) s = []" "sys_down (demo_after t x) 1 = []"
  by (simp_all add: demo_after_def client_moved_def asked_def returned_def begun_def)

lemma demo_sub_run:
  "\<exists>ls outs. runs (sys_step demo_via demo_asks demo_env 0) (sys_start ticket_config 0) ls (demo_after 0 demo_sub) outs"
  by (rule demo_request_run [OF demo_sub_event _ demo_carried(2)]) (simp add: demo_sub_def)

lemma demo_reg_run:
  "\<exists>ls outs. runs (sys_step demo_via demo_asks demo_env 0) (sys_start ticket_config 0) ls (demo_after (Suc 0) demo_reg) outs"
  by (rule demo_request_run [OF demo_reg_event _ demo_carried(3)]) (simp add: demo_reg_def)

text \<open>Session \<open>s\<close> says \<open>msg\<close>, and the realm takes it.\<close>

lemma say_run:
  assumes "is_speech msg" "s \<noteq> l" "sys_up S s = []"
    and "realm_event e l (sys_world S) (Received d s (via s msg)) out w'"
  shows "runs (sys_step via prog e l) S [Speaks s msg, AtRealm (Received d s (via s msg))]
    (S\<lparr>sys_world := w', sys_down := deliver via out (sys_down S)\<rparr>) [[], out]"
proof -
  let ?S = "send_up s (via s msg) S"
  have "sys_step via prog e l ?S (AtRealm (Received d s (via s msg)))
      (?S\<lparr>sys_world := w', sys_up := (sys_up ?S)(s := []), sys_down := deliver via out (sys_down ?S)\<rparr>) out"
    by (rule sys_step.realm_reads) (use assms in \<open>simp_all add: send_up_def\<close>)
  from runs.go [OF sys_step.speaks [OF assms(1)] runs_one [where step = "sys_step via prog e l", OF this]] assms(3) show ?thesis
    by (cases S) (simp add: send_up_def fun_upd_idem)
qed

text \<open>Client 1 publishes to \<open>a\<close>, to which it is subscribed, without being excluded.\<close>

definition demo_event :: Event where
  "demo_event = (event_template 9 demo_self_publish)\<lparr>Event_Subscription := 7\<rparr>"

lemma demo_sub_plain: "plain_realm (snd demo_sub)" and demo_reg_plain: "plain_realm (snd demo_reg)"
  using plain_demo by (simp_all add: plain_realm_def demo_sub_def demo_reg_def)

lemma demo_publish_out:
  "broker_Publish (env_ord demo_env) 9 1 demo_self_publish (Realm_Broker (snd demo_sub)) = [(1, MEvent demo_event)]"
  by (simp add: broker_Publish_def demo_sub_def broker_Subscribe_def NewDefaultBroker_def demo_self_publish_def
      demo_publish_def exclude_publisher_def demo_event_def demo_env_def Let_def)

lemma demo_publish_carried [simp]:
  "demo_via s (MPublish demo_self_publish) = MPublish demo_self_publish" "demo_via s (MEvent demo_event) = MEvent demo_event"
  by (simp_all add: demo_via_json json_via_def json_message_def omit_args_def omit_kwargs_def demo_event_def
      demo_self_publish_def demo_publish_def event_template_def fmap_ext)

lemma demo_event_run:
  "\<exists>ls S outs. runs (sys_step demo_via demo_asks demo_env 0) (sys_start ticket_config 0) ls S outs
     \<and> AtClient 1 (CReceives (MEvent demo_event)) \<in> set ls"
proof -
  let ?S = "demo_after 0 demo_sub" let ?w = "demo_world1\<lparr>w_realm := snd demo_sub\<rparr>"
  obtain ls outs where 1: "runs (sys_step demo_via demo_asks demo_env 0) (sys_start ticket_config 0) ls ?S outs"
    using demo_sub_run by blast
  have "realm_event demo_env 0 ?w (Received 9 1 (MPublish demo_self_publish)) [(1, MEvent demo_event)]
      (?w\<lparr>w_realm := snd demo_sub\<rparr>)"
    by (rule plain_event)
       (simp_all add: demo_world1_fields demo_sub_plain demo_publish_out del: One_nat_def)
  then have 2: "runs (sys_step demo_via demo_asks demo_env 0) ?S
      [Speaks 1 (MPublish demo_self_publish), AtRealm (Received 9 1 (MPublish demo_self_publish))]
      (?S\<lparr>sys_world := ?w\<lparr>w_realm := snd demo_sub\<rparr>, sys_down := deliver demo_via [(1, MEvent demo_event)] (sys_down ?S)\<rparr>)
      [[], [(1, MEvent demo_event)]]"
    using say_run [of "MPublish demo_self_publish" 1 0 ?S demo_env 9 demo_via] by simp
  let ?S2 = "?S\<lparr>sys_world := ?w\<lparr>w_realm := snd demo_sub\<rparr>, sys_down := deliver demo_via [(1, MEvent demo_event)] (sys_down ?S)\<rparr>"
  let ?c = "sys_client ?S 1"
  have "client_event never_used ?c (CReceives (MEvent demo_event)) (set_client (cw_client ?c) ?c) ()"
    by (rule client_event.receives) (simp_all del: One_nat_def)
  then have "sys_step demo_via demo_asks demo_env 0 ?S2 (AtClient 1 (CReceives (MEvent demo_event)))
      (client_moved 1 (set_client (cw_client ?c) ?c) [] [] ?S2) []"
    using client_step_lift [of ?S2 1 "CReceives (MEvent demo_event)" _ _ "[]" demo_via demo_asks demo_env 0]
    by (simp add: deliver_def sent_to_def del: One_nat_def)
  from sys_runs_snoc [OF sys_runs_append [OF 1 2] this] show ?thesis by (intro exI conjI) (assumption, simp)
qed

text \<open>Client 1 calls its own procedure \<open>f\<close>, is invoked, yields, and the call returns.\<close>

definition demo_invocation :: message where
  "demo_invocation = MInvocation \<lparr>Invocation_Request = 8, Invocation_Registration = 7, Invocation_Details = dict_make,
     Invocation_Arguments = Some [VBool True], Invocation_ArgumentsKw = None\<rparr>"

definition demo_yield :: Yield where
  "demo_yield = \<lparr>Yield_Request = 8, Yield_Options = dict_make, Yield_Arguments = Some [VBool False],
     Yield_ArgumentsKw = None\<rparr>"

definition demo_result :: Result where
  "demo_result = \<lparr>Result_Request = 6, Result_Details = dict_make, Result_Arguments = Some [VBool False],
     Result_ArgumentsKw = None\<rparr>"

definition demo_called :: Realm where
  "demo_called = (snd demo_reg)\<lparr>Realm_Dealer := fst (dealer_Call (env_heap demo_env) 8 1
     \<lparr>Call_Request = 6, Call_Options = None, Call_Procedure = ''f'', Call_Arguments = Some [VBool True],
      Call_ArgumentsKw = None\<rparr> (Realm_Dealer (snd demo_reg)))\<rparr>"

definition demo_yielded :: Realm where
  "demo_yielded = demo_called\<lparr>Realm_Dealer := fst (dealer_Yield 1 demo_yield (Realm_Dealer demo_called))\<rparr>"

lemmas demo_dealer_defs = demo_reg_def dealer_Register_def NewDefaultDealer_def dealer_Call_def dealer_Yield_def
  call_details_def Let_def

lemma demo_call_event:
  "realm_event demo_env 0 (demo_world1\<lparr>w_realm := snd demo_reg\<rparr>)
     (Received 8 1 (request_message (demo_asks 1 2) 6)) [(1, demo_invocation)] (demo_world1\<lparr>w_realm := demo_called\<rparr>)"
  using plain_event [of "demo_world1\<lparr>w_realm := snd demo_reg\<rparr>" 1 0 8 "request_message (demo_asks 1 2) 6" demo_env
      demo_called "[(1, demo_invocation)]"]
  by (simp add: demo_world1_fields demo_reg_plain demo_called_def demo_invocation_def numeral_2_eq_2 del: One_nat_def)
     (simp add: demo_dealer_defs addCallee_maps del: One_nat_def)

lemma demo_yield_event:
  "realm_event demo_env 0 (demo_world1\<lparr>w_realm := demo_called\<rparr>)
     (Received 0 1 (MYield demo_yield)) [(1, MResult demo_result)] (demo_world1\<lparr>w_realm := demo_yielded\<rparr>)"
  using plain_event [of "demo_world1\<lparr>w_realm := demo_called\<rparr>" 1 0 0 "MYield demo_yield" demo_env
      demo_yielded "[(1, MResult demo_result)]"] demo_reg_plain
  by (simp add: demo_world1_fields demo_yielded_def plain_realm_def del: One_nat_def)
     (simp add: demo_called_def demo_yield_def demo_result_def demo_dealer_defs addCallee_maps del: One_nat_def)

lemma demo_call_carried [simp]:
  "demo_via s demo_invocation = demo_invocation" "demo_via s (MYield demo_yield) = MYield demo_yield"
  "demo_via s (MResult demo_result) = MResult demo_result"
  by (simp_all add: demo_via_json json_via_def json_message_def omit_args_def omit_kwargs_def demo_invocation_def
      demo_yield_def demo_result_def)

lemma demo_call_run:
  "\<exists>ls S outs. runs (sys_step demo_via demo_asks demo_env 0) (sys_start ticket_config 0) ls S outs
     \<and> cw_reqs (sys_client S 1) 2 = ReqDone 6 (Inr (MResult demo_result))"
proof -
  let ?S = "demo_after (Suc 0) demo_reg" and ?step = "sys_step demo_via demo_asks demo_env 0"
  let ?S1 = "asked demo_via 1 2 6 [(1, demo_invocation)] (demo_world1\<lparr>w_realm := demo_called\<rparr>) ?S"
  let ?c = "sys_client ?S1 1"
  let ?S2 = "client_moved 1 ?c [] [] ?S1"
  let ?S3 = "?S2\<lparr>sys_world := demo_world1\<lparr>w_realm := demo_yielded\<rparr>,
    sys_down := deliver demo_via [(1, MResult demo_result)] (sys_down ?S2)\<rparr>"
  obtain ls outs where 1: "runs ?step (sys_start ticket_config 0) ls ?S outs"
    using demo_reg_run by blast
  have 2: "runs ?step ?S (ask_labels demo_via (demo_asks 1) 1 2 6 8) ?S1 ([[], [], []] @ [[(1, demo_invocation)]])"
    using ask_run [of ?S 1 2 6 0 demo_env 8 demo_via demo_asks, simplified NewID_small] demo_call_event
    by (simp add: never_used_def del: One_nat_def)
  have "client_event never_used ?c (CReceives demo_invocation) ?c ()"
    using client_event.receives [of ?c demo_invocation "cw_client ?c" _ never_used]
    by (simp add: demo_invocation_def set_client_def asked_def begun_ready del: One_nat_def)
  then have 3: "?step ?S1 (AtClient 1 (CReceives demo_invocation)) ?S2 []"
    using client_step_lift [of ?S1 1 "CReceives demo_invocation" ?c "()" "[]" demo_via demo_asks demo_env 0]
    by (simp add: asked_def deliver_def sent_to_def del: One_nat_def)
  have 4: "runs ?step ?S2 [Speaks 1 (MYield demo_yield), AtRealm (Received 0 1 (MYield demo_yield))] ?S3
      [[], [(1, MResult demo_result)]]"
    using say_run [of "MYield demo_yield" 1 0 ?S2 demo_env 0 demo_via] demo_yield_event
    by (simp add: client_moved_def asked_def del: One_nat_def)
  have c: "sys_client ?S3 1 = begun 2 6 (sys_client ?S 1)" by (simp add: client_moved_def asked_def)
  have 5: "runs ?step ?S3 (map (AtClient 1) [CReceives (MResult demo_result), CInternal, CInternal])
      (client_moved 1 (returned 2 6 (MResult demo_result) (sys_client ?S3 1)) [] [] ?S3) [[], [], []]"
    by (rule reply_run [where ch = "cw_made (sys_client ?S 1)"], unfold c)
       (simp_all add: begun_ready demo_result_def demo_call_carried(3) [unfolded demo_result_def] client_moved_def deliver_def sent_to_def del: One_nat_def)
  from sys_runs_append [OF sys_runs_append [OF sys_runs_snoc [OF sys_runs_append [OF 1 2] 3] 4] 5] show ?thesis
    by (intro exI conjI) (assumption, simp add: client_moved_def returned_def del: One_nat_def)
qed

end
