(* ===== verification/Realm_Answers.thy ===== *)
theory Realm_Answers
  imports Realm_Spec
begin

text \<open>
  What the realm's handlers send for a message: to which message each kind of answer is an answer, and where
  the identifiers in it come from.  The identifiers that a router allots fit a double.
\<close>

section \<open>Answers\<close>

lemma publish_sends:
  "(s, x) \<in> set (broker_Publish ord draw pub m br) \<Longrightarrow>
   (\<exists>ev. x = MEvent ev \<and> Event_Publication ev = NewID draw) \<or> (\<exists>p. x = MPublished p \<and> Published_Publication p = NewID draw)"
  by (auto simp: broker_Publish_def Let_def set_publish_loop event_template_def split: if_splits)

text \<open>The message to which each kind of answer is an answer.\<close>

fun answers_message :: "64 word \<Rightarrow> sess_ptr \<Rightarrow> message \<Rightarrow> Realm \<Rightarrow> sess_ptr \<Rightarrow> message \<Rightarrow> bool" where
  "answers_message draw s' msg r s (MSubscribed m) = (s' = s \<and> (\<exists>sm. msg = MSubscribe sm
     \<and> m = \<lparr>Subscribed_Request = Subscribe_Request sm, Subscribed_Subscription = NewID draw\<rparr>))"
| "answers_message draw s' msg r s (MRegistered m) = (s' = s \<and> (\<exists>rm. msg = MRegister rm
     \<and> fmlookup (registrations (Realm_Dealer r)) (Register_Procedure rm) = None
     \<and> m = \<lparr>Registered_Request = Register_Request rm, Registered_Registration = NewID draw\<rparr>))"
| "answers_message draw s' msg r s (MResult m) = (\<exists>y. msg = MYield y
     \<and> Result_Arguments m = Yield_Arguments y \<and> Result_ArgumentsKw m = Yield_ArgumentsKw y
     \<and> fmlookup (calls (Realm_Dealer r)) (Result_Request m) = Some s)"
| "answers_message draw s' msg r s (MEvent ev) = (\<exists>pm. msg = MPublish pm \<and> Event_Publication ev = NewID draw)"
| "answers_message draw s' msg r s (MPublished m) = (\<exists>pm. msg = MPublish pm \<and> Published_Publication m = NewID draw)"
| "answers_message draw s' msg r s (MInvocation m) = (\<exists>cm. msg = MCall cm \<and> Invocation_Request m = NewID draw
     \<and> fmlookup (registrations (Realm_Dealer r)) (Call_Procedure cm) = Some (Invocation_Registration m))"
| "answers_message draw s' msg r s _ = True"

lemma route_answers:
  assumes "route_message e draw s' msg r = (r', out, nxt)" and "(s, x) \<in> set out"
  shows "answers_message draw s' msg r s x"
proof (cases msg)
  case MPublish
  with assms show ?thesis by (auto dest: publish_sends)
next
  case MSubscribe
  with assms show ?thesis by (auto simp: broker_Subscribe_def Let_def)
next
  case MUnsubscribe
  with assms show ?thesis by (auto simp: broker_Unsubscribe_def Let_def split: option.splits)
next
  case MRegister
  with assms show ?thesis by (auto simp: dealer_Register_def dealer_error_def Let_def split: option.splits)
next
  case MUnregister
  with assms show ?thesis by (auto simp: dealer_Unregister_def dealer_error_def Let_def split: option.splits)
next
  case MCall
  with assms show ?thesis by (auto simp: dealer_Call_def dealer_error_def Let_def split: option.splits)
next
  case MYield
  with assms show ?thesis by (auto simp: dealer_Yield_def Let_def split: option.splits)
next
  case MError
  with assms show ?thesis by (auto simp: dealer_Error_def Let_def split: option.splits if_splits)
qed (use assms in auto)

text \<open>An event that is sent was published, to a topic its receiver is subscribed to.\<close>

lemma route_event:
  assumes "realm_ok r" "map_order (env_ord e)"
    and "route_message e draw p msg r = (r', out, nxt)" and "(s, MEvent ev) \<in> set out"
  shows "\<exists>pm. msg = MPublish pm \<and> br_live (Realm_Broker r) (Event_Subscription ev) = Some (Publish_Topic pm, s)
    \<and> \<not> (s = p \<and> exclude_publisher pm)
    \<and> Event_Arguments ev = Publish_Arguments pm \<and> Event_ArgumentsKw ev = Publish_ArgumentsKw pm"
proof -
  obtain pm where pm: "msg = MPublish pm" using route_answers [OF assms(3,4)] by auto
  have inv: "br_inv (Realm_Broker r)" using assms(1) by (simp add: realm_ok_def)
  obtain evs where evs: "broker_Publish (env_ord e) draw p pm (Realm_Broker r) = evs @ acknowledgement (NewID draw) p pm"
      "set evs = event_sends (br_live (Realm_Broker r)) (NewID draw) p pm"
    by (rule Publish_out [OF inv assms(2)])
  have "out = broker_Publish (env_ord e) draw p pm (Realm_Broker r)" using pm assms(3) by auto
  then have "(s, MEvent ev) \<in> set evs" using assms(4) evs(1) by (simp add: acknowledgement_def split: if_splits)
  then obtain i where "ev = (event_template (NewID draw) pm)\<lparr>Event_Subscription := i\<rparr>"
      "br_live (Realm_Broker r) i = Some (Publish_Topic pm, s)" "\<not> (s = p \<and> exclude_publisher pm)"
    unfolding evs(2) event_sends_def by blast
  with pm show ?thesis by (simp add: event_template_def)
qed

text \<open>A call is recorded for the session it came from.\<close>

lemma route_calls:
  "fmlookup (calls (Realm_Dealer (fst (route_message e draw s' msg r)))) i = Some s \<Longrightarrow>
   fmlookup (calls (Realm_Dealer r)) i = Some s \<or> s' = s \<and> (\<exists>cm. msg = MCall cm \<and> Call_Request cm = i)"
  by (cases msg)
     (auto simp: case_prod_beta Let_def Register_calls Unregister_calls dealer_Call_def
        dealer_Yield_def dealer_Error_def split: option.splits if_splits)

text \<open>What a message adds to the tables.\<close>

lemma route_tables:
  assumes "realm_ok r" "draw_fresh draw msg r"
  shows "br_live (Realm_Broker (fst (route_message e draw s msg r))) i = Some x \<Longrightarrow>
      br_live (Realm_Broker r) i = Some x \<or> i = NewID draw"
    and "dl_live (Realm_Dealer (fst (route_message e draw s msg r))) i = Some y \<Longrightarrow>
      dl_live (Realm_Dealer r) i = Some y \<or> i = NewID draw"
proof -
  have inv: "br_inv (Realm_Broker r)" using assms(1) by (simp add: realm_ok_def)
  show "br_live (Realm_Broker r) i = Some x \<or> i = NewID draw"
    if "br_live (Realm_Broker (fst (route_message e draw s msg r))) i = Some x"
    using that assms(2)
    by (cases msg) (auto simp: case_prod_beta Let_def br_live_Subscribe [OF inv] br_live_Unsubscribe [OF inv] split: if_splits)
  show "dl_live (Realm_Dealer r) i = Some y \<or> i = NewID draw"
    if d: "dl_live (Realm_Dealer (fst (route_message e draw s msg r))) i = Some y"
  proof (cases msg)
    case (MRegister m)
    with d show ?thesis
      by (cases "fmlookup (registrations (Realm_Dealer r)) (Register_Procedure m)")
         (auto simp: case_prod_beta Let_def dl_live_Register Register_exists split: if_splits)
  qed (use d in \<open>auto simp: case_prod_beta Let_def dl_live_Unregister dealer_Call_def dealer_Yield_def
         dealer_Error_def dl_live_def split: option.splits if_splits\<close>)
qed

section \<open>The identifiers of a router\<close>

text \<open>The identifiers in a message that the router has drawn.\<close>

fun allotted :: "message \<Rightarrow> ID list" where
  "allotted (MSubscribed m) = [Subscribed_Subscription m]"
| "allotted (MRegistered m) = [Registered_Registration m]"
| "allotted (MPublished m) = [Published_Publication m]"
| "allotted (MEvent m) = [Event_Subscription m, Event_Publication m]"
| "allotted (MInvocation m) = [Invocation_Request m, Invocation_Registration m]"
| "allotted _ = []"

definition ids_small :: "Realm \<Rightarrow> bool" where
  "ids_small r \<longleftrightarrow> (\<forall>i x. br_live (Realm_Broker r) i = Some x \<longrightarrow> unat i < 2 ^ 53)
     \<and> (\<forall>i y. dl_live (Realm_Dealer r) i = Some y \<longrightarrow> unat i < 2 ^ 53)"

lemma ids_smallD:
  assumes "ids_small r"
  shows "br_live (Realm_Broker r) i = Some x \<Longrightarrow> unat i < 2 ^ 53" "dl_live (Realm_Dealer r) i = Some y \<Longrightarrow> unat i < 2 ^ 53"
  using assms unfolding ids_small_def by blast+

lemma route_ids:
  assumes ok: "realm_ok r" "draw_fresh draw msg r" "map_order (env_ord e)" and small: "ids_small r"
    and route: "route_message e draw p msg r = (r', out, nxt)"
  shows "ids_small r'" and "(s, x) \<in> set out \<Longrightarrow> i \<in> set (allotted x) \<Longrightarrow> unat i < 2 ^ 53"
proof -
  have r': "r' = fst (route_message e draw p msg r)" by (simp add: route)
  show "ids_small r'"
    unfolding ids_small_def r' using route_tables [OF ok(1,2), of e p] ids_smallD [OF small] NewID_less by blast
  show "unat i < 2 ^ 53" if x: "(s, x) \<in> set out" "i \<in> set (allotted x)"
  proof (cases x)
    case (MEvent ev)
    with x route_answers [OF route x(1)] route_event [OF ok(1,3) route, of s ev] ids_smallD(1) [OF small] NewID_less
    show ?thesis by auto
  next
    case (MInvocation m)
    then obtain cm where "msg = MCall cm" "Invocation_Request m = NewID draw"
        "fmlookup (registrations (Realm_Dealer r)) (Call_Procedure cm) = Some (Invocation_Registration m)"
      using route_answers [OF route x(1)] by auto
    moreover have "dl_inv (Realm_Dealer r)" using ok(1) by (simp add: realm_ok_def)
    from registration_dl_live [OF this calculation(3)]
    obtain e' where "dl_live (Realm_Dealer r) (Invocation_Registration m) = Some (Call_Procedure cm, e')" ..
    then have "unat (Invocation_Registration m) < 2 ^ 53" by (rule ids_smallD(2) [OF small])
    ultimately show ?thesis using x(2) MInvocation NewID_less by auto
  qed (use x route_answers [OF route x(1)] NewID_less in auto)
qed

lemma taken_ids:
  assumes ok: "world_ok w" "map_order (env_ord e)" and small: "ids_small (w_realm w)"
    and fresh: "seen_fresh e draw p msg (w_realm w)" and took: "take_message e draw p msg w0 = (w', out)"
    and same: "w_realm w0 = w_realm w"
  shows "ids_small (w_realm w')" and "(s, x) \<in> set out \<Longrightarrow> i \<in> set (allotted x) \<Longrightarrow> unat i < 2 ^ 53"
proof -
  let ?r = "w_realm w" let ?msg = "Realm_Interceptor ?r (env_heap e p) msg"
  note f = take_message_fields [OF took, unfolded same]
  have r: "realm_ok ?r" "draw_fresh draw ?msg ?r"
    using world_okD(1) [OF ok(1)] fresh by (simp_all add: seen_fresh_def)
  consider (refused) err where "w_realm w' = ?r" "out = [(p, authz_error msg err)]"
    | (routed) nxt where "route_message e draw p ?msg ?r = (w_realm w', out, nxt)"
  proof (cases "fst (Realm_Authorizer ?r (env_heap e p) msg)")
    case True
    then show thesis
      using f(1,2) by (intro routed [of "snd (snd (route_message e draw p ?msg ?r))"]) (simp add: handle_admitted)
  next
    case False
    then show thesis using f(1,2) by (intro refused) (simp_all add: handle_refused)
  qed
  then have "ids_small (w_realm w') \<and> ((s, x) \<in> set out \<longrightarrow> i \<in> set (allotted x) \<longrightarrow> unat i < 2 ^ 53)"
  proof cases
    case (routed nxt)
    from route_ids [OF r ok(2) small routed] show ?thesis by blast
  qed (use small in \<open>auto simp: authz_error_def\<close>)
  then show "ids_small (w_realm w')" and "(s, x) \<in> set out \<Longrightarrow> i \<in> set (allotted x) \<Longrightarrow> unat i < 2 ^ 53"
    by blast+
qed

lemma without_session_Some: "without_session s tab i = Some x \<Longrightarrow> tab i = Some x"
  by (auto simp: without_session_def split: option.splits if_splits)

lemma step_ids:
  assumes step: "realm_step e l w out w'" and ok: "world_ok w" "map_order (env_ord e)" and small: "ids_small (w_realm w)"
  shows "ids_small (w_realm w') \<and> ((s, x) \<in> set out \<longrightarrow> i \<in> set (allotted x) \<longrightarrow> unat i < 2 ^ 53)"
proof -
  have inv: "br_inv (Realm_Broker (w_realm w))" "dl_inv (Realm_Dealer (w_realm w))"
    using world_okD(1) [OF ok(1)] by (simp_all add: realm_ok_def)
  obtain lab where "realm_event e l w lab out w'" using step realm_event_iff by blast
  then show ?thesis
  proof cases
    case (received p draw msg)
    from taken_ids [OF ok small received(4,5)] show ?thesis by blast
  next
    case (received_local msg pipe draw)
    from taken_ids [OF ok small received_local(4,5)] show ?thesis by simp
  next
    case (departs_dealer p)
    with small show ?thesis
      by (auto simp: ids_small_def leave_dealer_def dl_live_RemoveSession [OF inv(2) ok(2)] split: option.splits if_splits)
  next
    case (departs_broker p)
    with small show ?thesis
      by (auto simp: ids_small_def leave_broker_def br_live_RemoveSession [OF inv(1) ok(2)] split: option.splits if_splits)
  next
    case internal
    with small show ?thesis
      by (auto simp: ids_small_def same_stores_def own_output_def kill_message_def)
  qed
qed

text \<open>
  C20. Every identifier that a realm allots (of a subscription, a registration, a publication or an invocation) and sends to a
  session, in any run of its goroutines, is below 2 to the 53rd, so that a client whose format knows only floating-point
  numbers receives it unchanged.
\<close>

theorem allotted_ids_small:
  assumes "realm_steps e l (init_world cfg l) out w" and "default_stores cfg" and "map_order (env_ord e)"
    and "(s, x) \<in> set out" and "i \<in> set (allotted x)"
  shows "unat i < 2 ^ 53"
proof -
  have "world_ok w \<and> ids_small (w_realm w) \<and> ((s, x) \<in> set out \<longrightarrow> i \<in> set (allotted x) \<longrightarrow> unat i < 2 ^ 53)"
    using assms(1)
  proof (induction "init_world cfg l" out w rule: realm_steps.induct)
    case refl
    have "ids_small (w_realm (init_world cfg l))"
      using assms(2) by (simp add: ids_small_def init_world_def Realm_init_def default_stores_def br_live_New
          dl_live_def NewDefaultDealer_def)
    then show ?case using world_ok_init [OF assms(2)] by simp
  next
    case (step out w1 out1 w2)
    from step_ids [OF step(3) _ assms(3), of s x i] world_ok_step [OF step(3) assms(3)] step(2) show ?case by auto
  qed
  with assms(4,5) show ?thesis by blast
qed

theorem allotted_ids_small_witness:
  "(\<exists>out w ev. realm_steps demo_env 0 (init_world ticket_config 0) out w \<and> (1, MEvent ev) \<in> set out
      \<and> Event_Subscription ev = 7) \<and> unat (7 :: ID) < 2 ^ 53"
proof -
  obtain out1 where r: "realm_steps demo_env 0 (init_world ticket_config 0) out1 demo_world2"
    using demo_world2_reachable by (auto simp: reachable_def)
  obtain out2 w where p: "realm_step demo_env 0 demo_world2 out2 w"
      "(1, MEvent ((event_template (NewID 9) demo_self_publish)\<lparr>Event_Subscription := 7\<rparr>)) \<in> set out2"
    using demo_self_publish_step by blast
  note run = realm_steps.step [OF r p(1)]
  let ?ev = "(event_template (NewID 9) demo_self_publish)\<lparr>Event_Subscription := 7\<rparr>"
  have sent: "(1, MEvent ?ev) \<in> set (out1 @ out2)" using p(2) by simp
  from allotted_ids_small [OF run default_ticket demo_env_simps(1) sent, of 7]
  have "unat (7 :: ID) < 2 ^ 53" by simp
  with run sent show ?thesis by (intro conjI exI [of _ "out1 @ out2"] exI [of _ w] exI [of _ ?ev]) simp_all
qed

end
