(* ===== verification/System_Props.thy ===== *)
theory System_Props
  imports System_Live Realm_Answers
begin

text \<open>
  What holds across a realm and its clients: a subscription or registration that a client's request returns
  was made for that request and lasts until something ends it, a result was yielded, and an event was
  published to a topic its receiver was subscribed to.
\<close>

section \<open>What a message of a session does\<close>

text \<open>A step of the realm, with the default interceptor: a message is routed or refused, or no message is taken.\<close>

lemma event_cases:
  assumes event: "realm_event e l w lab out w'" and good: "system_good w"
  obtains (routed) draw s msg nxt where "lab = Received draw s msg" "draw_fresh draw msg (w_realm w)"
      "route_message e draw s msg (w_realm w) = (w_realm w', out, nxt)"
  | (refused) draw s msg err where "lab = Received draw s msg" "out = [(s, authz_error msg err)]" "w_realm w' = w_realm w"
  | (leaves_dealer) s where "lab = DepartsDealer s" "out = []" "w' = leave_dealer e s w"
  | (leaves_broker) s where "lab = DepartsBroker s" "out = []" "w' = leave_broker e s w"
  | (own) "lab = Internal" "own_output out" "same_stores w w'"
proof -
  note icpt = system_goodD(3) [OF good]
  have taken: thesis
    if took: "lab = Received draw s msg" "seen_fresh e draw s msg (w_realm w)" "take_message e draw s msg w0 = (w', out)"
      "w_realm w0 = w_realm w" for draw s msg w0
  proof -
    obtain nxt where h: "handle_message e draw s msg (w_realm w) = (w_realm w', out, nxt)"
      using took(3,4) by (auto simp: take_message_def set_phase_def split: prod.splits)
    have "draw_fresh draw msg (w_realm w)"
      using took(2) by (simp add: seen_fresh_def icpt defaultInterceptor_Intercept_def)
    with h took(1) show thesis
      by (auto simp: handle_message_def icpt defaultInterceptor_Intercept_def split: prod.splits if_splits
          intro: routed refused)
  qed
  from event show thesis
  proof cases
    case (received s draw msg)
    show thesis by (rule taken [OF received(1,4,5)]) simp
  next
    case (received_local msg pipe draw)
    show thesis by (rule taken [OF received_local(1,4,5)]) simp
  qed (auto intro: leaves_dealer leaves_broker own)
qed

lemma own_output_goodbye: "own_output out \<Longrightarrow> (s, x) \<in> set out \<Longrightarrow> \<exists>g. x = MGoodbye g"
  by (auto simp: own_output_def kill_message_def)

section \<open>Where replies come from\<close>

lemma route_grants:
  assumes ok: "realm_ok r" "draw_fresh draw msg r"
    and out: "route_message e draw s' msg r = (r', out, nxt)"
  shows "(s, MSubscribed m) \<in> set out \<Longrightarrow> s' = s \<and> (\<exists>sm. msg = MSubscribe sm \<and> Subscribe_Request sm = Subscribed_Request m
      \<and> br_live (Realm_Broker r') (Subscribed_Subscription m) = Some (Subscribe_Topic sm, s))"
    and "(s, MRegistered n) \<in> set out \<Longrightarrow> s' = s \<and> (\<exists>rm. msg = MRegister rm \<and> Register_Request rm = Registered_Request n
      \<and> dl_live (Realm_Dealer r') (Registered_Registration n) = Some (Register_Procedure rm, s))"
proof -
  assume "(s, MSubscribed m) \<in> set out"
  with route_answers [OF out] obtain sm where "s' = s" "msg = MSubscribe sm"
      "m = \<lparr>Subscribed_Request = Subscribe_Request sm, Subscribed_Subscription = NewID draw\<rparr>" by force
  with out ok br_live_Subscribe [of "Realm_Broker r" draw s' sm]
  show "s' = s \<and> (\<exists>sm. msg = MSubscribe sm \<and> Subscribe_Request sm = Subscribed_Request m
      \<and> br_live (Realm_Broker r') (Subscribed_Subscription m) = Some (Subscribe_Topic sm, s))"
    by (auto simp: realm_ok_def case_prod_beta)
next
  assume "(s, MRegistered n) \<in> set out"
  with route_answers [OF out] obtain rm where "s' = s" "msg = MRegister rm"
      "fmlookup (registrations (Realm_Dealer r)) (Register_Procedure rm) = None"
      "n = \<lparr>Registered_Request = Register_Request rm, Registered_Registration = NewID draw\<rparr>" by force
  with out dl_live_Register [of "Realm_Dealer r" rm draw s']
  show "s' = s \<and> (\<exists>rm. msg = MRegister rm \<and> Register_Request rm = Registered_Request n
      \<and> dl_live (Realm_Dealer r') (Registered_Registration n) = Some (Register_Procedure rm, s))"
    by (auto simp: case_prod_beta)
qed

lemma event_grants:
  assumes event: "realm_event e l w lab out w'" and good: "system_good w"
  shows "(s, MSubscribed m) \<in> set out \<Longrightarrow> \<exists>draw sm. lab = Received draw s (MSubscribe sm)
      \<and> Subscribe_Request sm = Subscribed_Request m
      \<and> br_live (Realm_Broker (w_realm w')) (Subscribed_Subscription m) = Some (Subscribe_Topic sm, s)"
    and "(s, MRegistered n) \<in> set out \<Longrightarrow> \<exists>draw rm. lab = Received draw s (MRegister rm)
      \<and> Register_Request rm = Registered_Request n
      \<and> dl_live (Realm_Dealer (w_realm w')) (Registered_Registration n) = Some (Register_Procedure rm, s)"
proof -
  note route = route_grants [OF system_goodD(2) [OF good]]
  show "\<exists>draw sm. lab = Received draw s (MSubscribe sm) \<and> Subscribe_Request sm = Subscribed_Request m
      \<and> br_live (Realm_Broker (w_realm w')) (Subscribed_Subscription m) = Some (Subscribe_Topic sm, s)"
    if "(s, MSubscribed m) \<in> set out"
    using event good
  proof (cases rule: event_cases)
    case (routed draw s' msg nxt)
    from route(1) [OF routed(2,3) that] routed(1) show ?thesis by blast
  qed (use that own_output_goodbye [OF _ that] in \<open>auto simp: authz_error_def\<close>)
  show "\<exists>draw rm. lab = Received draw s (MRegister rm) \<and> Register_Request rm = Registered_Request n
      \<and> dl_live (Realm_Dealer (w_realm w')) (Registered_Registration n) = Some (Register_Procedure rm, s)"
    if "(s, MRegistered n) \<in> set out"
    using event good
  proof (cases rule: event_cases)
    case (routed draw s' msg nxt)
    from route(2) [OF routed(2,3) that] routed(1) show ?thesis by blast
  qed (use that own_output_goodbye [OF _ that] in \<open>auto simp: authz_error_def\<close>)
qed

text \<open>A result that is sent is what some session has yielded, and answers a call that the dealer has recorded.\<close>

lemma event_result:
  assumes "realm_event e l w lab out w'" "system_good w" and "(s, MResult m) \<in> set out"
  shows "\<exists>draw callee y. lab = Received draw callee (MYield y)
    \<and> Result_Arguments m = Yield_Arguments y \<and> Result_ArgumentsKw m = Yield_ArgumentsKw y
    \<and> fmlookup (calls (Realm_Dealer (w_realm w))) (Result_Request m) = Some s"
  using assms(1,2)
proof (cases rule: event_cases)
  case (routed draw callee msg nxt)
  from route_answers [OF routed(3) assms(3)] routed(1) show ?thesis by simp
qed (use assms(3) own_output_goodbye [OF _ assms(3)] in \<open>auto simp: authz_error_def\<close>)

lemma event_calls:
  assumes "realm_event e l w lab out w'" and good: "system_good w" and ord: "map_order (env_ord e)"
    and "fmlookup (calls (Realm_Dealer (w_realm w'))) i = Some s"
  shows "fmlookup (calls (Realm_Dealer (w_realm w))) i = Some s
    \<or> (\<exists>draw cm. lab = Received draw s (MCall cm) \<and> Call_Request cm = i)"
  using assms(1,2)
proof (cases rule: event_cases)
  case (routed draw s' msg nxt)
  with route_calls [of e draw s' msg "w_realm w" i s] assms(4) show ?thesis by auto
next
  case (leaves_dealer s')
  have "dl_regs_ok (Realm_Dealer (w_realm w))"
    using system_goodD(2) [OF good] dl_invD(1) by (auto simp: realm_ok_def)
  with leaves_dealer assms(4) show ?thesis
    by (simp add: leave_dealer_def dl_RemoveSession_maps(5) [OF _ ord])
qed (use assms(4) in \<open>auto simp: leave_broker_def same_stores_def\<close>)

lemma event_event:
  assumes event: "realm_event e l w lab out w'" and good: "system_good w" and "map_order (env_ord e)"
    and "(s, MEvent ev) \<in> set out"
  shows "\<exists>draw p pm. lab = Received draw p (MPublish pm)
    \<and> br_live (Realm_Broker (w_realm w)) (Event_Subscription ev) = Some (Publish_Topic pm, s)
    \<and> \<not> (s = p \<and> exclude_publisher pm)
    \<and> Event_Arguments ev = Publish_Arguments pm \<and> Event_ArgumentsKw ev = Publish_ArgumentsKw pm"
  using event good
proof (cases rule: event_cases)
  case (routed draw p msg nxt)
  from route_event [OF system_goodD(2) [OF good] assms(3) routed(3) assms(4)] routed(1) show ?thesis by blast
qed (use assms(4) own_output_goodbye [OF _ assms(4)] in \<open>auto simp: authz_error_def\<close>)

section \<open>How long a grant lasts\<close>

text \<open>What ends subscription or registration \<open>i\<close> of session \<open>s\<close>.  The code does not ask who sends the request.\<close>

fun ends_subscription :: "ID \<Rightarrow> sess_ptr \<Rightarrow> realm_label \<Rightarrow> bool" where
  "ends_subscription i s (Received draw s' (MUnsubscribe m)) = (Unsubscribe_Subscription m = i)"
| "ends_subscription i s (DepartsBroker s') = (s' = s)"
| "ends_subscription i s _ = False"

fun ends_registration :: "ID \<Rightarrow> sess_ptr \<Rightarrow> realm_label \<Rightarrow> bool" where
  "ends_registration i s (Received draw s' (MUnregister m)) = (Unregister_Registration m = i)"
| "ends_registration i s (DepartsDealer s') = (s' = s)"
| "ends_registration i s _ = False"

lemma route_keeps:
  assumes ok: "realm_ok r" "draw_fresh draw msg r"
  shows "br_live (Realm_Broker r) i = Some x \<Longrightarrow> \<not> ends_subscription i s (Received draw s' msg) \<Longrightarrow>
      br_live (Realm_Broker (fst (route_message e draw s' msg r))) i = Some x"
    and "dl_live (Realm_Dealer r) i = Some y \<Longrightarrow> \<not> ends_registration i s (Received draw s' msg) \<Longrightarrow>
      dl_live (Realm_Dealer (fst (route_message e draw s' msg r))) i = Some y"
proof -
  have inv: "br_inv (Realm_Broker r)" "dl_inv (Realm_Dealer r)" using ok(1) by (simp_all add: realm_ok_def)
  show "br_live (Realm_Broker (fst (route_message e draw s' msg r))) i = Some x"
    if "br_live (Realm_Broker r) i = Some x" "\<not> ends_subscription i s (Received draw s' msg)"
    using that inv ok(2) br_live_None_iff [OF br_invD(1) [OF inv(1)], of i]
    by (cases msg) (auto simp: case_prod_beta Let_def br_live_Subscribe br_live_Unsubscribe br_fresh_def)
  show "dl_live (Realm_Dealer (fst (route_message e draw s' msg r))) i = Some y"
    if d: "dl_live (Realm_Dealer r) i = Some y" "\<not> ends_registration i s (Received draw s' msg)"
  proof (cases msg)
    case (MRegister m)
    have "fmlookup (procedures (Realm_Dealer r)) i \<noteq> None" using d(1) by (auto simp: dl_live_def)
    then show ?thesis
      using MRegister d(1) ok(2)
      by (cases "fmlookup (registrations (Realm_Dealer r)) (Register_Procedure m)")
         (auto simp: case_prod_beta Let_def dl_live_Register Register_exists dl_fresh_def)
  qed (use d in \<open>auto simp: case_prod_beta Let_def dl_live_Unregister dealer_Call_def dealer_Yield_def
         dealer_Error_def dl_live_def split: option.splits\<close>)
qed

lemma event_keeps:
  assumes "realm_event e l w lab out w'" and good: "system_good w" and ord: "map_order (env_ord e)"
  shows "br_live (Realm_Broker (w_realm w)) i = Some (topic, s) \<Longrightarrow> \<not> ends_subscription i s lab \<Longrightarrow>
      br_live (Realm_Broker (w_realm w')) i = Some (topic, s)"
    and "dl_live (Realm_Dealer (w_realm w)) i = Some (u, s) \<Longrightarrow> \<not> ends_registration i s lab \<Longrightarrow>
      dl_live (Realm_Dealer (w_realm w')) i = Some (u, s)"
proof -
  have inv: "br_inv (Realm_Broker (w_realm w))" "dl_inv (Realm_Dealer (w_realm w))"
    using system_goodD(2) [OF good] by (simp_all add: realm_ok_def)
  note leave = br_live_RemoveSession [OF inv(1) ord] dl_live_RemoveSession [OF inv(2) ord]
  show "br_live (Realm_Broker (w_realm w')) i = Some (topic, s)"
    if "br_live (Realm_Broker (w_realm w)) i = Some (topic, s)" "\<not> ends_subscription i s lab"
    using assms(1,2)
  proof (cases rule: event_cases)
    case (routed draw s' msg nxt)
    with route_keeps(1) [OF system_goodD(2) [OF good] routed(2), of i "(topic, s)" s s' e] that show ?thesis by simp
  qed (use that in \<open>auto simp: leave_dealer_def leave_broker_def same_stores_def leave\<close>)
  show "dl_live (Realm_Dealer (w_realm w')) i = Some (u, s)"
    if "dl_live (Realm_Dealer (w_realm w)) i = Some (u, s)" "\<not> ends_registration i s lab"
    using assms(1,2)
  proof (cases rule: event_cases)
    case (routed draw s' msg nxt)
    with route_keeps(2) [OF system_goodD(2) [OF good] routed(2), of i "(u, s)" s s' e] that show ?thesis by simp
  qed (use that in \<open>auto simp: leave_dealer_def leave_broker_def same_stores_def leave\<close>)
qed

lemma subscription_kept:
  assumes "runs (sys_step via prog e l) S ls S' outs" "map_order (env_ord e)" "system_good (sys_world S)"
    and "br_live (Realm_Broker (w_realm (sys_world S))) i = Some (u, s)"
  shows "br_live (Realm_Broker (w_realm (sys_world S'))) i = Some (u, s)
    \<or> (\<exists>lab. AtRealm lab \<in> set ls \<and> ends_subscription i s lab)"
  by (rule kept_or_ended [where P = "\<lambda>w. br_live (Realm_Broker (w_realm w)) i = Some (u, s)" and ends = "ends_subscription i s",
      OF assms(1,2) event_keeps(1) [OF _ _ assms(2)] assms(3,4)])

lemma registration_kept:
  assumes "runs (sys_step via prog e l) S ls S' outs" "map_order (env_ord e)" "system_good (sys_world S)"
    and "dl_live (Realm_Dealer (w_realm (sys_world S))) i = Some (u, s)"
  shows "dl_live (Realm_Dealer (w_realm (sys_world S'))) i = Some (u, s)
    \<or> (\<exists>lab. AtRealm lab \<in> set ls \<and> ends_registration i s lab)"
  by (rule kept_or_ended [where P = "\<lambda>w. dl_live (Realm_Dealer (w_realm w)) i = Some (u, s)" and ends = "ends_registration i s",
      OF assms(1,2) event_keeps(2) [OF _ _ assms(2)] assms(3,4)])

section \<open>Calls on record\<close>

lemma recorded_calls:
  assumes "runs (sys_step via prog e l) (sys_start cfg l) ls S outs"
    and cfg: "default_stores cfg" "cfg_Interceptor cfg = None" and ord: "map_order (env_ord e)"
    and "fmlookup (calls (Realm_Dealer (w_realm (sys_world S)))) i = Some s"
  shows "\<exists>draw cm. AtRealm (Received draw s (MCall cm)) \<in> set ls \<and> Call_Request cm = i"
  using assms(1,5)
proof (induction rule: runs_rev_induct)
  case stop
  then show ?case
    using cfg by (simp add: sys_start_def init_world_def Realm_init_def default_stores_def NewDefaultDealer_def)
next
  case (snoc ls S1 outs lab S2 out)
  have good: "system_good (sys_world S1)" by (rule system_realm_ok [OF snoc.hyps(1) cfg ord])
  from snoc.hyps(2) show ?case
  proof cases
    case (realm_reads draw s' msg w' rest)
    with snoc event_calls [OF realm_reads(3) good ord] show ?thesis by fastforce
  next
    case (realm_works rlab w')
    with snoc event_calls [OF realm_works(3) good ord] show ?thesis by fastforce
  qed (use snoc in \<open>auto simp: sys_defs\<close>)
qed

section \<open>Composition\<close>

text \<open>
  C9. A realm and its clients, connected by one queue in each direction, are composed of their parts.
  Whatever the interleaving of their steps, the realm's part is a run of the realm alone that sends the same messages, the part of
  every client is a run of that client alone, and what a client has said is, as its connection carries it, what the realm has
  heard from it followed by what is under way, in order and without loss or repetition; the same towards the client.
  The connections may be local pipes and websockets with any serializer, each session its own.
\<close>

theorem system_projects:
  assumes "runs (sys_step (links ord conns) prog e l) (sys_start cfg l) ls S outs"
  shows "(\<exists>routs. runs (realm_rel e l) (init_world cfg l) (concat (map realm_part ls)) (sys_world S) routs
        \<and> concat routs = concat outs)
    \<and> (\<forall>s. \<exists>us. runs (client_event never_used) client_start (concat (map (client_part s) ls)) (sys_client S s) us)
    \<and> (\<forall>s. map (links ord conns s) (concat (map (says prog s) ls)) = concat (map (realm_hears l s) ls) @ sys_up S s)
    \<and> (\<forall>s. map (links ord conns s) (sent_to s (concat outs)) = concat (map (client_hears s) ls) @ sys_down S s)"
proof (intro conjI allI)
  have len: "length outs = length ls" using assms by (rule runs_length)
  show "\<exists>routs. runs (realm_rel e l) (init_world cfg l) (concat (map realm_part ls)) (sys_world S) routs
        \<and> concat routs = concat outs"
    using realm_run [OF assms] by (simp add: sys_start_def)
  show "\<exists>us. runs (client_event never_used) client_start (concat (map (client_part s) ls)) (sys_client S s) us" for s
    using client_run [OF assms, of s] by (simp add: sys_start_def)
  show "map (links ord conns s) (concat (map (says prog s) ls)) = concat (map (realm_hears l s) ls) @ sys_up S s" for s
    using up.fifo [OF assms, of s] len by (simp add: sys_start_def map2_fst map_concat comp_def)
  show "map (links ord conns s) (sent_to s (concat outs)) = concat (map (client_hears s) ls) @ sys_down S s" for s
    using down.fifo [OF assms, of s] len by (simp add: sys_start_def map2_fst map2_snd sent_to_concat map_concat comp_def)
qed

theorem system_projects_witness:
  "\<exists>ls S outs. runs (sys_step demo_via demo_asks demo_env 0) (sys_start ticket_config 0) ls S outs
     \<and> cw_reqs (sys_client S 1) 0 = ReqDone 5 (Inr (fst demo_sub))
     \<and> map (demo_via 1) (sent_to 1 (concat outs)) = concat (map (client_hears 1) ls) @ sys_down S 1"
proof -
  obtain ls outs where r: "runs (sys_step demo_via demo_asks demo_env 0) (sys_start ticket_config 0) ls (demo_after 0 demo_sub) outs"
    using demo_sub_run by blast
  from system_projects [OF r] r show ?thesis by (intro exI [of _ ls] exI conjI) (assumption, simp del: One_nat_def, blast)
qed

section \<open>The properties\<close>

text \<open>
  C4. When a client's request returns a SUBSCRIBED, under any interleaving of the realm's goroutines, its
  other clients and this client's other requests, the request was a subscription, the realm had recorded it for this session with the topic
  that was asked for and under the identifier that was returned, and it is in force unless since then the
  realm has handled an UNSUBSCRIBE of it or the session's departure.  (The identifiers the realm draws are not in use when it
  draws them: the code does not check this, the step relation asks for it.)
\<close>

theorem subscription_in_force:
  assumes "runs (sys_step (links ord conns) prog e l) (sys_start cfg l) ls S outs"
    and "default_stores cfg" "cfg_Interceptor cfg = None" "map_order (env_ord e)" and "s \<noteq> l"
    and "cw_reqs (sys_client S s) t = ReqDone i (Inr (MSubscribed m))"
  shows "\<exists>topic options ls1 ls2 S1 outs1. prog s t = AskSubscribe topic options \<and> ls = ls1 @ ls2
    \<and> runs (sys_step (links ord conns) prog e l) (sys_start cfg l) ls1 S1 outs1
    \<and> br_live (Realm_Broker (w_realm (sys_world S1))) (Subscribed_Subscription m) = Some (topic, s)
    \<and> (br_live (Realm_Broker (w_realm (sys_world S))) (Subscribed_Subscription m) = Some (topic, s)
       \<or> (\<exists>lab. AtRealm lab \<in> set ls2 \<and> ends_subscription (Subscribed_Subscription m) s lab))"
proof -
  have sent: "(s, MSubscribed m) \<in> set (concat outs)" using reply_sent(1) [OF assms(1,6)] by auto
  obtain ls1 rlab ls2 S1 outs1 S2 out outs2 where at: "ls = ls1 @ AtRealm rlab # ls2"
      "runs (sys_step (links ord conns) prog e l) (sys_start cfg l) ls1 S1 outs1" "sys_step (links ord conns) prog e l S1 (AtRealm rlab) S2 out"
      "realm_event e l (sys_world S1) rlab out (sys_world S2)" "(s, MSubscribed m) \<in> set out" "system_good (sys_world S1)"
      "runs (sys_step (links ord conns) prog e l) S2 ls2 S outs2"
    using sent_at [OF assms(1-4) sent] .
  obtain draw sm where sm: "rlab = Received draw s (MSubscribe sm)" "Subscribe_Request sm = Subscribed_Request m"
      "br_live (Realm_Broker (w_realm (sys_world S2))) (Subscribed_Subscription m) = Some (Subscribe_Topic sm, s)"
    using event_grants(1) [OF at(4,6,5)] by blast
  have "links ord conns s (request_message (prog s t) i) = MSubscribe sm"
    by (rule wires.answered_request [OF assms(1,6) _ assms(5), where draw = draw]) (simp_all add: at(1) sm(1,2))
  then obtain options where asked: "prog s t = AskSubscribe (Subscribe_Topic sm) options" using wires.asked_for(1) by blast
  have "br_live (Realm_Broker (w_realm (sys_world S))) (Subscribed_Subscription m) = Some (Subscribe_Topic sm, s)
      \<or> (\<exists>lab. AtRealm lab \<in> set ls2 \<and> ends_subscription (Subscribed_Subscription m) s lab)"
    by (rule subscription_kept [OF at(7) assms(4) system_good_step [OF at(4) assms(4) at(6)] sm(3)])
  with sm(3) at(1) runs_snoc [OF at(2,3)] asked show ?thesis
    by (intro exI [of _ "Subscribe_Topic sm"] exI [of _ options] exI [of _ "ls1 @ [AtRealm rlab]"] exI [of _ ls2]
        exI [of _ S2] exI [of _ "outs1 @ [out]"]) simp
qed

theorem subscription_in_force_witness:
  "\<exists>ls S outs. runs (sys_step demo_via demo_asks demo_env 0) (sys_start ticket_config 0) ls S outs
     \<and> (br_live (Realm_Broker (w_realm (sys_world S))) 7 = Some (''a'', 1)
        \<or> (\<exists>lab. AtRealm lab \<in> set ls \<and> ends_subscription 7 1 lab))"
proof -
  obtain ls outs where r: "runs (sys_step demo_via demo_asks demo_env 0) (sys_start ticket_config 0) ls (demo_after 0 demo_sub) outs"
    using demo_sub_run by blast
  have "cw_reqs (sys_client (demo_after 0 demo_sub) 1) 0 =
      ReqDone 5 (Inr (MSubscribed \<lparr>Subscribed_Request = 5, Subscribed_Subscription = 7\<rparr>))"
    by (simp add: demo_sub_def del: One_nat_def)
  from subscription_in_force [OF r default_ticket ticket_interceptor demo_env_simps(1) _ this] r show ?thesis
    by (simp del: One_nat_def) (metis Un_iff set_append)
qed

text \<open>
  C18. When a client's request returns a REGISTERED, under any interleaving, the request was a registration,
  the realm had recorded the procedure that was asked for as this session's under the identifier that was returned, and it is in force
  unless since then the realm has handled an UNREGISTER of it or the session's departure.
\<close>

theorem registration_in_force:
  assumes "runs (sys_step (links ord conns) prog e l) (sys_start cfg l) ls S outs"
    and "default_stores cfg" "cfg_Interceptor cfg = None" "map_order (env_ord e)" and "s \<noteq> l"
    and "cw_reqs (sys_client S s) t = ReqDone i (Inr (MRegistered m))"
  shows "\<exists>procedure options ls1 ls2 S1 outs1. prog s t = AskRegister procedure options \<and> ls = ls1 @ ls2
    \<and> runs (sys_step (links ord conns) prog e l) (sys_start cfg l) ls1 S1 outs1
    \<and> dl_live (Realm_Dealer (w_realm (sys_world S1))) (Registered_Registration m) = Some (procedure, s)
    \<and> (dl_live (Realm_Dealer (w_realm (sys_world S))) (Registered_Registration m) = Some (procedure, s)
       \<or> (\<exists>lab. AtRealm lab \<in> set ls2 \<and> ends_registration (Registered_Registration m) s lab))"
proof -
  have sent: "(s, MRegistered m) \<in> set (concat outs)" using reply_sent(1) [OF assms(1,6)] by auto
  obtain ls1 rlab ls2 S1 outs1 S2 out outs2 where at: "ls = ls1 @ AtRealm rlab # ls2"
      "runs (sys_step (links ord conns) prog e l) (sys_start cfg l) ls1 S1 outs1" "sys_step (links ord conns) prog e l S1 (AtRealm rlab) S2 out"
      "realm_event e l (sys_world S1) rlab out (sys_world S2)" "(s, MRegistered m) \<in> set out" "system_good (sys_world S1)"
      "runs (sys_step (links ord conns) prog e l) S2 ls2 S outs2"
    using sent_at [OF assms(1-4) sent] .
  obtain draw rm where rm: "rlab = Received draw s (MRegister rm)" "Register_Request rm = Registered_Request m"
      "dl_live (Realm_Dealer (w_realm (sys_world S2))) (Registered_Registration m) = Some (Register_Procedure rm, s)"
    using event_grants(2) [OF at(4,6,5)] by blast
  have "links ord conns s (request_message (prog s t) i) = MRegister rm"
    by (rule wires.answered_request [OF assms(1,6) _ assms(5), where draw = draw]) (simp_all add: at(1) rm(1,2))
  then obtain options where asked: "prog s t = AskRegister (Register_Procedure rm) options" using wires.asked_for(2) by blast
  have "dl_live (Realm_Dealer (w_realm (sys_world S))) (Registered_Registration m) = Some (Register_Procedure rm, s)
      \<or> (\<exists>lab. AtRealm lab \<in> set ls2 \<and> ends_registration (Registered_Registration m) s lab)"
    by (rule registration_kept [OF at(7) assms(4) system_good_step [OF at(4) assms(4) at(6)] rm(3)])
  with rm(3) at(1) runs_snoc [OF at(2,3)] asked show ?thesis
    by (intro exI [of _ "Register_Procedure rm"] exI [of _ options] exI [of _ "ls1 @ [AtRealm rlab]"] exI [of _ ls2]
        exI [of _ S2] exI [of _ "outs1 @ [out]"]) simp
qed

theorem registration_in_force_witness:
  "\<exists>ls S outs. runs (sys_step demo_via demo_asks demo_env 0) (sys_start ticket_config 0) ls S outs
     \<and> (dl_live (Realm_Dealer (w_realm (sys_world S))) 7 = Some (''f'', 1)
        \<or> (\<exists>lab. AtRealm lab \<in> set ls \<and> ends_registration 7 1 lab))"
proof -
  obtain ls outs where r: "runs (sys_step demo_via demo_asks demo_env 0) (sys_start ticket_config 0) ls
      (demo_after (Suc 0) demo_reg) outs"
    using demo_reg_run by blast
  have "cw_reqs (sys_client (demo_after (Suc 0) demo_reg) 1) (Suc 0) =
      ReqDone 5 (Inr (MRegistered \<lparr>Registered_Request = 5, Registered_Registration = 7\<rparr>))"
    by (simp add: demo_reg_def del: One_nat_def)
  from registration_in_force [OF r default_ticket ticket_interceptor demo_env_simps(1) _ this] r show ?thesis
    by (simp del: One_nat_def) (metis Un_iff set_append)
qed

text \<open>
  C5. When a client's request returns a RESULT, under any interleaving and over any connections, the request was a call, and
  the result is what the connection makes of one whose arguments are those of a YIELD that the realm handled, and that some session
  sent and its connection carried there: a result is never made up and never that of a request of another kind.
\<close>

theorem result_was_yielded:
  assumes "runs (sys_step (links ord conns) prog e l) (sys_start cfg l) ls S outs"
    and "default_stores cfg" "cfg_Interceptor cfg = None" "map_order (env_ord e)" and "s \<noteq> l"
    and "cw_reqs (sys_client S s) t = ReqDone i (Inr (MResult m))"
  shows "\<exists>procedure options args kwargs draw callee y m0. prog s t = AskCall procedure options args kwargs
    \<and> AtRealm (Received draw callee (MYield y)) \<in> set ls
    \<and> (callee = l \<or> (\<exists>y0. Speaks callee (MYield y0) \<in> set ls \<and> links ord conns callee (MYield y0) = MYield y))
    \<and> Result_Arguments m0 = Yield_Arguments y \<and> Result_ArgumentsKw m0 = Yield_ArgumentsKw y
    \<and> links ord conns s (MResult m0) = MResult m"
proof -
  obtain r0 where r0: "(s, r0) \<in> set (concat outs)" "links ord conns s r0 = MResult m"
    using reply_sent(1) [OF assms(1,6)] by (elim exE conjE)
  obtain m0 where m0: "r0 = MResult m0" "Result_Request m0 = Result_Request m"
    using wires.via_Result [OF r0(2)] by (elim exE conjE)
  obtain ls1 rlab ls2 S1 outs1 S2 out outs2 where at: "ls = ls1 @ AtRealm rlab # ls2"
      "runs (sys_step (links ord conns) prog e l) (sys_start cfg l) ls1 S1 outs1"
      "sys_step (links ord conns) prog e l S1 (AtRealm rlab) S2 out"
      "realm_event e l (sys_world S1) rlab out (sys_world S2)" "(s, MResult m0) \<in> set out" "system_good (sys_world S1)"
      "runs (sys_step (links ord conns) prog e l) S2 ls2 S outs2"
    using sent_at [OF assms(1-4) r0(1) [unfolded m0(1)]] .
  obtain draw callee y where y: "rlab = Received draw callee (MYield y)" "Result_Arguments m0 = Yield_Arguments y"
      "Result_ArgumentsKw m0 = Yield_ArgumentsKw y"
      "fmlookup (calls (Realm_Dealer (w_realm (sys_world S1)))) (Result_Request m) = Some s"
    using event_result [OF at(4,6,5)] m0(2) by auto
  obtain draw' cm where cm: "AtRealm (Received draw' s (MCall cm)) \<in> set ls1" "Call_Request cm = Result_Request m"
    using recorded_calls [OF at(2) assms(2-4) y(4)] by blast
  have "links ord conns s (request_message (prog s t) i) = MCall cm"
    by (rule wires.answered_request [OF assms(1,6) _ assms(5), where draw = draw']) (use cm in \<open>simp_all add: at(1)\<close>)
  then obtain options args kwargs where "prog s t = AskCall (Call_Procedure cm) options args kwargs"
    using wires.asked_for(3) by blast
  moreover have heard: "AtRealm (Received draw callee (MYield y)) \<in> set ls" by (simp add: at(1) y(1))
  moreover have "callee = l \<or> (\<exists>y0. Speaks callee (MYield y0) \<in> set ls \<and> links ord conns callee (MYield y0) = MYield y)"
  proof (cases "callee = l")
    case False
    obtain msg where msg: "Speaks callee msg \<in> set ls" "links ord conns callee msg = MYield y"
      by (rule wires.heard_spoken [OF assms(1) heard False]) auto
    with wires.via_Yield [OF msg(2)] show ?thesis by auto
  qed simp
  ultimately show ?thesis using y(2,3) r0(2) [unfolded m0(1)] by (intro exI conjI)
qed

theorem result_was_yielded_witness:
  "\<exists>ls S outs draw callee y m0. runs (sys_step demo_via demo_asks demo_env 0) (sys_start ticket_config 0) ls S outs
     \<and> AtRealm (Received draw callee (MYield y)) \<in> set ls \<and> Result_Arguments m0 = Yield_Arguments y
     \<and> demo_via 1 (MResult m0) = MResult demo_result"
proof -
  obtain ls S outs where r: "runs (sys_step demo_via demo_asks demo_env 0) (sys_start ticket_config 0) ls S outs"
      "cw_reqs (sys_client S 1) 2 = ReqDone 6 (Inr (MResult demo_result))"
    using demo_call_run by blast
  have "(1 :: sess_ptr) \<noteq> 0" by simp
  from result_was_yielded [OF r(1) default_ticket ticket_interceptor demo_env_simps(1) this r(2)] r(1)
  show ?thesis by (elim exE conjE) (intro exI conjI)
qed

text \<open>
  C6. When a client receives an EVENT, under any interleaving and over any connections, the realm had handled a PUBLISH, sent by
  some session or by the realm's own client, at a moment when this client's session held a subscription, with the event's identifier,
  to the topic of the publication, and the session was not the publisher unless it had asked not to be excluded; and the event is what
  the connection makes of one with the arguments of that PUBLISH.
\<close>

theorem event_was_published:
  assumes "runs (sys_step (links ord conns) prog e l) (sys_start cfg l) ls S outs"
    and "default_stores cfg" "cfg_Interceptor cfg = None" "map_order (env_ord e)"
    and "AtClient s (CReceives (MEvent ev)) \<in> set ls"
  shows "\<exists>ls1 draw p pm ls2 S1 outs1 ev0. ls = ls1 @ AtRealm (Received draw p (MPublish pm)) # ls2
    \<and> runs (sys_step (links ord conns) prog e l) (sys_start cfg l) ls1 S1 outs1
    \<and> br_live (Realm_Broker (w_realm (sys_world S1))) (Event_Subscription ev) = Some (Publish_Topic pm, s)
    \<and> \<not> (s = p \<and> exclude_publisher pm)
    \<and> (p = l \<or> (\<exists>pm0. Speaks p (MPublish pm0) \<in> set ls \<and> links ord conns p (MPublish pm0) = MPublish pm))
    \<and> Event_Arguments ev0 = Publish_Arguments pm \<and> Event_ArgumentsKw ev0 = Publish_ArgumentsKw pm
    \<and> links ord conns s (MEvent ev0) = MEvent ev"
proof -
  obtain r0 where r0: "(s, r0) \<in> set (concat outs)" "links ord conns s r0 = MEvent ev"
    by (rule received_sent [OF assms(1,5)])
  obtain ev0 where ev0: "r0 = MEvent ev0" "Event_Subscription ev0 = Event_Subscription ev"
    using wires.via_Event [OF r0(2)] by (elim exE conjE)
  obtain ls1 rlab ls2 S1 outs1 S2 out outs2 where at: "ls = ls1 @ AtRealm rlab # ls2"
      "runs (sys_step (links ord conns) prog e l) (sys_start cfg l) ls1 S1 outs1"
      "sys_step (links ord conns) prog e l S1 (AtRealm rlab) S2 out"
      "realm_event e l (sys_world S1) rlab out (sys_world S2)" "(s, MEvent ev0) \<in> set out" "system_good (sys_world S1)"
      "runs (sys_step (links ord conns) prog e l) S2 ls2 S outs2"
    using sent_at [OF assms(1-4) r0(1) [unfolded ev0(1)]] .
  obtain draw p pm where pm: "rlab = Received draw p (MPublish pm)"
      "br_live (Realm_Broker (w_realm (sys_world S1))) (Event_Subscription ev0) = Some (Publish_Topic pm, s)"
      "\<not> (s = p \<and> exclude_publisher pm)"
      "Event_Arguments ev0 = Publish_Arguments pm" "Event_ArgumentsKw ev0 = Publish_ArgumentsKw pm"
    using event_event [OF at(4,6) assms(4) at(5)] by blast
  have heard: "AtRealm (Received draw p (MPublish pm)) \<in> set ls" by (simp add: at(1) pm(1))
  have "p = l \<or> (\<exists>pm0. Speaks p (MPublish pm0) \<in> set ls \<and> links ord conns p (MPublish pm0) = MPublish pm)"
  proof (cases "p = l")
    case False
    obtain msg where msg: "Speaks p msg \<in> set ls" "links ord conns p msg = MPublish pm"
      by (rule wires.heard_spoken [OF assms(1) heard False]) auto
    with wires.via_Publish [OF msg(2)] show ?thesis by auto
  qed simp
  from at(1) [unfolded pm(1)] at(2) pm(2) [unfolded ev0(2)] pm(3) this pm(4,5) r0(2) [unfolded ev0(1)]
  show ?thesis by (intro exI conjI)
qed

theorem event_was_published_witness:
  "\<exists>ls S outs ls1 draw p pm ls2 ev0. runs (sys_step demo_via demo_asks demo_env 0) (sys_start ticket_config 0) ls S outs
     \<and> ls = ls1 @ AtRealm (Received draw p (MPublish pm)) # ls2 \<and> Event_Arguments ev0 = Publish_Arguments pm
     \<and> demo_via 1 (MEvent ev0) = MEvent demo_event"
proof -
  obtain ls S outs where r: "runs (sys_step demo_via demo_asks demo_env 0) (sys_start ticket_config 0) ls S outs"
      "AtClient 1 (CReceives (MEvent demo_event)) \<in> set ls"
    using demo_event_run by blast
  from event_was_published [OF r(1) default_ticket ticket_interceptor demo_env_simps(1) r(2)] r(1)
  show ?thesis by (elim exE conjE) (intro exI conjI)
qed

text \<open>
  C19. A request can always be served: with the client's connection open, a fresh identifier and nothing under way,
  whenever the realm answers the message of the request with one reply that carries its identifier, there is a run of client, queues and realm
  in which the request returns just that reply, as the connection carries it, and nothing is left under way.
\<close>

theorem request_served:
  assumes "cw_acts (sys_client S s) = ActsOpen" "cw_reqs (sys_client S s) t = ReqNew"
    "never_used (sys_client S s) (NewID draw)" and "s \<noteq> l" "sys_up S s = []" "sys_down S s = []"
    and "realm_event e l (sys_world S) (Received d s (links ord conns s (request_message (prog s t) (NewID draw)))) out w'"
    and "sent_to s out = [r]" "reply_to r = Some (NewID draw)"
  shows "\<exists>ls S' outs. runs (sys_step (links ord conns) prog e l) S ls S' outs \<and> sys_world S' = w' \<and> concat outs = out
    \<and> cw_reqs (sys_client S' s) t = ReqDone (NewID draw) (Inr (links ord conns s r)) \<and> sys_up S' s = [] \<and> sys_down S' s = []"
proof -
  have "reply_to (links ord conns s r) = Some (NewID draw)" using assms(9) by simp
  from request_run [where prog = prog and via = "links ord conns", OF assms(1-8) this] show ?thesis
    by (intro exI conjI) (assumption, simp_all add: client_moved_def asked_def returned_def assms(5))
qed

theorem request_served_witness:
  "\<exists>ls S' outs. runs (sys_step demo_via demo_asks demo_env 0) demo_joined ls S' outs
     \<and> cw_reqs (sys_client S' 1) 0 = ReqDone 5 (Inr (fst demo_sub))"
proof -
  have answered: "realm_event demo_env 0 (sys_world demo_joined) (Received 7 1 (demo_via 1 (request_message (demo_asks 1 0) (NewID 5))))
      [(1, fst demo_sub)] (demo_world1\<lparr>w_realm := snd demo_sub\<rparr>)"
    using demo_sub_event by (simp only: demo_carried demo_joined_sel NewID_small)
  have replies: "sent_to 1 [(1, fst demo_sub)] = [fst demo_sub]" "reply_to (fst demo_sub) = Some (NewID 5)"
    by (simp_all add: sent_to_def) (simp add: demo_sub_def)
  have "\<exists>ls S' outs. runs (sys_step demo_via demo_asks demo_env 0) demo_joined ls S' outs
      \<and> sys_world S' = demo_world1\<lparr>w_realm := snd demo_sub\<rparr> \<and> concat outs = [(1, fst demo_sub)]
      \<and> cw_reqs (sys_client S' 1) 0 = ReqDone (NewID 5) (Inr (demo_via 1 (fst demo_sub)))
      \<and> sys_up S' 1 = [] \<and> sys_down S' 1 = []"
    by (rule request_served [where prog = demo_asks and l = 0, OF _ _ _ _ _ _ answered replies]) (simp_all del: One_nat_def)
  then show ?thesis by (simp del: One_nat_def) blast
qed

end
