(* ===== verification/Wired.thy ===== *)
theory Wired
  imports System
begin

text \<open>
  The system of \<open>System\<close> with what is really under way: frames of bytes between websocket peers, messages
  in local pipes.  A sender serializes with the serializer of its connection, and the reading loop at the other end
  deserializes.  As long as the messages are ones their formats can carry, this system and the one whose queues hold
  messages have the same runs.
\<close>

section \<open>Frames\<close>

datatype 'b frame = InPipe message | OnWire 'b

definition encode :: "'b codecs \<Rightarrow> connection \<Rightarrow> message \<Rightarrow> go_error + 'b frame" where
  "encode c conn m =
     (case conn of
        Pipe \<Rightarrow> Inr (InPipe m)
      | Socket ser \<Rightarrow> (case serialize_with c ser m of Inl err \<Rightarrow> Inl err | Inr b \<Rightarrow> Inr (OnWire b)))"

text \<open>A frame is read by the kind of peer that wrote it; the other two cases do not occur.\<close>

fun decode :: "platform \<Rightarrow> 'b codecs \<Rightarrow> connection \<Rightarrow> 'b frame \<Rightarrow> message go_result" where
  "decode p c Pipe (InPipe m) = Ok m"
| "decode p c (Socket ser) (OnWire b) = deserialize_with p c ser b"
| "decode p c _ _ = Err []"

text \<open>The frames of the messages that are sent without error; the error of the others is only logged.\<close>

fun frames :: "'b codecs \<Rightarrow> connection \<Rightarrow> message list \<Rightarrow> 'b frame list" where
  "frames c conn [] = []"
| "frames c conn (m # ms) = (case encode c conn m of Inl err \<Rightarrow> frames c conn ms | Inr f \<Rightarrow> f # frames c conn ms)"

section \<open>The system\<close>

record 'b wired =
  wd_world :: world
  wd_client :: "sess_ptr \<Rightarrow> client_world"
  wd_up :: "sess_ptr \<Rightarrow> 'b frame list"
  wd_down :: "sess_ptr \<Rightarrow> 'b frame list"

datatype wired_label = Does system_label | DropsUp sess_ptr | DropsDown sess_ptr

definition put_down ::
  "'b codecs \<Rightarrow> (sess_ptr \<Rightarrow> connection) \<Rightarrow> sends \<Rightarrow> 'b wired \<Rightarrow> 'b wired" where
  "put_down c conns out S = S\<lparr>wd_down := (\<lambda>s. wd_down S s @ frames c (conns s) (sent_to s out))\<rparr>"

definition put_up :: "sess_ptr \<Rightarrow> 'b frame \<Rightarrow> 'b wired \<Rightarrow> 'b wired" where
  "put_up s f S = S\<lparr>wd_up := (wd_up S)(s := wd_up S s @ [f])\<rparr>"

definition set_wired_client :: "sess_ptr \<Rightarrow> client_world \<Rightarrow> 'b wired \<Rightarrow> 'b wired" where
  "set_wired_client s w S = S\<lparr>wd_client := (wd_client S)(s := w)\<rparr>"

text \<open>
  A request is sent when its serializer accepts its message; the other requests end at once, with the serializer's error.
  A frame that cannot be read is logged and dropped by the reading loop.  One on which the deserializer panics ends
  the process: there is no step.
\<close>

inductive wired_step ::
  "platform \<Rightarrow> 'b codecs \<Rightarrow> (sess_ptr \<Rightarrow> connection) \<Rightarrow> program \<Rightarrow> env \<Rightarrow> sess_ptr \<Rightarrow>
   'b wired \<Rightarrow> wired_label \<Rightarrow> 'b wired \<Rightarrow> sends \<Rightarrow> bool"
  for p :: platform and c :: "'b codecs" and conns :: "sess_ptr \<Rightarrow> connection" and prog :: program
    and e :: env and l :: sess_ptr where
  wired_realm_reads: "realm_event e l (wd_world S) (Received draw s msg) out w' \<Longrightarrow> s \<noteq> l \<Longrightarrow>
    wd_up S s = f # rest \<Longrightarrow> decode p c (conns s) f = Ok msg \<Longrightarrow>
    wired_step p c conns prog e l S (Does (AtRealm (Received draw s msg)))
      (put_down c conns out (S\<lparr>wd_world := w', wd_up := (wd_up S)(s := rest)\<rparr>)) out"
| wired_realm_works: "realm_event e l (wd_world S) lab out w' \<Longrightarrow> (\<forall>draw s msg. lab = Received draw s msg \<longrightarrow> s = l) \<Longrightarrow>
    wired_step p c conns prog e l S (Does (AtRealm lab)) (put_down c conns out (S\<lparr>wd_world := w'\<rparr>)) out"
| wired_client_sends: "client_event never_used (wd_client S s) (SendsRequest t i) w u \<Longrightarrow>
    encode c (conns s) (request_message (prog s t) i) = Inr f \<Longrightarrow>
    wired_step p c conns prog e l S (Does (AtClient s (SendsRequest t i))) (put_up s f (set_wired_client s w S)) []"
| wired_client_reads: "client_event never_used (wd_client S s) (CReceives msg) w u \<Longrightarrow> wd_down S s = f # rest \<Longrightarrow>
    decode p c (conns s) f = Ok msg \<Longrightarrow>
    wired_step p c conns prog e l S (Does (AtClient s (CReceives msg)))
      (set_wired_client s w S\<lparr>wd_down := (wd_down S)(s := rest)\<rparr>) []"
| wired_client_works: "client_event never_used (wd_client S s) CInternal w u \<Longrightarrow>
    wired_step p c conns prog e l S (Does (AtClient s CInternal)) (set_wired_client s w S) []"
| wired_speaks: "is_speech msg \<Longrightarrow> encode c (conns s) msg = Inr f \<Longrightarrow>
    wired_step p c conns prog e l S (Does (Speaks s msg)) (put_up s f S) []"
| wired_drops_up: "wd_up S s = f # rest \<Longrightarrow> decode p c (conns s) f = Err err \<Longrightarrow>
    wired_step p c conns prog e l S (DropsUp s) (S\<lparr>wd_up := (wd_up S)(s := rest)\<rparr>) []"
| wired_drops_down: "wd_down S s = f # rest \<Longrightarrow> decode p c (conns s) f = Err err \<Longrightarrow>
    wired_step p c conns prog e l S (DropsDown s) (S\<lparr>wd_down := (wd_down S)(s := rest)\<rparr>) []"

inductive_cases wired_doesE: "wired_step p c conns prog e l S (Does lab) S' out"
inductive_cases wired_dropsE: "wired_step p c conns prog e l S (DropsUp s) S' out"
  "wired_step p c conns prog e l S (DropsDown s) S' out"

definition wired_start :: "RealmConfig \<Rightarrow> sess_ptr \<Rightarrow> 'b wired" where
  "wired_start cfg l = \<lparr>wd_world = init_world cfg l, wd_client = (\<lambda>_. client_start), wd_up = (\<lambda>_. []),
     wd_down = (\<lambda>_. [])\<rparr>"

lemmas wired_defs = put_down_def put_up_def set_wired_client_def

section \<open>What arrives\<close>

text \<open>A message that its connection can carry: its serializer accepts it, and the format keeps what a message needs.\<close>

definition can_pass :: "'b codecs \<Rightarrow> connection \<Rightarrow> message \<Rightarrow> bool" where
  "can_pass c conn m =
     (case conn of Pipe \<Rightarrow> True | Socket ser \<Rightarrow> can_carry ser m \<and> (case serialize_with c ser m of Inl _ \<Rightarrow> False | Inr _ \<Rightarrow> True))"

definition fits :: "'b codecs \<Rightarrow> (sess_ptr \<Rightarrow> connection) \<Rightarrow> program \<Rightarrow> system_label \<Rightarrow> sends \<Rightarrow> bool" where
  "fits c conns prog lab out \<longleftrightarrow> (\<forall>(s, m) \<in> set out. can_pass c (conns s) m)
     \<and> (case lab of
          AtClient s (SendsRequest t i) \<Rightarrow> can_pass c (conns s) (request_message (prog s t) i)
        | Speaks s m \<Rightarrow> can_pass c (conns s) m
        | _ \<Rightarrow> True)"

lemma fitsD:
  assumes "fits c conns prog lab out"
  shows "m \<in> set (sent_to s out) \<Longrightarrow> can_pass c (conns s) m"
    and "lab = AtClient s (SendsRequest t i) \<Longrightarrow> can_pass c (conns s) (request_message (prog s t) i)"
    and "lab = Speaks s m \<Longrightarrow> can_pass c (conns s) m"
  using assms by (auto simp: fits_def sent_to_def)

fun arrivals :: "platform \<Rightarrow> 'b codecs \<Rightarrow> connection \<Rightarrow> 'b frame list \<Rightarrow> message list" where
  "arrivals p c conn [] = []"
| "arrivals p c conn (f # fs) = (case decode p c conn f of Ok m \<Rightarrow> m # arrivals p c conn fs | _ \<Rightarrow> arrivals p c conn fs)"

definition readable :: "platform \<Rightarrow> 'b codecs \<Rightarrow> connection \<Rightarrow> 'b frame list \<Rightarrow> bool" where
  "readable p c conn fs \<longleftrightarrow> list_all (\<lambda>f. case decode p c conn f of Ok _ \<Rightarrow> True | _ \<Rightarrow> False) fs"

lemma arrivals_append: "arrivals p c conn (fs @ gs) = arrivals p c conn fs @ arrivals p c conn gs"
  by (induction fs) (auto split: go_result.splits)

lemma readable_simps [simp]:
  "readable p c conn []" "readable p c conn (fs @ gs) \<longleftrightarrow> readable p c conn fs \<and> readable p c conn gs"
  "readable p c conn (f # fs) \<longleftrightarrow> (\<exists>m. decode p c conn f = Ok m) \<and> readable p c conn fs"
  by (auto simp: readable_def split: go_result.splits)

text \<open>The first message of a readable queue is the first frame.\<close>

lemma arrivals_Cons:
  "readable p c conn fs \<Longrightarrow> arrivals p c conn fs = m # ms \<Longrightarrow>
   \<exists>f rest. fs = f # rest \<and> decode p c conn f = Ok m \<and> arrivals p c conn rest = ms"
  by (cases fs) auto

lemma passed:
  assumes "codecs_faithful ord c" and "can_pass c conn m"
  obtains f where "encode c conn m = Inr f" "decode p c conn f = Ok (carried_as ord conn m)"
proof (cases conn)
  case Pipe
  then show ?thesis by (intro that [of "InPipe m"]) (simp_all add: encode_def)
next
  case (Socket ser)
  with assms(2) obtain b where b: "serialize_with c ser m = Inr b" "can_carry ser m"
    by (auto simp: can_pass_def split: sum.splits)
  with Socket carried [OF assms(1) b(2,1)] show ?thesis
    by (intro that [of "OnWire b"]) (simp_all add: encode_def)
qed

lemma frames_arrive:
  assumes "codecs_faithful ord c" and "\<And>m. m \<in> set ms \<Longrightarrow> can_pass c conn m"
  shows "arrivals p c conn (frames c conn ms) = map (carried_as ord conn) ms \<and> readable p c conn (frames c conn ms)"
  using assms(2)
proof (induction ms)
  case (Cons m ms)
  obtain f where "encode c conn m = Inr f" "decode p c conn f = Ok (carried_as ord conn m)"
    using passed [OF assms(1)] Cons.prems by (metis list.set_intros(1))
  with Cons show ?case by simp
qed simp

text \<open>The system of messages behind the one of frames.\<close>

definition wired_abs :: "platform \<Rightarrow> 'b codecs \<Rightarrow> (sess_ptr \<Rightarrow> connection) \<Rightarrow> 'b wired \<Rightarrow> system" where
  "wired_abs p c conns S = \<lparr>sys_world = wd_world S, sys_client = wd_client S,
     sys_up = (\<lambda>s. arrivals p c (conns s) (wd_up S s)), sys_down = (\<lambda>s. arrivals p c (conns s) (wd_down S s))\<rparr>"

definition wired_ok :: "platform \<Rightarrow> 'b codecs \<Rightarrow> (sess_ptr \<Rightarrow> connection) \<Rightarrow> 'b wired \<Rightarrow> bool" where
  "wired_ok p c conns S \<longleftrightarrow> (\<forall>s. readable p c (conns s) (wd_up S s) \<and> readable p c (conns s) (wd_down S s))"

lemma wired_okD:
  "wired_ok p c conns S \<Longrightarrow> readable p c (conns s) (wd_up S s)"
  "wired_ok p c conns S \<Longrightarrow> readable p c (conns s) (wd_down S s)"
  by (simp_all add: wired_ok_def)

lemma wired_abs_sel [simp]:
  "sys_world (wired_abs p c conns S) = wd_world S" "sys_client (wired_abs p c conns S) = wd_client S"
  "sys_up (wired_abs p c conns S) s = arrivals p c (conns s) (wd_up S s)"
  "sys_down (wired_abs p c conns S) s = arrivals p c (conns s) (wd_down S s)"
  by (simp_all add: wired_abs_def)

text \<open>The effects of the steps on the queues, seen from the system of messages.\<close>

lemma put_down_abs:
  assumes "codecs_faithful ord c" and "fits c conns prog lab out"
  shows "wired_abs p c conns (put_down c conns out S) = (wired_abs p c conns S)
      \<lparr>sys_down := deliver (links ord conns) out (sys_down (wired_abs p c conns S))\<rparr>"
    and "wired_ok p c conns S \<Longrightarrow> wired_ok p c conns (put_down c conns out S)"
proof -
  have arrive: "arrivals p c (conns s) (frames c (conns s) (sent_to s out)) = map (links ord conns s) (sent_to s out)"
    "readable p c (conns s) (frames c (conns s) (sent_to s out))" for s
    using frames_arrive [OF assms(1), of "sent_to s out" "conns s" p] fitsD(1) [OF assms(2)]
    by (auto simp: links_def)
  show "wired_abs p c conns (put_down c conns out S) = (wired_abs p c conns S)
      \<lparr>sys_down := deliver (links ord conns) out (sys_down (wired_abs p c conns S))\<rparr>"
    by (rule system.equality) (simp_all add: fun_eq_iff put_down_def deliver_def arrivals_append arrive)
  show "wired_ok p c conns (put_down c conns out S)" if "wired_ok p c conns S"
    using that arrive(2) by (simp add: wired_ok_def put_down_def)
qed

lemma put_up_abs:
  assumes "decode p c (conns s) f = Ok m"
  shows "wired_abs p c conns (put_up s f S) = send_up s m (wired_abs p c conns S)"
    and "wired_ok p c conns S \<Longrightarrow> wired_ok p c conns (put_up s f S)"
proof -
  show "wired_abs p c conns (put_up s f S) = send_up s m (wired_abs p c conns S)"
    by (rule system.equality) (simp_all add: fun_eq_iff put_up_def send_up_def arrivals_append assms)
  show "wired_ok p c conns (put_up s f S)" if "wired_ok p c conns S"
    using that assms by (auto simp: wired_ok_def put_up_def)
qed

lemma client_abs:
  "wired_abs p c conns (set_wired_client s w S) = set_client_of s w (wired_abs p c conns S)"
  "wired_ok p c conns (set_wired_client s w S) = wired_ok p c conns S"
  by (auto simp: set_wired_client_def set_client_of_def wired_ok_def intro!: system.equality)

lemma take_abs:
  "wired_abs p c conns (S\<lparr>wd_world := w, wd_up := (wd_up S)(s := rest)\<rparr>) =
     (wired_abs p c conns S)\<lparr>sys_world := w, sys_up := (sys_up (wired_abs p c conns S))(s := arrivals p c (conns s) rest)\<rparr>"
  "wired_abs p c conns (S\<lparr>wd_world := w\<rparr>) = (wired_abs p c conns S)\<lparr>sys_world := w\<rparr>"
  "wired_abs p c conns (S\<lparr>wd_down := (wd_down S)(s := rest)\<rparr>) =
     (wired_abs p c conns S)\<lparr>sys_down := (sys_down (wired_abs p c conns S))(s := arrivals p c (conns s) rest)\<rparr>"
  by (rule system.equality; auto simp: fun_eq_iff)+

lemma client_take_abs:
  "wired_abs p c conns (set_wired_client s w S\<lparr>wd_down := (wd_down S)(s := rest)\<rparr>) = set_client_of s w
     (wired_abs p c conns S)\<lparr>sys_down := (sys_down (wired_abs p c conns S))(s := arrivals p c (conns s) rest)\<rparr>"
  by (rule system.equality; auto simp: fun_eq_iff set_wired_client_def set_client_of_def)

lemma take_ok:
  assumes "wired_ok p c conns S"
  shows "wd_up S s = f # rest \<Longrightarrow> wired_ok p c conns (S\<lparr>wd_world := w, wd_up := (wd_up S)(s := rest)\<rparr>)"
    and "wired_ok p c conns (S\<lparr>wd_world := w\<rparr>)"
    and "wd_down S s = f # rest \<Longrightarrow> wired_ok p c conns (S\<lparr>wd_down := (wd_down S)(s := rest)\<rparr>)"
  using wired_okD [OF assms, of s] assms by (auto simp: wired_ok_def)

lemma wired_start_abs:
  "wired_abs p c conns (wired_start cfg l) = sys_start cfg l" "wired_ok p c conns (wired_start cfg l)"
  by (auto simp: wired_start_def sys_start_def wired_ok_def intro!: system.equality)

section \<open>One step\<close>

text \<open>The steps in which every message that is sent is one its connection carries.\<close>

definition carried_step ::
  "(string fset \<Rightarrow> string list) \<Rightarrow> platform \<Rightarrow> 'b codecs \<Rightarrow> (sess_ptr \<Rightarrow> connection) \<Rightarrow> program \<Rightarrow> env \<Rightarrow> sess_ptr \<Rightarrow>
   'b wired \<Rightarrow> system_label \<Rightarrow> 'b wired \<Rightarrow> sends \<Rightarrow> bool" where
  "carried_step ord p c conns prog e l S lab S' out \<longleftrightarrow>
     codecs_faithful ord c \<and> fits c conns prog lab out \<and> wired_step p c conns prog e l S (Does lab) S' out"

lemma carried_step_abs:
  assumes "wired_ok p c conns S" and "carried_step ord p c conns prog e l S lab S' out"
  shows "sys_step (links ord conns) prog e l (wired_abs p c conns S) lab (wired_abs p c conns S') out"
    and "wired_ok p c conns S'"
proof -
  have cf: "codecs_faithful ord c" and fit: "fits c conns prog lab out"
    and step: "wired_step p c conns prog e l S (Does lab) S' out"
    using assms(2) by (simp_all add: carried_step_def)
  note down = put_down_abs [OF cf fit]
  have sent: "decode p c (conns s) f = Ok (links ord conns s m)" if "can_pass c (conns s) m" "encode c (conns s) m = Inr f" for s m f
    using passed [OF cf that(1), of p] that(2) by (auto simp: links_def)
  let ?A = "wired_abs p c conns S"
  from step show "sys_step (links ord conns) prog e l ?A lab (wired_abs p c conns S') out"
  proof cases
    case (wired_realm_reads draw s msg w' f rest)
    then show ?thesis
      using sys_step.realm_reads [of e l ?A draw s msg out w' "arrivals p c (conns s) rest" "links ord conns" prog]
      by (simp add: down take_abs)
  next
    case (wired_realm_works lab' w')
    then show ?thesis
      using sys_step.realm_works [of e l ?A lab' out w' "links ord conns" prog] by (simp add: down take_abs)
  next
    case (wired_client_sends s t i w u f)
    with sent [OF fitsD(2) [OF fit wired_client_sends(1)]] show ?thesis
      using sys_step.client_sends [of ?A s t i w u "links ord conns" prog e l]
      by (simp add: put_up_abs client_abs)
  next
    case (wired_client_reads s msg w u f rest)
    then show ?thesis
      using sys_step.client_reads [of ?A s msg w u "arrivals p c (conns s) rest" "links ord conns" prog e l]
      by (simp add: client_take_abs)
  next
    case (wired_client_works s w u)
    then show ?thesis
      using sys_step.client_works [of ?A s w u "links ord conns" prog e l] by (simp add: client_abs)
  next
    case (wired_speaks msg s f)
    with sent [OF fitsD(3) [OF fit wired_speaks(1)]] show ?thesis
      using sys_step.speaks [of msg "links ord conns" prog e l ?A s] by (simp add: put_up_abs)
  qed
  from step show "wired_ok p c conns S'"
  proof cases
    case (wired_client_sends s t i w u f)
    with sent [OF fitsD(2) [OF fit wired_client_sends(1)]] show ?thesis
      using assms(1) by (simp add: put_up_abs client_abs)
  next
    case (wired_client_reads s msg w u f rest)
    then show ?thesis using take_ok(3) [OF assms(1)] client_abs(2) by (simp add: set_wired_client_def wired_ok_def)
  next
    case (wired_speaks msg s f)
    with sent [OF fitsD(3) [OF fit wired_speaks(1)]] show ?thesis using assms(1) by (simp add: put_up_abs)
  qed (use assms(1) in \<open>simp_all add: down take_ok client_abs\<close>)
qed

text \<open>And every step of the system of messages is one of frames.\<close>

lemma sys_step_carried:
  assumes ok: "wired_ok p c conns S" and cf: "codecs_faithful ord c" and fit: "fits c conns prog lab out"
    and step: "sys_step (links ord conns) prog e l (wired_abs p c conns S) lab A' out"
  shows "\<exists>S'. carried_step ord p c conns prog e l S lab S' out \<and> wired_abs p c conns S' = A'"
proof -
  note down = put_down_abs [OF cf fit]
  have sent: "\<exists>f. encode c (conns s) m = Inr f \<and> decode p c (conns s) f = Ok (links ord conns s m)"
    if "can_pass c (conns s) m" for s m
    using passed [OF cf that, of p] by (auto simp: links_def)
  have "\<exists>S'. wired_step p c conns prog e l S (Does lab) S' out \<and> wired_abs p c conns S' = A'"
    using step
  proof cases
    case (realm_reads draw s msg w' rest)
    obtain f fs where f: "wd_up S s = f # fs" "decode p c (conns s) f = Ok msg" "arrivals p c (conns s) fs = rest"
      using arrivals_Cons [OF wired_okD(1) [OF ok], of s msg rest] realm_reads(5) by auto
    from wired_step.wired_realm_reads [of e l S draw s msg out w' f fs p c conns prog] f realm_reads show ?thesis
      by (intro exI conjI) (auto simp: down take_abs)
  next
    case (realm_works lab' w')
    from wired_step.wired_realm_works [of e l S lab' out w' p c conns prog] realm_works show ?thesis
      by (intro exI conjI) (auto simp: down take_abs)
  next
    case (client_sends s t i w u)
    obtain f where f: "encode c (conns s) (request_message (prog s t) i) = Inr f"
        "decode p c (conns s) f = Ok (links ord conns s (request_message (prog s t) i))"
      using sent [OF fitsD(2) [OF fit client_sends(1)]] by blast
    from wired_step.wired_client_sends [of S s t i w u c conns prog f p e l] f client_sends show ?thesis
      by (intro exI conjI) (auto simp: put_up_abs client_abs)
  next
    case (client_reads s msg w u rest)
    obtain f fs where f: "wd_down S s = f # fs" "decode p c (conns s) f = Ok msg" "arrivals p c (conns s) fs = rest"
      using arrivals_Cons [OF wired_okD(2) [OF ok], of s msg rest] client_reads(5) by auto
    from wired_step.wired_client_reads [of S s msg w u f fs p c conns prog e l] f client_reads show ?thesis
      by (intro exI conjI) (auto simp: client_take_abs)
  next
    case (client_works s w u)
    from wired_step.wired_client_works [of S s w u p c conns prog e l] client_works show ?thesis
      by (intro exI conjI) (auto simp: client_abs)
  next
    case (speaks msg s)
    obtain f where f: "encode c (conns s) msg = Inr f" "decode p c (conns s) f = Ok (links ord conns s msg)"
      using sent [OF fitsD(3) [OF fit speaks(1)]] by blast
    from wired_step.wired_speaks [of msg c conns s f p prog e l S] f speaks show ?thesis
      by (intro exI conjI) (auto simp: put_up_abs)
  qed
  with cf fit show ?thesis by (auto simp: carried_step_def)
qed

section \<open>Runs\<close>

interpretation wired_sim: simulation "wired_ok p c conns" "wired_abs p c conns" "carried_step ord p c conns prog e l"
    "sys_step (links ord conns) prog e l" for ord p c conns prog e l
  by unfold_locales (blast intro: carried_step_abs)+

lemma carried_runs:
  assumes "codecs_faithful ord c" and "list_all2 (fits c conns prog) ls outs"
  shows "runs (carried_step ord p c conns prog e l) S ls S' outs \<longleftrightarrow>
    runs (wired_step p c conns prog e l) S (map Does ls) S' outs"
  using assms(2)
proof (induction arbitrary: S rule: list_all2_induct)
  case Nil
  show ?case by (auto intro: runs.stop elim: runs_NilE)
next
  case (Cons lab ls out outs)
  then show ?case
    by (auto simp: carried_step_def assms(1) intro: runs.go elim!: runs_ConsE)
qed

lemma sys_runs_carried:
  assumes "runs (sys_step (links ord conns) prog e l) A ls A' outs"
    and "wired_ok p c conns S" "wired_abs p c conns S = A" "codecs_faithful ord c" "list_all2 (fits c conns prog) ls outs"
  shows "\<exists>S'. runs (carried_step ord p c conns prog e l) S ls S' outs \<and> wired_abs p c conns S' = A'"
  using assms(1-3,5)
proof (induction arbitrary: S rule: runs.induct)
  case (stop A)
  then show ?case by (intro exI [of _ S]) (simp add: runs.stop)
next
  case (go A lab A1 out ls A2 outs)
  from go.prems have fit: "fits c conns prog lab out" "list_all2 (fits c conns prog) ls outs" by simp_all
  obtain S1 where S1: "carried_step ord p c conns prog e l S lab S1 out" "wired_abs p c conns S1 = A1"
    using sys_step_carried [OF go.prems(1) assms(4) fit(1)] go.hyps(1) go.prems(2) by blast
  obtain S2 where "runs (carried_step ord p c conns prog e l) S1 ls S2 outs" "wired_abs p c conns S2 = A2"
    using go.IH [OF carried_step_abs(2) [OF go.prems(1) S1(1)] S1(2) fit(2)] by blast
  with runs.go [where step = "carried_step ord p c conns prog e l", OF S1(1)] show ?case by blast
qed

text \<open>
  C10. What travels as bytes behaves as what is meant.  While every message that is sent is one that its connection can carry (its
  serializer accepts it, its identifiers are below 2 to the 53rd where JSON is spoken), and while the codecs of the two libraries
  read back what they write, the runs of the system whose queues hold frames, serialized by the sender and
  deserialized by the reading loop, are exactly the runs of the system whose queues hold the messages as their formats
  represent them, with the same steps, the same messages sent and the same states of realm and clients; and no reading loop
  ever drops a frame.
\<close>

theorem wired_equivalent:
  assumes "codecs_faithful ord c" and "list_all2 (fits c conns prog) ls outs"
  shows "(runs (sys_step (links ord conns) prog e l) (sys_start cfg l) ls A outs \<longleftrightarrow>
      (\<exists>S. runs (wired_step p c conns prog e l) (wired_start cfg l) (map Does ls) S outs \<and> wired_abs p c conns S = A))
    \<and> (\<forall>S s S' out. runs (wired_step p c conns prog e l) (wired_start cfg l) (map Does ls) S outs \<longrightarrow>
      \<not> wired_step p c conns prog e l S (DropsUp s) S' out \<and> \<not> wired_step p c conns prog e l S (DropsDown s) S' out)"
proof (intro conjI allI impI)
  note carried = carried_runs [OF assms, of p e l]
  show "runs (sys_step (links ord conns) prog e l) (sys_start cfg l) ls A outs \<longleftrightarrow>
      (\<exists>S. runs (wired_step p c conns prog e l) (wired_start cfg l) (map Does ls) S outs \<and> wired_abs p c conns S = A)"
    using sys_runs_carried [where p = p, OF _ wired_start_abs(2,1) assms] carried
      wired_sim.sim_runs [OF _ wired_start_abs(2)] wired_start_abs(1) by metis
  fix S s S' out
  assume "runs (wired_step p c conns prog e l) (wired_start cfg l) (map Does ls) S outs"
  with carried have "wired_ok p c conns S" using wired_sim.inv_runs [OF _ wired_start_abs(2)] by blast
  note ok = wired_okD [OF this, of s]
  show "\<not> wired_step p c conns prog e l S (DropsUp s) S' out" using ok(1) by (auto elim: wired_dropsE)
  show "\<not> wired_step p c conns prog e l S (DropsDown s) S' out" using ok(2) by (auto elim: wired_dropsE)
qed

text \<open>For the witness, a publication with an argument, on its way over JSON.\<close>

definition wired_publish :: Publish where
  "wired_publish = \<lparr>Publish_Request = 5, Publish_Options = None, Publish_Topic = ''a'', Publish_Arguments = Some [VInt 3],
     Publish_ArgumentsKw = None\<rparr>"

lemma wired_publish_passes: "can_pass demo_codecs (Socket JSONSerializer) (MPublish wired_publish)"
  by (simp add: can_pass_def wired_publish_def demo_codecs_def JSON_Serialize_def toList_def mtypes ascii_def)

theorem wired_equivalent_witness:
  "\<forall>prog e cfg. \<exists>S. runs (wired_step demo_platform demo_codecs (\<lambda>_. Socket JSONSerializer) prog e 0) (wired_start cfg 0)
       [Does (Speaks 1 (MPublish wired_publish))] S [[]]
     \<and> arrivals demo_platform demo_codecs (Socket JSONSerializer) (wd_up S 1) = [json_via (MPublish wired_publish)]"
proof (intro allI)
  fix prog e cfg
  let ?via = "links sorted_list_of_fset (\<lambda>_. Socket JSONSerializer)"
  let ?A = "send_up 1 (?via 1 (MPublish wired_publish)) (sys_start cfg 0)"
  have codecs: "codecs_faithful sorted_list_of_fset demo_codecs" by (auto simp: codecs_faithful_def demo_codecs_def)
  have fits: "list_all2 (fits demo_codecs (\<lambda>_. Socket JSONSerializer) prog) [Speaks 1 (MPublish wired_publish)] [[]]"
    by (simp add: fits_def wired_publish_passes)
  have "runs (sys_step ?via prog e 0) (sys_start cfg 0) [Speaks 1 (MPublish wired_publish)] ?A [[]]"
    by (rule runs_one [where step = "sys_step ?via prog e 0", OF sys_step.speaks]) simp
  with wired_equivalent [OF codecs fits, of e 0 cfg ?A demo_platform] obtain S where
      S: "runs (wired_step demo_platform demo_codecs (\<lambda>_. Socket JSONSerializer) prog e 0) (wired_start cfg 0)
        [Does (Speaks 1 (MPublish wired_publish))] S [[]]"
      "wired_abs demo_platform demo_codecs (\<lambda>_. Socket JSONSerializer) S = ?A" by auto
  have "arrivals demo_platform demo_codecs (Socket JSONSerializer) (wd_up S 1) = sys_up ?A 1"
    using wired_abs_sel(3) [of demo_platform demo_codecs "\<lambda>_. Socket JSONSerializer" S 1] S(2) by simp
  with S(1) show "\<exists>S. runs (wired_step demo_platform demo_codecs (\<lambda>_. Socket JSONSerializer) prog e 0) (wired_start cfg 0)
       [Does (Speaks 1 (MPublish wired_publish))] S [[]]
     \<and> arrivals demo_platform demo_codecs (Socket JSONSerializer) (wd_up S 1) = [json_via (MPublish wired_publish)]"
    by (auto simp: send_up_def sys_start_def links_def json_via_def)
qed

end
