(* ===== verification/Router_Steps.thy ===== *)
theory Router_Steps
  imports Websocket Realm_Answers
begin

text \<open>
  A router with all its realms at work: the goroutines that run \<open>Accept\<close> for connecting peers, those of
  every realm, and the caller of \<open>Close\<close>.  Each realm of a router behaves as a realm alone; what a realm
  sends goes to its own sessions; and what holds once \<open>Close\<close> has returned.
\<close>

section \<open>The goroutines of a router\<close>

text \<open>
  Where the peer of a session is: not connected; in \<open>Accept\<close>, past its look at \<open>closing\<close>; turned away; or in
  \<open>handleSession\<close> of a realm.
\<close>

datatype peer_stage = NotConnected | Accepting | TurnedAway | InRealm URI

text \<open>Where \<open>Close\<close> is: not called, or in its loop with these realms left, the first of them being closed.\<close>

datatype close_stage = NotCalled | ClosingRealms "URI list"

record router_world =
  rw_router :: defaultRouter
  rw_worlds :: "URI \<Rightarrow> world"
  rw_peers :: "sess_ptr \<Rightarrow> peer_stage"
  rw_close :: close_stage

datatype router_label = AtPeer sess_ptr | AtRealmOf URI | AtClose

text \<open>What \<open>Accept\<close> sends to its peer.\<close>

fun peer_sends :: "sess_ptr \<Rightarrow> effect list \<Rightarrow> sends" where
  "peer_sends p [] = []"
| "peer_sends p (Sends m # effs) = (p, m) # peer_sends p effs"
| "peer_sends p (_ # effs) = peer_sends p effs"

definition set_world :: "URI \<Rightarrow> world \<Rightarrow> router_world \<Rightarrow> router_world" where
  "set_world uri v w = w\<lparr>rw_worlds := (rw_worlds w)(uri := v)\<rparr>"

definition set_peer :: "sess_ptr \<Rightarrow> peer_stage \<Rightarrow> router_world \<Rightarrow> router_world" where
  "set_peer p x w = w\<lparr>rw_peers := (rw_peers w)(p := x)\<rparr>"

text \<open>\<open>go realm.handleSession(sess)\<close>.\<close>

definition start_session :: "sess_ptr \<Rightarrow> URI \<Rightarrow> router_world \<Rightarrow> router_world" where
  "start_session p uri w = set_world uri (set_phase p WantJoin (rw_worlds w uri)) (set_peer p (InRealm uri) w)"

text \<open>Steps that are no call of \<open>handleSession\<close> and not the first act of \<open>Close\<close>: those are steps of the router.\<close>

definition own_step :: "world \<Rightarrow> world \<Rightarrow> bool" where
  "own_step v v' \<longleftrightarrow> (\<forall>s. w_phase v s = NotStarted \<longrightarrow> w_phase v' s = NotStarted)
     \<and> (w_closing v = NotClosing \<longrightarrow> w_closing v' = NotClosing)"

text \<open>
  \<open>Accept\<close> looks at \<open>closing\<close> once, at its start, so that a peer past that goes on as if the router were
  open.  \<open>GetLocalPeer\<close> does not look at it.  The session a peer gets is \<open>env_heap e p\<close>; \<open>loc uri\<close> is the local
  session of a realm.
\<close>

inductive router_step ::
  "env \<Rightarrow> (URI \<Rightarrow> sess_ptr) \<Rightarrow> router_world \<Rightarrow> router_label \<Rightarrow> router_world \<Rightarrow> sends \<Rightarrow> bool"
  for e :: env and loc :: "URI \<Rightarrow> sess_ptr" where
  turned_away: "rw_peers w p = NotConnected \<Longrightarrow> closing (rw_router w) \<Longrightarrow>
    router_Accept (rw_router w) send rd1 rd2 draw = (effs, res) \<Longrightarrow>
    router_step e loc w (AtPeer p) (set_peer p TurnedAway w) (peer_sends p effs)"
| comes: "rw_peers w p = NotConnected \<Longrightarrow> \<not> closing (rw_router w) \<Longrightarrow>
    router_step e loc w (AtPeer p) (set_peer p Accepting w) []"
| accepted: "rw_peers w p = Accepting \<Longrightarrow>
    router_Accept ((rw_router w)\<lparr>closing := False\<rparr>) send rd1 rd2 draw = (effs, Accepted sess) \<Longrightarrow>
    StartsSession sess uri \<in> set effs \<Longrightarrow> env_heap e p = sess \<Longrightarrow>
    router_step e loc w (AtPeer p) (start_session p uri w) (peer_sends p effs)"
| refused: "rw_peers w p = Accepting \<Longrightarrow>
    router_Accept ((rw_router w)\<lparr>closing := False\<rparr>) send rd1 rd2 draw = (effs, res) \<Longrightarrow>
    (\<forall>sess. res \<noteq> Accepted sess) \<Longrightarrow>
    router_step e loc w (AtPeer p) (set_peer p TurnedAway w) (peer_sends p effs)"
| local_peer: "rw_peers w p = NotConnected \<Longrightarrow> GetLocalPeer draw uri details (rw_router w) = Inr (env_heap e p) \<Longrightarrow>
    router_step e loc w (AtPeer p) (start_session p uri w) []"
| realm_works: "fmlookup (realms (rw_router w)) uri \<noteq> None \<Longrightarrow>
    realm_step e (loc uri) (rw_worlds w uri) out v \<Longrightarrow> own_step (rw_worlds w uri) v \<Longrightarrow>
    router_step e loc w (AtRealmOf uri) (set_world uri v w) out"
| close_called: "router_Close ord (rw_router w) = (r, uris, None) \<Longrightarrow> map_order ord \<Longrightarrow>
    router_step e loc w AtClose (w\<lparr>rw_router := r, rw_close := ClosingRealms uris\<rparr>) []"
| close_again: "router_Close ord (rw_router w) = (r, uris, Some err) \<Longrightarrow>
    router_step e loc w AtClose (w\<lparr>rw_router := r\<rparr>) []"
| close_realm: "rw_close w = ClosingRealms (uri # rest) \<Longrightarrow> w_closing (rw_worlds w uri) = NotClosing \<Longrightarrow>
    realm_step e (loc uri) (rw_worlds w uri) [] (close_kill (rw_worlds w uri)) \<Longrightarrow>
    router_step e loc w AtClose (set_world uri (close_kill (rw_worlds w uri)) w) []"
| close_next: "rw_close w = ClosingRealms (uri # rest) \<Longrightarrow> w_closing (rw_worlds w uri) = Closed \<Longrightarrow>
    router_step e loc w AtClose (w\<lparr>rw_close := ClosingRealms rest\<rparr>) []"

text \<open>The router with realms \<open>rs\<close>, in the order of their registration; \<open>init\<close> has started the local session of each.\<close>

definition router_start :: "(URI \<times> RealmConfig) list \<Rightarrow> (URI \<Rightarrow> sess_ptr) \<Rightarrow> defaultRouter \<Rightarrow> router_world" where
  "router_start rs loc r =
     \<lparr>rw_router = r,
      rw_worlds = (\<lambda>uri. init_world (case map_of rs uri of Some cfg \<Rightarrow> cfg | None \<Rightarrow> zero_realm) (loc uri)),
      rw_peers = (\<lambda>p. case find (\<lambda>uri. loc uri = p) (map fst rs) of Some uri \<Rightarrow> InRealm uri | None \<Rightarrow> NotConnected),
      rw_close = NotCalled\<rparr>"

lemmas router_defs = set_world_def set_peer_def start_session_def

section \<open>Who gets what a realm sends\<close>

lemma route_targets:
  assumes "route_message e draw s' msg r = (r', out, nxt)" and "(s, x) \<in> set out"
  shows "s = s' \<or> is_delivery x \<or> (\<exists>i. fmlookup (calls (Realm_Dealer r)) i = Some s)"
proof (cases msg)
  case MPublish
  with assms show ?thesis by (auto simp: broker_Publish_def set_publish_loop Let_def split: if_splits)
next
  case MSubscribe
  with assms show ?thesis by (auto simp: broker_Subscribe_def Let_def)
next
  case MUnsubscribe
  with assms show ?thesis by (auto simp: broker_Unsubscribe_def Let_def split: option.splits)
next
  case MRegister
  with assms show ?thesis by (auto simp: dealer_Register_def Let_def split: option.splits)
next
  case MUnregister
  with assms show ?thesis by (auto simp: dealer_Unregister_def Let_def split: option.splits)
next
  case MCall
  with assms show ?thesis by (auto simp: dealer_Call_def Let_def split: option.splits)
next
  case MYield
  with assms show ?thesis by (auto simp: dealer_Yield_def Let_def split: option.splits)
next
  case MError
  with assms show ?thesis by (auto simp: dealer_Error_def Let_def split: option.splits if_splits)
qed (use assms in auto)

lemma handle_targets:
  assumes "(s, x) \<in> set (fst (snd (handle_message e draw s' msg r)))"
  shows "s = s' \<or> is_delivery x \<or> (\<exists>i. fmlookup (calls (Realm_Dealer r)) i = Some s)"
proof (cases "fst (Realm_Authorizer r (env_heap e s') msg)")
  case True
  let ?m = "route_message e draw s' (Realm_Interceptor r (env_heap e s') msg) r"
  show ?thesis
    by (rule route_targets [of e draw s' "Realm_Interceptor r (env_heap e s') msg" r "fst ?m" "fst (snd ?m)" "snd (snd ?m)"])
       (use assms True in \<open>simp_all add: handle_admitted\<close>)
qed (use assms in \<open>simp add: handle_refused\<close>)

lemma handle_calls:
  assumes "fmlookup (calls (Realm_Dealer (fst (handle_message e draw s' msg r)))) i = Some s"
  shows "fmlookup (calls (Realm_Dealer r)) i = Some s \<or> s = s'"
proof (cases "fst (Realm_Authorizer r (env_heap e s') msg)")
  case True
  with assms show ?thesis
    using route_calls [of e draw s' "Realm_Interceptor r (env_heap e s') msg" r i s] by (auto simp: handle_admitted)
qed (use assms in \<open>simp add: handle_refused\<close>)

text \<open>Sessions on record as callers have been started.\<close>

definition callers_started :: "world \<Rightarrow> bool" where
  "callers_started w \<longleftrightarrow> (\<forall>i s. fmlookup (calls (Realm_Dealer (w_realm w))) i = Some s \<longrightarrow> w_phase w s \<noteq> NotStarted)"

lemma phase_started: "realm_step e l w out w' \<Longrightarrow> w_phase w s \<noteq> NotStarted \<Longrightarrow> w_phase w' s \<noteq> NotStarted"
  by (erule realm_step.cases)
     (auto simp: world_steps take_message_def Let_def split: prod.splits if_splits)

lemma callers_started_step:
  assumes step: "realm_step e l w out w'" and inv: "callers_started w" and ok: "world_ok w" and ord: "map_order (env_ord e)"
  shows "callers_started w'"
proof -
  have started: "w_phase w' s \<noteq> NotStarted" if "w_phase w s \<noteq> NotStarted" for s
    using phase_started [OF step that] .
  have "fmlookup (calls (Realm_Dealer (w_realm w))) i = Some s \<or> w_phase w s \<noteq> NotStarted"
    if "fmlookup (calls (Realm_Dealer (w_realm w'))) i = Some s" for i s
    using step
  proof cases
    case (message s' draw msg)
    with that take_message_fields(1) [OF message(4)] handle_calls [of e draw s' msg "w_realm w" i s] show ?thesis by auto
  next
    case (local_message msg pipe draw)
    with that take_message_fields(1) [OF local_message(4)] handle_calls [of e draw l msg "w_realm w" i s] show ?thesis by auto
  next
    case (leave_dealer s')
    have "dl_regs_ok (Realm_Dealer (w_realm w))"
      using world_okD(1) [OF ok] dl_invD(1) by (auto simp: realm_ok_def)
    with leave_dealer that show ?thesis by (simp add: leave_dealer_def dl_RemoveSession_maps(5) [OF _ ord])
  qed (use that in \<open>simp_all add: world_steps\<close>)
  with inv started show ?thesis unfolding callers_started_def by blast
qed

lemma step_targets:
  assumes step: "realm_step e l w out w'" and ok: "world_ok w" and calls: "callers_started w" and ord: "map_order (env_ord e)"
    and sent: "(s, x) \<in> set out"
  shows "w_phase w s \<noteq> NotStarted"
proof -
  have handled: "w_phase w s \<noteq> NotStarted"
    if out: "(s, x) \<in> set (fst (snd (handle_message e draw s' msg (w_realm w))))" and run: "w_phase w s' = Running" for draw s' msg
  proof -
    consider "s = s'" | "is_delivery x" | i where "fmlookup (calls (Realm_Dealer (w_realm w))) i = Some s"
      using handle_targets [OF out] by blast
    then show ?thesis
    proof cases
      case 2
      have "may_subscribe w s \<or> may_register w s"
        using handle_message_delivery [OF world_okD(1) [OF ok] ord out 2] owners_okD [OF world_okD(2) [OF ok]] by blast
      then show ?thesis
        using acts_okD(2,3) [OF world_okD(3) [OF ok], of s] by (auto simp: may_subscribe_def may_register_def)
    qed (use run calls in \<open>auto simp: callers_started_def\<close>)
  qed
  from step show ?thesis
  proof cases
    case (message s' draw msg)
    with sent take_message_fields(2) [OF message(4)] handled show ?thesis by simp
  next
    case (local_message msg pipe draw)
    with sent take_message_fields(2) [OF local_message(4)] handled show ?thesis by simp
  qed (use sent in simp_all)
qed

lemma reachable_callers:
  assumes "reachable e cfg l w" "default_stores cfg" "map_order (env_ord e)"
  shows "callers_started w"
  using assms(1)
proof (induction rule: reachable_induct)
  case init
  show ?case using assms(2)
    by (simp add: callers_started_def init_world_def Realm_init_def default_stores_def NewDefaultDealer_def)
next
  case (step w out w')
  show ?case by (rule callers_started_step [OF step(2,3) reachable_ok [OF step(1) assms(3,2)] assms(3)])
qed

section \<open>The realms of a router\<close>

definition registered :: "router_world \<Rightarrow> URI \<Rightarrow> bool" where
  "registered w uri \<longleftrightarrow> fmlookup (realms (rw_router w)) uri \<noteq> None"

lemma router_Close_realms: "router_Close ord r = (r', uris, res) \<Longrightarrow> realms r' = realms r"
  by (auto simp: router_Close_def split: if_splits)

lemma registered_step: "router_step e loc w lab w' out \<Longrightarrow> registered w' = registered w"
  by (erule router_step.cases) (auto simp: registered_def router_defs fun_eq_iff dest: router_Close_realms)

text \<open>A session is started in a realm that is registered.\<close>

lemma accepted_registered:
  assumes "router_Accept r send rd1 rd2 draw = (effs, Accepted sess)" "StartsSession sess' uri \<in> set effs"
  shows "fmlookup (realms r) uri \<noteq> None"
  using assms by (cases rule: Accept_Accepted) auto

text \<open>A session that has been started in a realm belongs to it.\<close>

definition homes_ok :: "router_world \<Rightarrow> bool" where
  "homes_ok w \<longleftrightarrow> (\<forall>uri p. registered w uri \<longrightarrow> w_phase (rw_worlds w uri) p \<noteq> NotStarted \<longrightarrow> rw_peers w p = InRealm uri)"

lemma homes_okD: "homes_ok w \<Longrightarrow> registered w uri \<Longrightarrow> w_phase (rw_worlds w uri) p \<noteq> NotStarted \<Longrightarrow> rw_peers w p = InRealm uri"
  unfolding homes_ok_def by blast

text \<open>What a step of the router does in realm \<open>uri\<close>: nothing, or a step of the realm, with the messages it sends.\<close>

definition realm_sends :: "URI \<Rightarrow> router_label \<Rightarrow> sends \<Rightarrow> sends" where
  "realm_sends uri lab out = (if lab = AtRealmOf uri then out else [])"

lemma start_in_realm:
  assumes "homes_ok w" "registered w uri'" "rw_peers w p \<noteq> InRealm uri'"
  shows "realm_step e (loc uri') (rw_worlds w uri') [] (set_phase p WantJoin (rw_worlds w uri'))"
  using homes_okD [OF assms(1,2)] assms(3) by (blast intro: realm_step.connect)

lemma step_in_realm:
  assumes step: "router_step e loc w lab w' out" and homes: "homes_ok w" and uri: "registered w uri"
  shows "realm_sends uri lab out = [] \<and> rw_worlds w' uri = rw_worlds w uri
    \<or> realm_step e (loc uri) (rw_worlds w uri) (realm_sends uri lab out) (rw_worlds w' uri)"
  using step
proof cases
  case (accepted p send rd1 rd2 draw effs sess uri')
  then show ?thesis
    using start_in_realm [OF homes uri, of p e loc] by (auto simp: realm_sends_def router_defs)
next
  case (local_peer p draw uri' details)
  then show ?thesis
    using start_in_realm [OF homes uri, of p e loc] by (auto simp: realm_sends_def router_defs)
qed (auto simp: realm_sends_def router_defs)

lemma homes_ok_step:
  assumes step: "router_step e loc w lab w' out" and homes: "homes_ok w"
  shows "homes_ok w'"
proof -
  have move: "homes_ok (set_world uri v w)"
    if "\<And>s. w_phase (rw_worlds w uri) s = NotStarted \<Longrightarrow> w_phase v s = NotStarted" for uri v
    using homes that by (fastforce simp: homes_ok_def registered_def set_world_def)
  have keep: "homes_ok (set_peer p x w)" if "rw_peers w p = NotConnected \<or> rw_peers w p = Accepting" for p x
    using homes that by (fastforce simp: homes_ok_def registered_def set_peer_def)
  have start: "homes_ok (start_session p uri w)" if "rw_peers w p = NotConnected \<or> rw_peers w p = Accepting" for p uri
    using homes that by (fastforce simp: homes_ok_def registered_def router_defs set_phase_def)
  from step show ?thesis
  proof cases
    case (realm_works uri v)
    then show ?thesis using move by (auto simp: own_step_def)
  next
    case (close_realm uri rest)
    then show ?thesis using move [of uri] by (simp add: close_kill_def)
  qed (use homes keep start router_Close_realms in \<open>auto simp: homes_ok_def registered_def\<close>)
qed

section \<open>Runs of a router\<close>

lemma register_realms_lookup:
  assumes "register_realms rs r0 = Inr r"
  shows "fmlookup (realms r) uri =
    (case map_of rs uri of Some cfg \<Rightarrow> Some (Realm_init cfg) | None \<Rightarrow> fmlookup (realms r0) uri)"
    and "\<And>u. u \<in> set (map fst rs) \<Longrightarrow> fmlookup (realms r0) u = None" and "closing r = closing r0"
    and "sessionOpenCallbacks r = sessionOpenCallbacks r0"
proof -
  have "fmlookup (realms r) uri =
      (case map_of rs uri of Some cfg \<Rightarrow> Some (Realm_init cfg) | None \<Rightarrow> fmlookup (realms r0) uri)
    \<and> (\<forall>u \<in> set (map fst rs). fmlookup (realms r0) u = None) \<and> closing r = closing r0
    \<and> sessionOpenCallbacks r = sessionOpenCallbacks r0"
    using assms
  proof (induction rs r0 rule: register_realms.induct)
    case (2 u realm rs r0)
    then obtain r1 where r1: "RegisterRealm u realm r0 = Inr r1" "register_realms rs r1 = Inr r"
      by (auto split: sum.splits)
    then have u: "fmlookup (realms r0) u = None"
        and r1': "r1 = r0\<lparr>realms := fmupd u (Realm_init realm) (realms r0)\<rparr>"
      by (auto simp: RegisterRealm_def split: option.splits)
    from 2(1) [OF r1] have ih: "fmlookup (realms r) uri =
        (case map_of rs uri of Some cfg \<Rightarrow> Some (Realm_init cfg) | None \<Rightarrow> fmlookup (realms r1) uri)"
      "\<forall>u \<in> set (map fst rs). fmlookup (realms r1) u = None" "closing r = closing r0"
      "sessionOpenCallbacks r = sessionOpenCallbacks r0"
      by (simp_all add: r1')
    have "map_of rs u = None" using ih(2) by (auto simp: r1' map_of_eq_None_iff)
    with ih u show ?case by (auto simp: r1' split: option.splits if_splits)
  qed simp
  then show "fmlookup (realms r) uri =
      (case map_of rs uri of Some cfg \<Rightarrow> Some (Realm_init cfg) | None \<Rightarrow> fmlookup (realms r0) uri)"
    and "\<And>u. u \<in> set (map fst rs) \<Longrightarrow> fmlookup (realms r0) u = None" and "closing r = closing r0"
    and "sessionOpenCallbacks r = sessionOpenCallbacks r0" by blast+
qed

text \<open>A run of a router whose realms are \<open>rs\<close>, with different local sessions.\<close>

definition router_run ::
  "env \<Rightarrow> (URI \<times> RealmConfig) list \<Rightarrow> (URI \<Rightarrow> sess_ptr) \<Rightarrow> router_label list \<Rightarrow> router_world \<Rightarrow> sends list \<Rightarrow> bool" where
  "router_run e rs loc ls w outs \<longleftrightarrow> inj_on loc (set (map fst rs))
     \<and> (\<exists>r. register_realms rs NewDefaultRouter = Inr r \<and> runs (router_step e loc) (router_start rs loc r) ls w outs)"

lemma start_registered:
  assumes "register_realms rs NewDefaultRouter = Inr r"
  shows "registered (router_start rs loc r) uri \<longleftrightarrow> map_of rs uri \<noteq> None"
  using register_realms_lookup(1) [OF assms, of uri]
  by (simp add: registered_def router_start_def NewDefaultRouter_def split: option.splits)

lemma start_homes:
  assumes "register_realms rs NewDefaultRouter = Inr r" "inj_on loc (set (map fst rs))"
  shows "homes_ok (router_start rs loc r)"
  unfolding homes_ok_def
proof (intro allI impI)
  fix uri p
  assume "registered (router_start rs loc r) uri" "w_phase (rw_worlds (router_start rs loc r) uri) p \<noteq> NotStarted"
  then have uri: "uri \<in> set (map fst rs)" and p: "p = loc uri"
    using start_registered [OF assms(1)] map_of_eq_None_iff [of rs uri]
    by (auto simp: router_start_def init_world_def split: if_splits)
  have "find (\<lambda>u. loc u = p) (map fst rs) = Some uri"
  proof (cases "find (\<lambda>u. loc u = p) (map fst rs)")
    case None
    with uri p show ?thesis by (auto simp: find_None_iff)
  next
    case (Some u)
    then have "u \<in> set (map fst rs)" "loc u = loc uri" using p by (auto simp: find_Some_iff intro!: imageI nth_mem)
    with assms(2) uri Some show ?thesis by (auto dest: inj_onD)
  qed
  then show "rw_peers (router_start rs loc r) p = InRealm uri" by (simp add: router_start_def)
qed

lemma map2_snoc: "length outs = length ls \<Longrightarrow> map2 f (ls @ [l]) (outs @ [out]) = map2 f ls outs @ [f l out]"
  by simp

lemma router_run_realms:
  assumes "router_run e rs loc ls w outs"
  shows "homes_ok w \<and> (\<forall>uri. registered w uri \<longleftrightarrow> map_of rs uri \<noteq> None)
    \<and> (\<forall>uri cfg. map_of rs uri = Some cfg \<longrightarrow>
         realm_steps e (loc uri) (init_world cfg (loc uri)) (concat (map2 (realm_sends uri) ls outs)) (rw_worlds w uri))"
proof -
  obtain r where reg: "register_realms rs NewDefaultRouter = Inr r" and inj: "inj_on loc (set (map fst rs))"
    and run: "runs (router_step e loc) (router_start rs loc r) ls w outs"
    using assms by (auto simp: router_run_def)
  from run show ?thesis
  proof (induction rule: runs_rev_induct)
    case stop
    show ?case
      using start_homes [OF reg inj] start_registered [OF reg]
      by (auto simp: router_start_def intro: realm_steps.refl)
  next
    case (snoc ls w1 outs lab w2 out)
    have homes: "homes_ok w1" and known: "\<And>uri. registered w1 uri \<longleftrightarrow> map_of rs uri \<noteq> None" using snoc.IH by auto
    have "realm_steps e (loc uri) (init_world cfg (loc uri))
        (concat (map2 (realm_sends uri) (ls @ [lab]) (outs @ [out]))) (rw_worlds w2 uri)"
      if "map_of rs uri = Some cfg" for uri cfg
    proof -
      have old: "realm_steps e (loc uri) (init_world cfg (loc uri))
          (concat (map2 (realm_sends uri) ls outs)) (rw_worlds w1 uri)" using snoc.IH that by blast
      have "registered w1 uri" using known that by simp
      from step_in_realm [OF snoc.hyps(2) homes this] old show ?thesis
        unfolding map2_snoc [OF runs_length [OF snoc.hyps(1)]] by (auto intro: realm_steps.step)
    qed
    then show ?case
      using homes_ok_step [OF snoc.hyps(2) homes] registered_step [OF snoc.hyps(2)] known by simp
  qed
qed

section \<open>Close\<close>

text \<open>A realm that is closed stays closed, and its table of clients as it is.\<close>

lemma closed_step:
  assumes "realm_step e l w out w'" and "w_closing w = Closed"
  shows "w_closing w' = Closed \<and> clients (w_realm w') = clients (w_realm w)
    \<and> (\<forall>s. w_phase w' s = InJoin \<longrightarrow> w_phase w s = InJoin)"
proof
  show "w_closing w' = Closed" using closing_mono [OF assms(1)] assms(2) by simp
  show "clients (w_realm w') = clients (w_realm w) \<and> (\<forall>s. w_phase w' s = InJoin \<longrightarrow> w_phase w s = InJoin)"
    using assms(1)
  proof cases
    case (message s draw msg)
    with take_message_fields(1,7) [OF message(4)] show ?thesis by (auto simp: handle_message_frame)
  next
    case (local_message msg pipe draw)
    with take_message_fields(1,7) [OF local_message(4)] show ?thesis by (auto simp: handle_message_frame)
  qed (use assms(2) in \<open>auto simp: world_steps split: if_splits\<close>)
qed

definition close_ok :: "router_world \<Rightarrow> bool" where
  "close_ok w \<longleftrightarrow> (closing (rw_router w) \<longleftrightarrow> rw_close w \<noteq> NotCalled)
     \<and> (\<forall>uri todo. registered w uri \<longrightarrow> rw_close w = ClosingRealms todo \<longrightarrow>
          uri \<in> set todo \<or> w_closing (rw_worlds w uri) = Closed)"

lemma close_okD:
  assumes "close_ok w"
  shows "closing (rw_router w) \<longleftrightarrow> rw_close w \<noteq> NotCalled"
    and "registered w uri \<Longrightarrow> rw_close w = ClosingRealms todo \<Longrightarrow> uri \<in> set todo \<or> w_closing (rw_worlds w uri) = Closed"
  using assms unfolding close_ok_def by blast+

lemma closed_stays:
  assumes "router_step e loc w lab w' out" "homes_ok w" "registered w uri" "w_closing (rw_worlds w uri) = Closed"
  shows "w_closing (rw_worlds w' uri) = Closed
    \<and> clients (w_realm (rw_worlds w' uri)) = clients (w_realm (rw_worlds w uri))
    \<and> (\<forall>s. w_phase (rw_worlds w' uri) s = InJoin \<longrightarrow> w_phase (rw_worlds w uri) s = InJoin)"
  using step_in_realm [OF assms(1-3)] closed_step [OF _ assms(4)] assms(4) by metis

lemma closing_stays:
  "router_step e loc w lab w' out \<Longrightarrow> closing (rw_router w) \<Longrightarrow>
   closing (rw_router w') \<and> (\<forall>p. rw_peers w' p = Accepting \<longrightarrow> rw_peers w p = Accepting)"
  by (erule router_step.cases) (auto simp: router_defs router_Close_def split: if_splits)

lemma close_ok_step:
  assumes step: "router_step e loc w lab w' out" and homes: "homes_ok w" and inv: "close_ok w"
  shows "close_ok w'"
proof -
  note reg = registered_step [OF step]
  have stays: "w_closing (rw_worlds w' uri) = Closed" if "registered w uri" "w_closing (rw_worlds w uri) = Closed" for uri
    using closed_stays [OF step homes that] by blast
  from step show ?thesis
  proof cases
    case (close_called ord r uris)
    then have "uris = ord (fmdom (realms (rw_router w)))" "closing r" by (auto simp: router_Close_def split: if_splits)
    then have "uri \<in> set uris" if "registered w uri" for uri
      using that map_order_set [OF close_called(5)] by (auto simp: registered_def fmlookup_dom_iff)
    with close_called \<open>closing r\<close> reg show ?thesis by (auto simp: close_ok_def)
  next
    case (close_again ord r uris err)
    then have "r = rw_router w" by (auto simp: router_Close_def split: if_splits)
    with close_again inv show ?thesis by simp
  next
    case (close_next uri rest)
    with reg stays close_okD [OF inv] show ?thesis by (fastforce simp: close_ok_def)
  qed (use reg stays close_okD [OF inv] in \<open>fastforce simp: close_ok_def router_defs\<close>)+
qed

lemma router_run_close: "router_run e rs loc ls w outs \<Longrightarrow> close_ok w"
  unfolding router_run_def
proof (elim conjE exE)
  fix r
  assume inj: "inj_on loc (set (map fst rs))" and reg: "register_realms rs NewDefaultRouter = Inr r"
    and "runs (router_step e loc) (router_start rs loc r) ls w outs"
  from this(3) have "homes_ok w \<and> close_ok w"
  proof (induction rule: runs_rev_induct)
    case stop
    then show ?case
      using start_homes [OF reg inj] register_realms_lookup(3) [OF reg]
      by (auto simp: close_ok_def router_start_def NewDefaultRouter_def)
  next
    case (snoc ls w1 outs lab w2 out)
    then show ?case using homes_ok_step close_ok_step by blast
  qed
  then show "close_ok w" ..
qed

section \<open>The properties\<close>

text \<open>
  C8. Each realm of a router behaves as a realm alone: for every run of the router, in which peers connect and are
  accepted or refused, local peers are made, the goroutines of all realms work and \<open>Close\<close> is called, in any order, the
  state of a realm is one its own goroutines reach from its start, sending the messages that the run sends in that realm.
  What is proved of a single realm therefore holds of every realm of a router.
\<close>

theorem router_projects:
  assumes "router_run e rs loc ls w outs" and "map_of rs uri = Some cfg"
  shows "realm_steps e (loc uri) (init_world cfg (loc uri)) (concat (map2 (realm_sends uri) ls outs)) (rw_worlds w uri)"
  using router_run_realms [OF assms(1)] assms(2) by blast

text \<open>
  C7. No message crosses from one realm to another: whatever a realm of a running router sends, it sends to
  a session that \<open>Accept\<close> or \<open>GetLocalPeer\<close> has placed in this realm, and that was started in no other realm.
\<close>

theorem realm_isolation:
  assumes "router_run e rs loc ls w outs" and "\<And>uri cfg. map_of rs uri = Some cfg \<Longrightarrow> default_stores cfg"
    and "map_order (env_ord e)" and "router_step e loc w (AtRealmOf uri) w' out" and "(s, x) \<in> set out"
  shows "rw_peers w s = InRealm uri \<and> (\<forall>uri'. registered w uri' \<longrightarrow> uri' \<noteq> uri \<longrightarrow> w_phase (rw_worlds w uri') s = NotStarted)"
proof -
  note run = router_run_realms [OF assms(1)]
  from assms(4) obtain v where v: "registered w uri" "realm_step e (loc uri) (rw_worlds w uri) out v"
    by cases (auto simp: registered_def)
  with run obtain cfg where cfg: "map_of rs uri = Some cfg" by auto
  with run have reach: "reachable e cfg (loc uri) (rw_worlds w uri)" by (auto simp: reachable_def)
  note stores = assms(2) [OF cfg]
  have "w_phase (rw_worlds w uri) s \<noteq> NotStarted"
    by (rule step_targets [OF v(2) reachable_ok [OF reach assms(3) stores] reachable_callers [OF reach stores assms(3)]
          assms(3,5)])
  then have home: "rw_peers w s = InRealm uri" using run v(1) homes_okD by blast
  moreover have "w_phase (rw_worlds w uri') s = NotStarted" if "registered w uri'" "uri' \<noteq> uri" for uri'
    using run homes_okD [of w uri' s] home that by auto
  ultimately show ?thesis by blast
qed

text \<open>
  C17. Once the router's \<open>Close\<close> has returned, in every continuation of the run every realm stays closed, its
  table of clients does not change, no session is carried into it any more, and a peer that had not connected by then
  never gets past the start of \<open>Accept\<close>.
\<close>

theorem closed_for_good:
  assumes "router_run e rs loc ls w outs" and "rw_close w = ClosingRealms []"
    and "runs (router_step e loc) w ls' w' outs'" and "map_of rs uri = Some cfg"
  shows "w_closing (rw_worlds w' uri) = Closed
    \<and> clients (w_realm (rw_worlds w' uri)) = clients (w_realm (rw_worlds w uri))
    \<and> (\<forall>s. w_phase (rw_worlds w' uri) s = InJoin \<longrightarrow> w_phase (rw_worlds w uri) s = InJoin)
    \<and> (\<forall>p. rw_peers w p = NotConnected \<longrightarrow> rw_peers w' p \<noteq> Accepting)"
proof -
  have w: "homes_ok w" "registered w uri" "close_ok w"
    using router_run_realms [OF assms(1)] router_run_close [OF assms(1)] assms(4) by auto
  have closed: "w_closing (rw_worlds w uri) = Closed" "closing (rw_router w)"
    using close_okD [OF w(3)] w(2) assms(2) by auto
  have "homes_ok w' \<and> registered w' uri \<and> closing (rw_router w')
    \<and> w_closing (rw_worlds w' uri) = Closed
    \<and> clients (w_realm (rw_worlds w' uri)) = clients (w_realm (rw_worlds w uri))
    \<and> (\<forall>s. w_phase (rw_worlds w' uri) s = InJoin \<longrightarrow> w_phase (rw_worlds w uri) s = InJoin)
    \<and> (\<forall>p. rw_peers w p = NotConnected \<longrightarrow> rw_peers w' p \<noteq> Accepting)"
    using assms(3)
  proof (induction rule: runs_rev_induct)
    case stop
    show ?case using w closed by simp
  next
    case (snoc ls w1 outs lab w2 out)
    note step = snoc.hyps(2)
    then show ?case
      using closing_stays [OF step] homes_ok_step [OF step] registered_step [OF step] closed_stays [OF step, of uri] snoc.IH by auto
  qed
  then show ?thesis by blast
qed

section \<open>Runs for the witnesses\<close>

text \<open>One realm, with session 0 its local session.\<close>

definition router_env :: env where
  "router_env = \<lparr>env_ord = sorted_list_of_fset, env_heap = (\<lambda>s. Realm_getPeer (of_nat s) None)\<rparr>"

definition demo_realms :: "(URI \<times> RealmConfig) list" where
  "demo_realms = [(''realm1'', ticket_config)]"

definition demo_default_router :: defaultRouter where
  "demo_default_router = NewDefaultRouter\<lparr>realms := fmupd ''realm1'' (Realm_init ticket_config) fmempty\<rparr>"

lemma demo_realms [simp]:
  "map_of demo_realms ''realm1'' = Some ticket_config" "inj_on (\<lambda>_. 0) (set (map fst demo_realms))"
  "register_realms demo_realms NewDefaultRouter = Inr demo_default_router"
  by (simp_all add: demo_realms_def RegisterRealm_def NewDefaultRouter_def demo_default_router_def)

abbreviation demo_router_step :: "router_world \<Rightarrow> router_label \<Rightarrow> router_world \<Rightarrow> sends \<Rightarrow> bool" where
  "demo_router_step \<equiv> router_step router_env (\<lambda>_. 0)"

abbreviation demo_router_start :: router_world where
  "demo_router_start \<equiv> router_start demo_realms (\<lambda>_. 0) demo_default_router"

lemmas demo_router_snoc = runs_snoc [where step = demo_router_step]

lemma demo_start_sel:
  "rw_worlds demo_router_start ''realm1'' = init_world ticket_config 0"
  "rw_peers demo_router_start p = (if p = 0 then InRealm ''realm1'' else NotConnected)"
  "rw_close demo_router_start = NotCalled" "rw_router demo_router_start = demo_default_router"
  by (simp_all add: router_start_def demo_realms_def)

lemma demo_registered_sel: "fmlookup (realms demo_default_router) ''realm1'' = Some (Realm_init ticket_config)"
  by (simp add: demo_default_router_def)

lemma works:
  "rw_worlds w uri = v \<Longrightarrow> fmlookup (realms (rw_router w)) uri \<noteq> None \<Longrightarrow> realm_step e (loc uri) v out v' \<Longrightarrow>
   own_step v v' \<Longrightarrow> router_step e loc w (AtRealmOf uri) (set_world uri v' w) out"
  by (rule router_step.realm_works) simp_all

text \<open>A run in which \<open>Close\<close> finds the realm's local session still waiting to join.\<close>

lemma demo_close_run:
  "\<exists>ls w outs. runs demo_router_step demo_router_start ls w outs \<and> rw_close w = ClosingRealms []
     \<and> rw_peers w 1 = NotConnected \<and> closing (rw_router w)"
proof -
  let ?r = "demo_default_router\<lparr>closing := True\<rparr>" let ?v = "init_world ticket_config 0"
  let ?w1 = "demo_router_start\<lparr>rw_router := ?r, rw_close := ClosingRealms [''realm1'']\<rparr>"
  let ?v2 = "close_kill ?v" let ?v3 = "?v2\<lparr>w_closing := Drained\<rparr>" let ?v4 = "?v3\<lparr>w_closing := Closed\<rparr>"
  have "router_Close sorted_list_of_fset (rw_router demo_router_start) = (?r, [''realm1''], None)"
    unfolding demo_start_sel by (simp add: router_Close_def demo_default_router_def NewDefaultRouter_def)
  then have 1: "demo_router_step demo_router_start AtClose ?w1 []"
    by (rule router_step.close_called) simp
  have 2: "demo_router_step ?w1 AtClose (set_world ''realm1'' (close_kill (rw_worlds ?w1 ''realm1'')) ?w1) []"
    by (rule router_step.close_realm [where rest = "[]"], simp, simp add: demo_start_sel init_world_def, rule realm_step.close_kill)
       (simp_all add: demo_start_sel init_world_def)
  let ?w2 = "set_world ''realm1'' (close_kill (rw_worlds ?w1 ''realm1'')) ?w1"
  have c: "clients (w_realm ?v2) = fmempty" by (simp add: close_kill_def init_world_def Realm_init_def)
  have 3: "demo_router_step ?w2 (AtRealmOf ''realm1'') (set_world ''realm1'' ?v3 ?w2) []"
    by (rule works [where v = ?v2], simp add: set_world_def demo_start_sel, simp add: set_world_def demo_registered_sel,
        rule realm_step.close_poll) (simp_all add: own_step_def c, simp_all add: close_kill_def init_world_def)
  let ?w3 = "set_world ''realm1'' ?v3 ?w2"
  have 4: "demo_router_step ?w3 (AtRealmOf ''realm1'') (set_world ''realm1'' ?v4 ?w3) []"
    by (rule works [where v = ?v3], simp add: set_world_def, simp add: set_world_def demo_registered_sel,
        rule realm_step.close_acts) (simp_all add: own_step_def)
  let ?w4 = "set_world ''realm1'' ?v4 ?w3"
  have 5: "demo_router_step ?w4 AtClose (?w4\<lparr>rw_close := ClosingRealms []\<rparr>) []"
    by (rule router_step.close_next [where rest = "[]" and uri = "''realm1''"]) (simp add: set_world_def, unfold set_world_def, simp)
  have "runs demo_router_step demo_router_start [AtClose, AtClose, AtRealmOf ''realm1'', AtRealmOf ''realm1'', AtClose]
      (?w4\<lparr>rw_close := ClosingRealms []\<rparr>) [[], [], [], [], []]"
    by (rule runs.intros 1 2 3 4 5)+
  then show ?thesis by (intro exI conjI) (assumption, simp_all add: set_world_def demo_start_sel)
qed

text \<open>A run in which the local session and a peer of the program join, and the peer subscribes.\<close>

lemma demo_join_run:
  "\<exists>ls w outs w' out. runs demo_router_step demo_router_start ls w outs
     \<and> demo_router_step w (AtRealmOf ''realm1'') w' out \<and> (1, MSubscribed \<lparr>Subscribed_Request = 0, Subscribed_Subscription = 7\<rparr>) \<in> set out"
proof -
  let ?v0 = "init_world ticket_config 0" let ?w0 = demo_router_start
  let ?v1 = "join_begin router_env 0 ?v0" let ?w1 = "set_world ''realm1'' ?v1 ?w0"
  let ?v2 = "join_end router_env 3 0 ?v1" let ?w2 = "set_world ''realm1'' ?v2 ?w1"
  let ?v3 = "set_phase 1 WantJoin ?v2" let ?w3 = "start_session 1 ''realm1'' ?w2"
  let ?v4 = "join_begin router_env 1 ?v3" let ?w4 = "set_world ''realm1'' ?v4 ?w3"
  let ?v5 = "join_end router_env 3 1 ?v4" let ?w5 = "set_world ''realm1'' ?v5 ?w4"
  let ?m = "MSubscribe (subscribe_msg ''a'')"
  note sel = set_world_def demo_start_sel demo_registered_sel start_session_def set_peer_def
  note steps = own_step_def world_steps init_world_def pipe_cap_def
  have 1: "demo_router_step ?w0 (AtRealmOf ''realm1'') ?w1 []"
    by (rule works [where v = ?v0], simp add: sel, simp add: sel, rule realm_step.join_begin) (simp_all add: steps)
  have 2: "demo_router_step ?w1 (AtRealmOf ''realm1'') ?w2 []"
    by (rule works [where v = ?v1], simp add: sel, simp add: sel, rule realm_step.join_end) (simp_all add: steps)
  have 3: "demo_router_step ?w2 (AtPeer 1) ?w3 []"
    by (rule router_step.local_peer [where draw = 1 and details = None])
       (simp_all add: sel GetLocalPeer_def router_env_def del: One_nat_def)
  have v3: "rw_worlds ?w3 ''realm1'' = ?v3" by (simp add: sel)
  have 4: "demo_router_step ?w3 (AtRealmOf ''realm1'') ?w4 []"
    by (rule works [where v = ?v3], simp add: sel, simp add: sel, rule realm_step.join_begin) (simp_all add: steps)
  have 5: "demo_router_step ?w4 (AtRealmOf ''realm1'') ?w5 []"
    by (rule works [where v = ?v4], simp add: sel, simp add: sel, rule realm_step.join_end) (simp_all add: steps)
  have v5: "w_phase ?v5 1 = Running" "plain_realm (w_realm ?v5)" "Realm_Broker (w_realm ?v5) = NewDefaultBroker"
    by (simp_all add: steps Realm_init_def ticket_config_def plain_realm_def)
  obtain v6 out where take: "take_message router_env 7 1 ?m ?v5 = (v6, out)" by fastforce
  have out: "(1, MSubscribed \<lparr>Subscribed_Request = 0, Subscribed_Subscription = 7\<rparr>) \<in> set out"
    using take_message_fields(2) [OF take] v5 by (simp add: handle_plain broker_Subscribe_def subscribe_msg_def NewID_id Let_def)
  have "w_phase v6 s = (if s = 1 then Running else w_phase ?v5 s)" "w_closing v6 = w_closing ?v5" for s
    using take_message_fields(6,7) [OF take] v5 by (simp_all add: handle_plain case_prod_beta)
  then have own: "own_step ?v5 v6" using v5(1) by (auto simp: own_step_def)
  have "realm_step router_env 0 ?v5 out v6"
    by (rule realm_step.message [OF v5(1) _ _ take]) (simp_all add: seen_fresh_plain v5 del: One_nat_def)
  then have 6: "demo_router_step ?w5 (AtRealmOf ''realm1'') (set_world ''realm1'' v6 ?w5) out"
    using own by (intro router_step.realm_works) (simp_all add: sel)
  have "runs demo_router_step ?w0 [AtRealmOf ''realm1'', AtRealmOf ''realm1'', AtPeer 1, AtRealmOf ''realm1'', AtRealmOf ''realm1'']
      ?w5 [[], [], [], [], []]"
    by (rule runs.intros 1 2 3 4 5)+
  with 6 out show ?thesis by blast
qed

lemma demo_router_run: "runs demo_router_step demo_router_start ls w outs \<Longrightarrow> router_run router_env demo_realms (\<lambda>_. 0) ls w outs"
  using demo_realms(2,3) unfolding router_run_def by blast

theorem router_projects_witness:
  "\<exists>ls w outs out. router_run router_env demo_realms (\<lambda>_. 0) ls w outs \<and> rw_close w = ClosingRealms []
     \<and> realm_steps router_env 0 (init_world ticket_config 0) out (rw_worlds w ''realm1'')"
proof -
  obtain ls w outs where r: "runs demo_router_step demo_router_start ls w outs" "rw_close w = ClosingRealms []"
    using demo_close_run by blast
  from router_projects [OF demo_router_run [OF r(1)] demo_realms(1)] demo_router_run [OF r(1)] r(2) show ?thesis by blast
qed

theorem realm_isolation_witness:
  "\<exists>ls w outs w' out. router_run router_env demo_realms (\<lambda>_. 0) ls w outs
     \<and> demo_router_step w (AtRealmOf ''realm1'') w' out
     \<and> (1, MSubscribed \<lparr>Subscribed_Request = 0, Subscribed_Subscription = 7\<rparr>) \<in> set out
     \<and> rw_peers w 1 = InRealm ''realm1''"
proof -
  obtain ls w outs w' out where r: "runs demo_router_step demo_router_start ls w outs"
      "demo_router_step w (AtRealmOf ''realm1'') w' out"
      "(1, MSubscribed \<lparr>Subscribed_Request = 0, Subscribed_Subscription = 7\<rparr>) \<in> set out"
    using demo_join_run by blast
  note run = demo_router_run [OF r(1)]
  have "rw_peers w 1 = InRealm ''realm1'' \<and> (\<forall>uri'. registered w uri' \<longrightarrow> uri' \<noteq> ''realm1'' \<longrightarrow>
      w_phase (rw_worlds w uri') 1 = NotStarted)"
    by (rule realm_isolation [OF run _ _ r(2,3)])
       (auto simp: demo_realms_def router_env_def split: if_splits)
  with run r(2,3) show ?thesis by blast
qed

theorem closed_for_good_witness:
  "\<exists>ls w outs w'. router_run router_env demo_realms (\<lambda>_. 0) ls w outs \<and> rw_peers w 1 = NotConnected
     \<and> demo_router_step w (AtPeer 1) w' (peer_sends 1 (abort None ErrSystemShutdown))
     \<and> w_closing (rw_worlds w' ''realm1'') = Closed"
proof -
  obtain ls w outs where r: "runs demo_router_step demo_router_start ls w outs" "rw_close w = ClosingRealms []"
      "rw_peers w 1 = NotConnected" "closing (rw_router w)"
    using demo_close_run by blast
  note run = demo_router_run [OF r(1)]
  have "router_Accept (rw_router w) (\<lambda>_. None) ReadTimeout ReadTimeout 0 = (abort None ErrSystemShutdown,
      Refused (GoError ''Router is closing, no new connections are allowed''))"
    using r(4) by (simp add: router_Accept_def)
  then have step: "demo_router_step w (AtPeer 1) (set_peer 1 TurnedAway w) (peer_sends 1 (abort None ErrSystemShutdown))"
    by (rule router_step.turned_away [OF r(3,4)])
  from closed_for_good [OF run r(2) runs.go [where step = demo_router_step, OF step runs.stop] demo_realms(1)] run r(3) step show ?thesis by blast
qed

end
