(* ===== verification/Strconv.thy ===== *)
theory Strconv
  imports Go_Reflect
begin

text \<open>
  What the programs use of \<^verbatim>\<open>strconv\<close> and of the verb \<^verbatim>\<open>%d\<close>: \<open>Atoi\<close>, which reads a decimal \<open>int\<close> of 64 bits, and the
  text of an integer.  \<open>Atoi\<close> goes over the digits from the left and gives up at the first character that is no digit, or as
  soon as the number no longer fits in an \<open>uint64\<close>; the sign is applied afterwards.
\<close>

datatype atoi_error = ErrSyntax | ErrRange

definition digit_value :: "char \<Rightarrow> nat option" where
  "digit_value c = (let n = of_char c :: nat in if 48 \<le> n \<and> n \<le> 57 then Some (n - 48) else None)"

fun parse_uint :: "nat \<Rightarrow> string \<Rightarrow> atoi_error + nat" where
  "parse_uint n [] = Inr n"
| "parse_uint n (c # cs) =
     (case digit_value c of
        None \<Rightarrow> Inl ErrSyntax
      | Some d \<Rightarrow> (if 10 * n + d \<ge> 2 ^ 64 then Inl ErrRange else parse_uint (10 * n + d) cs))"

definition parse_digits :: "string \<Rightarrow> atoi_error + nat" where
  "parse_digits s = (if s = [] then Inl ErrSyntax else parse_uint 0 s)"

definition unsigned_part :: "string \<Rightarrow> bool \<times> string" where
  "unsigned_part s =
     (case s of
        [] \<Rightarrow> (False, [])
      | c # cs \<Rightarrow> (if c = CHR ''-'' then (True, cs) else if c = CHR ''+'' then (False, cs) else (False, s)))"

definition Atoi :: "string \<Rightarrow> atoi_error + 64 word" where
  "Atoi s =
     (let (neg, digits) = unsigned_part s
      in case parse_digits digits of
           Inl err \<Rightarrow> Inl err
         | Inr n \<Rightarrow>
             (if neg then (if n > 2 ^ 63 then Inl ErrRange else Inr (- of_nat n))
              else (if n \<ge> 2 ^ 63 then Inl ErrRange else Inr (of_nat n))))"

definition int_text :: "int \<Rightarrow> string" where
  "int_text k = (if k < 0 then CHR ''-'' # decimal (nat (- k)) else decimal (nat k))"

section \<open>Facts\<close>

lemma digit_value_char: "d < 10 \<Longrightarrow> digit_value (char_of (48 + d :: nat)) = Some d"
  by (simp add: digit_value_def Let_def)

lemma digit_value_sign: "digit_value (CHR ''-'') = None" "digit_value (CHR ''+'') = None"
  by (simp_all add: digit_value_def)

lemma decimal_not_empty: "decimal n \<noteq> []"
  by (subst decimal.simps) simp

lemma decimal_head: "\<exists>d cs. d < 10 \<and> decimal n = char_of (48 + d :: nat) # cs"
proof (induction n rule: decimal.induct)
  case (1 n)
  show ?case
  proof (cases "n < 10")
    case False
    with 1 obtain d cs where "d < 10" "decimal (n div 10) = char_of (48 + d :: nat) # cs" by blast
    with False show ?thesis by (subst decimal.simps) auto
  qed (subst decimal.simps, auto)
qed

lemma parse_uint_append:
  "parse_uint n (s @ t) = (case parse_uint n s of Inl err \<Rightarrow> Inl err | Inr m \<Rightarrow> parse_uint m t)"
  by (induction n s rule: parse_uint.induct) (auto split: option.splits)

lemma parse_uint_decimal: "parse_uint 0 (decimal n) = (if n < 2 ^ 64 then Inr n else Inl ErrRange)"
proof (induction n rule: decimal.induct)
  case (1 n)
  show ?case
  proof (cases "n < 10")
    case True
    then show ?thesis by (subst decimal.simps) (simp add: digit_value_char)
  next
    case False
    have "10 * (n div 10) + n mod 10 = n" by simp
    with False show ?thesis using 1
      by (subst decimal.simps) (auto simp: parse_uint_append digit_value_char)
  qed
qed

lemma unsigned_decimal: "unsigned_part (decimal n) = (False, decimal n)"
proof -
  obtain d cs where d: "d < 10" "decimal n = char_of (48 + d :: nat) # cs" using decimal_head by blast
  have "char_of (48 + d) \<noteq> CHR ''-''" "char_of (48 + d) \<noteq> CHR ''+''"
    using digit_value_char [OF d(1)] digit_value_sign by auto
  with d(2) show ?thesis by (simp add: unsigned_part_def)
qed

text \<open>\<open>Atoi\<close> reads back the text of every \<open>int\<close>, and refuses the text of any other integer.\<close>

lemma Atoi_int_text:
  "Atoi (int_text k) = (if - (2 ^ 63) \<le> k \<and> k < 2 ^ 63 then Inr (word_of_int k) else Inl ErrRange)"
proof (cases "k < 0")
  case True
  then obtain n where n: "k = - int n" by (cases k rule: int_cases4) auto
  have "Atoi (int_text k) = (case (if n < 2 ^ 64 then Inr n else Inl ErrRange) of
      Inl err \<Rightarrow> Inl err | Inr n \<Rightarrow> if n > 2 ^ 63 then Inl ErrRange else Inr (- of_nat n))"
    using True n by (simp add: Atoi_def int_text_def unsigned_part_def parse_digits_def decimal_not_empty parse_uint_decimal
        cong: sum.case_cong)
  with True n show ?thesis by (auto split: if_splits)
next
  case False
  then obtain n where n: "k = int n" by (cases k rule: int_cases4) auto
  have "Atoi (int_text k) = (case (if n < 2 ^ 64 then Inr n else Inl ErrRange) of
      Inl err \<Rightarrow> Inl err | Inr n \<Rightarrow> if n \<ge> 2 ^ 63 then Inl ErrRange else Inr (of_nat n))"
    using n by (simp add: Atoi_def int_text_def unsigned_decimal parse_digits_def decimal_not_empty parse_uint_decimal
        cong: sum.case_cong)
  with n show ?thesis by (auto split: if_splits)
qed

end
