(* ===== verification/Chat.thy ===== *)
theory Chat
  imports Handshake Broker
begin

text \<open>
  \<^verbatim>\<open>examples/chat/chatclient\<close>: the line editor and the dialogue of the chat window
  (\<^verbatim>\<open>chatwin.go\<close>), the subscription's handler and the sending of lines
  (\<^verbatim>\<open>main.go\<close>).  The terminal library is not part of the repository: the values of its key
  constants (\<open>nc\<close>), the text of a key (\<open>KeyString\<close>), the key pressed and the position of the cursor are arguments,
  and its drawing calls are effects.
\<close>

definition PROMPT :: string where "PROMPT = ''> ''"
definition MESSAGE_WIN_SIZE :: int where "MESSAGE_WIN_SIZE = 3"

record chat_message =
  From :: string
  Message :: string

record chatWin =
  msgRows :: int
  msgCols :: int
  username :: string
  line :: string

definition newChatWin :: "string \<Rightarrow> chatWin" where
  "newChatWin user = \<lparr>msgRows = 0, msgCols = 0, username = user, line = []\<rparr>"

section \<open>The window\<close>

definition moveLeft :: "chatWin \<Rightarrow> int \<Rightarrow> int \<Rightarrow> int \<times> int" where
  "moveLeft cw y x =
     (if x \<le> int (length PROMPT) \<and> y \<le> msgCols cw - MESSAGE_WIN_SIZE then (y, x)
      else if x = 0 then (y - 1, msgRows cw)
      else (y, x - 1))"

definition moveRight :: "chatWin \<Rightarrow> int \<Rightarrow> int \<Rightarrow> int \<times> int" where
  "moveRight cw y x =
     (if x = int (length PROMPT) \<and> y = MESSAGE_WIN_SIZE then (y, x)
      else if x = msgRows cw then (y + 1, 0)
      else (y, x + 1))"

datatype win_effect = MoveDelChar int int | Refresh | Erase | Print string | MovePrint int int string

text \<open>The loop of the backspace case.\<close>

fun delete_left :: "nat \<Rightarrow> chatWin \<Rightarrow> int \<Rightarrow> int \<Rightarrow> win_effect list" where
  "delete_left 0 cw y x = []"
| "delete_left (Suc n) cw y x = (let (y, x) = moveLeft cw y x in MoveDelChar y x # delete_left n cw y x)"

text \<open>The keys whose cases of the switch are empty, by the names of their constants.\<close>

definition ignored_keys :: "string list" where
  "ignored_keys =
    [''KEY_TAB'', ''KEY_DOWN'', ''KEY_UP'', ''KEY_LEFT'', ''KEY_RIGHT'', ''KEY_HOME'', ''KEY_F1'',
     ''KEY_F2'', ''KEY_F3'', ''KEY_F4'', ''KEY_F5'', ''KEY_F6'', ''KEY_F7'', ''KEY_F8'', ''KEY_F9'',
     ''KEY_F10'', ''KEY_F11'', ''KEY_F12'', ''KEY_DL'', ''KEY_IL'', ''KEY_DC'', ''KEY_IC'', ''KEY_EIC'',
     ''KEY_CLEAR'', ''KEY_EOS'', ''KEY_EOL'', ''KEY_SF'', ''KEY_SR'', ''KEY_PAGEDOWN'', ''KEY_PAGEUP'',
     ''KEY_STAB'', ''KEY_CTAB'', ''KEY_CATAB'', ''KEY_PRINT'', ''KEY_LL'', ''KEY_A1'', ''KEY_A3'',
     ''KEY_B2'', ''KEY_C1'', ''KEY_C3'', ''KEY_BTAB'', ''KEY_BEG'', ''KEY_CANCEL'', ''KEY_CLOSE'',
     ''KEY_COMMAND'', ''KEY_COPY'', ''KEY_CREATE'', ''KEY_END'', ''KEY_EXIT'', ''KEY_FIND'',
     ''KEY_HELP'', ''KEY_MARK'', ''KEY_MESSAGE'', ''KEY_MOVE'', ''KEY_NEXT'', ''KEY_OPEN'',
     ''KEY_OPTIONS'', ''KEY_PREVIOUS'', ''KEY_REDO'', ''KEY_REFERENCE'', ''KEY_REFRESH'',
     ''KEY_REPLACE'', ''KEY_RESTART'', ''KEY_RESUME'', ''KEY_SAVE'', ''KEY_SBEG'', ''KEY_SCANCEL'',
     ''KEY_SCOMMAND'', ''KEY_SCOPY'', ''KEY_SCREATE'', ''KEY_SDC'', ''KEY_SDL'', ''KEY_SELECT'',
     ''KEY_SEND'', ''KEY_SEOL'', ''KEY_SEXIT'', ''KEY_SFIND'', ''KEY_SHELP'', ''KEY_SHOME'',
     ''KEY_SIC'', ''KEY_SLEFT'', ''KEY_SMESSAGE'', ''KEY_SMOVE'', ''KEY_SNEXT'', ''KEY_SOPTIONS'',
     ''KEY_SPREVIOUS'', ''KEY_SPRINT'', ''KEY_SREDO'', ''KEY_SREPLACE'', ''KEY_SRIGHT'', ''KEY_SRSUME'',
     ''KEY_SSAVE'', ''KEY_SSUSPEND'', ''KEY_SUNDO'', ''KEY_SUSPEND'', ''KEY_UNDO'', ''KEY_MOUSE'',
     ''KEY_RESIZE'', ''KEY_MAX'']"

text \<open>\<open>handleInput\<close>: the line returned, the window, and what is drawn.\<close>

definition handleInput ::
  "(string \<Rightarrow> int) \<Rightarrow> (int \<Rightarrow> string) \<Rightarrow> int \<Rightarrow> int \<times> int \<Rightarrow> chatWin \<Rightarrow> string \<times> chatWin \<times> win_effect list" where
  "handleInput nc KeyString k cursor cw =
     (if k = 0 then ([], cw, [])
      else
        (let k = (if k = 127 then nc ''KEY_BACKSPACE'' else k)
         in if k = nc ''KEY_BACKSPACE''
            then ([], (if length (line cw) > 0 then cw\<lparr>line := butlast (line cw)\<rparr> else cw),
                  delete_left 3 cw (fst cursor) (snd cursor) @ [Refresh])
            else if k = nc ''KEY_RETURN'' \<or> k = nc ''KEY_ENTER''
            then (line cw, cw\<lparr>line := []\<rparr>, [Erase, Print PROMPT])
            else if k \<in> nc ` set ignored_keys then ([], cw, [])
            else ([], cw\<lparr>line := line cw @ KeyString k\<rparr>, [])))"

section \<open>The dialogue\<close>

datatype window = Chats | MessageWin

text \<open>
  One turn of the loop of \<open>dialog\<close>: a message from the handler, or a key with the cursor of the message window.  The turn
  gives the messages sent to \<open>cw.msgs\<close> and what is drawn in which window, \<open>chats_y\<close> being the cursor's line in the
  chat window.
\<close>

datatype turn = Incoming chat_message int | KeyPressed int "int \<times> int"

fun dialog_turn ::
  "(string \<Rightarrow> int) \<Rightarrow> (int \<Rightarrow> string) \<Rightarrow> turn \<Rightarrow> chatWin \<Rightarrow>
   chatWin \<times> chat_message list \<times> (window \<times> win_effect) list" where
  "dialog_turn nc KeyString (Incoming msg chats_y) cw =
     (cw, [], [(Chats, MovePrint (chats_y + 1) 1 (From msg @ '': '' @ Message msg)), (Chats, Refresh), (MessageWin, Refresh)])"
| "dialog_turn nc KeyString (KeyPressed k cursor) cw =
     (let (l, cw, effs) = handleInput nc KeyString k cursor cw
      in (cw, if l \<noteq> [] then [\<lparr>From = username cw, Message = l\<rparr>] else [],
          map (Pair MessageWin) effs))"

fun dialog ::
  "(string \<Rightarrow> int) \<Rightarrow> (int \<Rightarrow> string) \<Rightarrow> turn list \<Rightarrow> chatWin \<Rightarrow> chatWin \<times> chat_message list" where
  "dialog nc KeyString [] cw = (cw, [])"
| "dialog nc KeyString (t # ts) cw =
     (let (cw, out, effs) = dialog_turn nc KeyString t cw; (cw, outs) = dialog nc KeyString ts cw
      in (cw, out @ outs))"

section \<open>The client\<close>

text \<open>The message that the handler of the subscription passes on, when it passes one on.\<close>

definition chat_handler :: "glist \<Rightarrow> dict \<Rightarrow> chat_message option" where
  "chat_handler args kwargs =
     (case args of
        Some [VString from, VString msg] \<Rightarrow> Some \<lparr>From = from, Message = msg\<rparr>
      | _ \<Rightarrow> None)"

text \<open>\<open>sendMessages\<close>: what is published for a message.\<close>

definition chat_publish :: "64 word \<Rightarrow> chat_message \<Rightarrow> message" where
  "chat_publish draw msg =
     client_Publish_msg draw ''chat'' None (Some [VString (From msg), VString (Message msg)]) None"


section \<open>From the keyboard to the other windows\<close>

text \<open>A key that the switch passes on to its last case.\<close>

definition text_key :: "(string \<Rightarrow> int) \<Rightarrow> int \<Rightarrow> bool" where
  "text_key nc k \<longleftrightarrow> k \<notin> {0, 127, nc ''KEY_BACKSPACE'', nc ''KEY_RETURN'', nc ''KEY_ENTER''} \<and> k \<notin> nc ` set ignored_keys"

abbreviation pressed :: "(int \<times> int \<times> int) list \<Rightarrow> turn list" where
  "pressed ks \<equiv> map (\<lambda>(k, cursor). KeyPressed k cursor) ks"

lemma dialog_text:
  "\<forall>x \<in> set ks. text_key nc (fst x) \<Longrightarrow>
   dialog nc KeyString (pressed ks @ ts) cw =
     dialog nc KeyString ts (cw\<lparr>line := line cw @ concat (map (KeyString \<circ> fst) ks)\<rparr>)"
proof (induction ks arbitrary: cw)
  case (Cons x ks)
  obtain k cur where x: "x = (k, cur)" by (cases x)
  with Cons.prems have "handleInput nc KeyString k cur cw = ([], cw\<lparr>line := line cw @ KeyString k\<rparr>, [])"
    by (auto simp: handleInput_def text_key_def)
  with Cons show ?case by (simp add: x)
qed simp

lemma dialog_backspaces:
  assumes "nc ''KEY_BACKSPACE'' \<noteq> 0"
  shows "dialog nc KeyString (pressed (map (Pair (nc ''KEY_BACKSPACE'')) curs) @ ts) cw =
     dialog nc KeyString ts (cw\<lparr>line := take (length (line cw) - length curs) (line cw)\<rparr>)"
proof (induction curs arbitrary: cw)
  case (Cons c curs)
  have "handleInput nc KeyString (nc ''KEY_BACKSPACE'') c cw =
      ([], cw\<lparr>line := butlast (line cw)\<rparr>, delete_left 3 cw (fst c) (snd c) @ [Refresh])"
    using assms by (simp add: handleInput_def)
  with Cons.IH show ?case
    by (simp add: butlast_conv_take take_take min_def)
qed simp

lemma dialog_enter:
  assumes "nc ''KEY_ENTER'' \<notin> {0, 127, nc ''KEY_BACKSPACE''}"
  shows "dialog nc KeyString [KeyPressed (nc ''KEY_ENTER'') cur] cw =
     (cw\<lparr>line := []\<rparr>, if line cw \<noteq> [] then [\<lparr>From = username cw, Message = line cw\<rparr>] else [])"
  using assms by (simp add: handleInput_def)


section \<open>Property\<close>

lemma json_chat_publish:
  "json_via (chat_publish draw msg) = MPublish \<lparr>Publish_Request = NewID draw, Publish_Options = dict_make,
     Publish_Topic = ''chat'', Publish_Arguments = Some [VString (From msg), VString (Message msg)],
     Publish_ArgumentsKw = None\<rparr>"
  by (simp add: chat_publish_def client_Publish_msg_def json_via_def json_message_def omit_args_def omit_kwargs_def)

lemma json_chat_event:
  "json_via (MEvent \<lparr>Event_Subscription = i, Event_Publication = j, Event_Details = dict_make,
       Event_Arguments = Some [VString a, VString b], Event_ArgumentsKw = None\<rparr>) =
   MEvent \<lparr>Event_Subscription = i, Event_Publication = j, Event_Details = dict_make,
       Event_Arguments = Some [VString a, VString b], Event_ArgumentsKw = None\<rparr>"
  by (simp add: json_via_def json_message_def omit_args_def omit_kwargs_def)

lemma over_json_publish:
  assumes "json_codec marshal unmarshal" "ascii (From m)" "ascii (Message m)"
  shows "over_json p marshal unmarshal (chat_publish draw m) = Ok (json_via (chat_publish draw m))"
  by (rule over_json [OF assms(1)])
     (use assms(2,3) NewID_less [of draw] in \<open>simp_all add: chat_publish_def client_Publish_msg_def toList_def ascii_def\<close>)

lemma over_json_event:
  assumes "json_codec marshal unmarshal" "ascii a" "ascii b" "unat i \<le> 2 ^ 53" "unat j \<le> 2 ^ 53"
  defines "e \<equiv> MEvent \<lparr>Event_Subscription = i, Event_Publication = j, Event_Details = dict_make,
       Event_Arguments = Some [VString a, VString b], Event_ArgumentsKw = None\<rparr>"
  shows "over_json p marshal unmarshal e = Ok e"
  using over_json [OF assms(1), of e p] assms(2-5)
  by (simp add: e_def json_chat_event toList_def)

text \<open>
  C39. From one keyboard to the other windows: a user types a line of text keys and presses Enter; the window sends that
  line, once, and starts anew; its publication, through JSON, the broker and JSON again, makes every other
  client that is subscribed to the channel show exactly this line under the sender's name; the sender's own client is sent nothing, so that
  the sender does not see it.
\<close>

theorem chat_delivers:
  assumes keys: "\<forall>x \<in> set typed. text_key nc (fst x)" "nc ''KEY_ENTER'' \<notin> {0, 127, nc ''KEY_BACKSPACE''}"
    and shown: "text = concat (map (KeyString \<circ> fst) typed)" "text \<noteq> []" "ascii text" "ascii user"
    and json: "json_codec marshal unmarshal"
    and broker: "br_inv br" "map_order ord" "br_live br i = Some (''chat'', receiver)" "unat i \<le> 2 ^ 53"
    and receiver: "receiver \<noteq> sender" "fmlookup (events c) i = Some \<lparr>ev_topic = ''chat'', ev_handler = h\<rparr>"
  defines "m \<equiv> \<lparr>From = user, Message = text\<rparr>"
  shows "dialog nc KeyString (pressed typed @ [KeyPressed (nc ''KEY_ENTER'') cur]) (newChatWin user) = (newChatWin user, [m])
    \<and> (\<exists>pub e args kwargs.
         over_json p marshal unmarshal (chat_publish draw m) = Ok (MPublish pub)
         \<and> (receiver, MEvent e) \<in> set (broker_Publish ord draw' sender pub br)
         \<and> over_json p marshal unmarshal (MEvent e) = Ok (MEvent e)
         \<and> client_receive (MEvent e) c = Some (c, [CallsHandler h args kwargs])
         \<and> chat_handler args kwargs = Some m
         \<and> (\<forall>msg. (sender, msg) \<notin> set (broker_Publish ord draw' sender pub br)))
    \<and> snd (snd (dialog_turn nc KeyString (Incoming m y) (newChatWin user'))) =
        [(Chats, MovePrint (y + 1) 1 (user @ '': '' @ text)), (Chats, Refresh), (MessageWin, Refresh)]"
proof -
  let ?pub = "\<lparr>Publish_Request = NewID draw, Publish_Options = dict_make, Publish_Topic = ''chat'',
      Publish_Arguments = Some [VString user, VString text], Publish_ArgumentsKw = None\<rparr>"
  let ?e = "\<lparr>Event_Subscription = i, Event_Publication = NewID draw', Event_Details = dict_make,
      Event_Arguments = Some [VString user, VString text], Event_ArgumentsKw = None\<rparr>"
  have "dialog nc KeyString (pressed typed @ [KeyPressed (nc ''KEY_ENTER'') cur]) (newChatWin user) = (newChatWin user, [m])"
    unfolding dialog_text [OF keys(1)] dialog_enter [OF keys(2)]
    using shown(1,2) by (simp add: newChatWin_def m_def)
  moreover have "over_json p marshal unmarshal (chat_publish draw m) = Ok (MPublish ?pub)"
    using over_json_publish [OF json, of m p draw] shown(3,4) by (simp add: json_chat_publish m_def)
  moreover have evs: "set (broker_Publish ord draw' sender ?pub br) =
      {(s, MEvent ((event_template (NewID draw') ?pub)\<lparr>Event_Subscription := i\<rparr>)) | i s.
         br_live br i = Some (''chat'', s) \<and> s \<noteq> sender}"
    using publish_events [OF br_invD(1) [OF broker(1)] broker(2), of True sender "event_template (NewID draw') ?pub" "''chat''"]
    by (simp add: broker_Publish_def exclude_publisher_def Let_def)
  moreover have "(receiver, MEvent ?e) \<in> set (broker_Publish ord draw' sender ?pub br)"
    unfolding evs using broker(3) receiver(1) by (auto simp: event_template_def)
  moreover have "\<forall>msg. (sender, msg) \<notin> set (broker_Publish ord draw' sender ?pub br)"
    unfolding evs by simp
  moreover have "over_json p marshal unmarshal (MEvent ?e) = Ok (MEvent ?e)"
    by (rule over_json_event [OF json]) (use shown(3,4) broker(4) NewID_less [of draw'] in simp_all)
  moreover have "client_receive (MEvent ?e) c = Some (c, [CallsHandler h (Some [VString user, VString text]) None])"
    by (simp add: handleEvent_def receiver(2))
  moreover have "chat_handler (Some [VString user, VString text]) None = Some m"
    by (simp add: chat_handler_def m_def)
  ultimately show ?thesis by (simp add: m_def) blast
qed


text \<open>For the witness: key codes, a line of two keys, and session 1 subscribed to the channel as 7.\<close>

definition demo_nc :: "string \<Rightarrow> int" where
  "demo_nc s = (if s = ''KEY_ENTER'' then 343 else if s = ''KEY_BACKSPACE'' then 263 else if s = ''KEY_RETURN'' then 10 else 258)"

definition demo_key :: "int \<Rightarrow> string" where
  "demo_key k = (if k = 104 then ''h'' else ''i'')"

definition chat_broker :: defaultBroker where
  "chat_broker = fst (broker_Subscribe 7 1 (subscribe_msg ''chat'') NewDefaultBroker)"

lemma chat_broker: "br_inv chat_broker" "br_live chat_broker 7 = Some (''chat'', 1)"
  unfolding chat_broker_def
  by (rule br_inv_Subscribe [OF br_inv_New], simp)
     (simp add: br_live_Subscribe [OF br_inv_New br_fresh_New] NewID_id subscribe_msg_def)

theorem chat_delivers_witness:
  "\<exists>pub e. over_json demo_platform (\<lambda>xs. Inr (map json_view xs)) Inr (chat_publish 5 \<lparr>From = ''ann'', Message = ''hi''\<rparr>)
       = Ok (MPublish pub)
     \<and> (1, MEvent e) \<in> set (broker_Publish sorted_list_of_fset 9 2 pub chat_broker)
     \<and> Event_Arguments e = Some [VString ''ann'', VString ''hi'']"
proof -
  let ?typed = "[(104, 0, 2), (105, 0, 3)] :: (int \<times> int \<times> int) list"
  let ?c = "NewClient\<lparr>events := fmupd 7 \<lparr>ev_topic = ''chat'', ev_handler = 0\<rparr> fmempty\<rparr>"
  have k: "\<forall>x \<in> set ?typed. text_key demo_nc (fst x)" "demo_nc ''KEY_ENTER'' \<notin> {0, 127, demo_nc ''KEY_BACKSPACE''}"
    by (auto simp: text_key_def demo_nc_def split: if_splits)
  have t: "''hi'' = concat (map (demo_key \<circ> fst) ?typed)" by (simp add: demo_key_def)
  have a: "ascii ''hi''" "ascii ''ann''" "''hi'' \<noteq> []" by (simp_all add: ascii_def)
  have u: "unat (7 :: 64 word) \<le> 2 ^ 53" by simp
  have r: "(1 :: sess_ptr) \<noteq> 2" "fmlookup (events ?c) 7 = Some \<lparr>ev_topic = ''chat'', ev_handler = 0\<rparr>" by simp_all
  obtain pub e args kwargs where d:
    "over_json demo_platform (\<lambda>xs. Inr (map json_view xs)) Inr (chat_publish 5 \<lparr>From = ''ann'', Message = ''hi''\<rparr>) = Ok (MPublish pub)"
    "(1, MEvent e) \<in> set (broker_Publish sorted_list_of_fset 9 2 pub chat_broker)"
    "client_receive (MEvent e) ?c = Some (?c, [CallsHandler 0 args kwargs])"
    "chat_handler args kwargs = Some \<lparr>From = ''ann'', Message = ''hi''\<rparr>"
    using chat_delivers [OF k t a(3,1,2) json_codec_view chat_broker(1) map_order_sorted chat_broker(2) u r,
        of "(0, 4)" demo_platform 5 9 0 "''bob''"] by blast
  have "args = Event_Arguments e"
    using d(3) by (simp add: handleEvent_def split: option.splits)
  moreover have "args = Some [VString ''ann'', VString ''hi'']"
    using d(4) by (auto simp: chat_handler_def split: option.splits list.splits gval.splits)
  ultimately show ?thesis using d(1,2) by blast
qed

text \<open>
  Erasing: typed text, further text of \<open>n\<close> bytes, \<open>n\<close> backspaces and Enter send the first text alone.
\<close>

theorem erased_text_not_sent:
  assumes "\<forall>x \<in> set (typed @ extra). text_key nc (fst x)" and "nc ''KEY_ENTER'' \<notin> {0, 127, nc ''KEY_BACKSPACE''}"
    and "nc ''KEY_BACKSPACE'' \<noteq> 0" and "length curs = length (concat (map (KeyString \<circ> fst) extra))"
    and "concat (map (KeyString \<circ> fst) typed) \<noteq> []"
  shows "dialog nc KeyString (pressed (typed @ extra) @ pressed (map (Pair (nc ''KEY_BACKSPACE'')) curs)
       @ [KeyPressed (nc ''KEY_ENTER'') cur]) (newChatWin user) =
     (newChatWin user, [\<lparr>From = user, Message = concat (map (KeyString \<circ> fst) typed)\<rparr>])"
  unfolding dialog_text [OF assms(1)] dialog_backspaces [where nc = nc, OF assms(3)] dialog_enter [OF assms(2)]
  using assms(4,5) by (simp add: newChatWin_def)

theorem erased_text_not_sent_witness:
  "dialog demo_nc demo_key (pressed ([(104, 0, 2)] @ [(105, 0, 3)]) @ pressed (map (Pair (demo_nc ''KEY_BACKSPACE'')) [(0, 4)])
     @ [KeyPressed (demo_nc ''KEY_ENTER'') (0, 3)]) (newChatWin ''ann'') =
   (newChatWin ''ann'', [\<lparr>From = ''ann'', Message = concat (map (demo_key \<circ> fst) [(104, 0 :: int, 2 :: int)])\<rparr>])"
  by (rule erased_text_not_sent) (auto simp: text_key_def demo_nc_def demo_key_def split: if_splits)

text \<open>
  Past the left edge the cursor is moved to the column whose number is the window's count of rows, not to its last column.
\<close>

lemma moveLeft_wraps: "y > msgCols cw - MESSAGE_WIN_SIZE \<Longrightarrow> moveLeft cw y 0 = (y - 1, msgRows cw)"
  by (simp add: moveLeft_def)

end
