(* ===== verification/Example_Auth.thy ===== *)
theory Example_Auth
  imports Handshake Websocket_Peer
begin

text \<open>
  \<^verbatim>\<open>examples/auth\<close>: a challenge-response method built on the library, the server's
  authenticator and the client's function, joined over JSON.  The message authentication code \<open>hmac\<close>
  (key, data) and the challenge \<open>uuid\<close> drawn for a connection are arguments.
\<close>

record exampleAuth =
  ea_password :: string

definition exampleAuth_Challenge :: "string \<Rightarrow> exampleAuth \<Rightarrow> dict \<Rightarrow> go_error + dict" where
  "exampleAuth_Challenge uuid e details = Inr (Some (fmupd ''challenge'' (VString uuid) fmempty))"

definition exampleAuth_Authenticate ::
  "(string \<Rightarrow> string \<Rightarrow> 8 word list) \<Rightarrow> exampleAuth \<Rightarrow> dict \<Rightarrow> string \<Rightarrow> dict go_result" where
  "exampleAuth_Authenticate hmac e c signature =
     (case dict_get c ''challenge'' of
        Some (VString challenge) \<Rightarrow>
          (let expected = base64_encode (hmac (ea_password e) challenge)
           in if signature \<noteq> expected then Err ''Invalid password'' else Ok None)
      | _ \<Rightarrow> Panic)"

text \<open>The client's function; \<open>None\<close> is the end of the process in \<open>log.Fatal\<close>.\<close>

definition exampleAuthFunc ::
  "(string \<Rightarrow> string \<Rightarrow> 8 word list) \<Rightarrow> string \<Rightarrow> dict \<Rightarrow> dict \<Rightarrow> (go_error + string \<times> dict) option" where
  "exampleAuthFunc hmac password hello c =
     (case dict_get c ''challenge'' of
        Some (VString challenge) \<Rightarrow> Some (Inr (base64_encode (hmac password challenge), None))
      | _ \<Rightarrow> None)"

text \<open>
  As the realm and the client call them.  A realm calls \<open>Authenticate\<close> on what \<open>Challenge\<close> returned, and the client
  gets that challenge, so neither the panic nor the fatal exit occurs between the two (\<open>no_crash\<close>); elsewhere they
  are errors with texts of their own here.
\<close>

definition example_authenticator ::
  "(string \<Rightarrow> string \<Rightarrow> 8 word list) \<Rightarrow> string \<Rightarrow> exampleAuth \<Rightarrow> CRAuthenticator" where
  "example_authenticator hmac uuid e =
     \<lparr>CRAuthenticator_Challenge = exampleAuth_Challenge uuid e,
      CRAuthenticator_Authenticate = (\<lambda>c signature.
        case exampleAuth_Authenticate hmac e c signature of
          Ok d \<Rightarrow> Inr d | Err err \<Rightarrow> Inl err | Panic \<Rightarrow> Inl ''panic: interface conversion'')\<rparr>"

definition example_auth_func :: "(string \<Rightarrow> string \<Rightarrow> 8 word list) \<Rightarrow> string \<Rightarrow> AuthFunc" where
  "example_auth_func hmac password hello c =
     (case exampleAuthFunc hmac password hello c of Some res \<Rightarrow> res | None \<Rightarrow> Inl ''no challenge data recieved'')"

text \<open>The server of \<^verbatim>\<open>auth/server\<close> and the client of \<^verbatim>\<open>auth/client\<close>.\<close>

definition auth_server :: "(string \<Rightarrow> string \<Rightarrow> 8 word list) \<Rightarrow> string \<Rightarrow> router_error + WebsocketServer" where
  "auth_server hmac uuid =
     NewWebsocketServer [(''turnpike.examples'', zero_realm\<lparr>cfg_CRAuthenticators :=
        fmupd ''example-auth'' (example_authenticator hmac uuid \<lparr>ea_password = ''password''\<rparr>) fmempty\<rparr>)]"

definition auth_client :: "(string \<Rightarrow> string \<Rightarrow> 8 word list) \<Rightarrow> string \<Rightarrow> Client" where
  "auth_client hmac password = NewClient\<lparr>Auth := fmupd ''example-auth'' (example_auth_func hmac password) fmempty\<rparr>"

lemma no_crash:
  assumes "exampleAuth_Challenge uuid e d = Inr c"
  shows "exampleAuth_Authenticate hmac e c signature \<noteq> Panic" "exampleAuthFunc hmac password hello (json_dict c) \<noteq> None"
  using assms
  by (auto simp: exampleAuth_Challenge_def exampleAuth_Authenticate_def exampleAuthFunc_def json_dict_get Let_def
      split: if_splits)


section \<open>The handshake\<close>

interpretation example_handshake: cr_handshake json_via json_dict "''example-auth''"
    "example_authenticator hmac uuid e" "example_auth_func hmac password"
    "Some (fmupd ''challenge'' (VString uuid) fmempty)" "\<lambda>s. s = base64_encode (hmac (ea_password e) uuid)"
    "''Invalid password''" "base64_encode (hmac password uuid)" None
  for hmac uuid e password
proof unfold_locales
  fix d
  assume "details_authmethods d = Some [VString ''example-auth'']"
  then show "details_authmethods (json_dict d) = Some [VString ''example-auth'']"
    by (auto simp: details_authmethods_def json_dict_get split: option.splits gval.splits)
qed (simp_all add: json_via example_authenticator_def exampleAuth_Challenge_def exampleAuth_Authenticate_def
       example_auth_func_def exampleAuthFunc_def json_dict_get Let_def)

lemma base64_encode_inj: "base64_encode a = base64_encode b \<longleftrightarrow> a = b"
  by (metis base64_roundtrip fst_conv)

lemma RegisterProtocol_router: "srv_Router (fst (RegisterProtocol proto pt ser s)) = srv_Router s"
  by (cases "fmlookup (protocols s) proto") (simp_all add: RegisterProtocol_def)

lemma newWebsocketServer_router: "srv_Router (newWebsocketServer r) = r"
  by (simp add: newWebsocketServer_def RegisterProtocol_router Let_def)

lemma auth_server_realm:
  assumes "auth_server hmac uuid = Inr s"
  shows "\<not> closing (srv_Router s)" "sessionOpenCallbacks (srv_Router s) = []"
    and "\<exists>realm. fmlookup (realms (srv_Router s)) ''turnpike.examples'' = Some realm
      \<and> CRAuthenticators realm = fmupd ''example-auth'' (example_authenticator hmac uuid \<lparr>ea_password = ''password''\<rparr>) fmempty
      \<and> Authenticators realm = fmempty"
  using assms
  by (auto simp: auth_server_def NewWebsocketServer_def RegisterRealm_def NewDefaultRouter_def newWebsocketServer_router
      Realm_init_def zero_realm_def)



end
