(* ===== verification/Example_Rpc.thy ===== *)
theory Example_Rpc
  imports Handshake Msgpack_Props
begin

text \<open>
  \<^verbatim>\<open>examples/rpc\<close> and \<^verbatim>\<open>examples/rpc-with-options\<close>: the procedure \<open>alarm.set\<close>
  that the servers register, and the call their clients make.
\<close>

text \<open>
  The result, and the goroutine it starts: how long it sleeps, in nanoseconds, and what it then publishes (with the given draw).
  Indexing an empty or nil slice panics.
\<close>

definition alarmSet ::
  "platform \<Rightarrow> 64 word \<Rightarrow> glist \<Rightarrow> dict \<Rightarrow> (CallResult \<times> (64 word \<times> message) option) go_result" where
  "alarmSet p draw args kwargs =
     (case args of
        Some (VFloat64 duration # _) \<Rightarrow>
          Ok (\<lparr>CallResult_Args = Some [VString ''hello''], CallResult_Kwargs = None, CallResult_Err = []\<rparr>,
              Some (to_int64 p (VFloat64 duration) * 1000000000, client_Publish_msg draw ''alarm.ring'' None None None))
      | Some (_ # _) \<Rightarrow>
          Ok (\<lparr>CallResult_Args = None, CallResult_Kwargs = None, CallResult_Err = ''rpc-example.invalid-argument''\<rparr>, None)
      | _ \<Rightarrow> Panic)"

text \<open>The procedure of \<^verbatim>\<open>rpc-with-options\<close>, which only logs the details.\<close>

definition alarmSet_with_details ::
  "platform \<Rightarrow> 64 word \<Rightarrow> glist \<Rightarrow> dict \<Rightarrow> dict \<Rightarrow> (CallResult \<times> (64 word \<times> message) option) go_result" where
  "alarmSet_with_details p draw args kwargs details = alarmSet p draw args kwargs"

definition alarm_call :: "64 word \<Rightarrow> 64 word \<Rightarrow> message" where
  "alarm_call draw duration = snd (client_Call draw 0 ''alarm.set'' None (Some [VInt duration]) None NewClient)"

text \<open>
  The procedure only understands JSON: the client's call, through JSON, sets the alarm for the number of seconds asked for; through
  msgpack the same call is refused; and a call without arguments panics in a goroutine of the server's process.
\<close>

theorem alarm_by_format:
  assumes "\<bar>sint duration\<bar> \<le> 2 ^ 53"
  shows "(\<exists>m res. json_via (alarm_call draw duration) = MCall m \<and> Call_Procedure m = ''alarm.set''
      \<and> alarmSet p d (Call_Arguments m) (Call_ArgumentsKw m) =
          Ok (res, Some (duration * 1000000000, client_Publish_msg d ''alarm.ring'' None None None))
      \<and> CallResult_Args res = Some [VString ''hello''] \<and> CallResult_Err res = [])
    \<and> (\<exists>m res. omit_empty (msgpack_message ord (alarm_call draw duration)) = MCall m
      \<and> alarmSet p d (Call_Arguments m) (Call_ArgumentsKw m) = Ok (res, None)
      \<and> CallResult_Err res = ''rpc-example.invalid-argument'')
    \<and> alarmSet p d None None = Panic"
  using to_int64_view [OF assms, of p]
  by (simp add: alarm_call_def client_Call_def json_via_def json_message_def msgpack_message_def omit_args_def
      omit_kwargs_def alarmSet_def msgpack_num_def)

theorem alarm_by_format_witness:
  "\<exists>m res. json_via (alarm_call 1 5) = MCall m
     \<and> alarmSet demo_platform 2 (Call_Arguments m) (Call_ArgumentsKw m) =
         Ok (res, Some (5000000000, client_Publish_msg 2 ''alarm.ring'' None None None))"
  using alarm_by_format [of 5 1 demo_platform 2 sorted_list_of_fset] by auto

end
