(* ===== verification/Programs.thy ===== *)
theory Programs
  imports Strconv Chat Example_Auth Example_Rpc
begin

text \<open>
  The main functions: the router of \<^verbatim>\<open>turnpike/main.go\<close> and the programs of \<^verbatim>\<open>examples\<close>.  A main is a function of
  its surroundings to what it does and how it ends or where it stays.  Log output is left out.
\<close>

section \<open>A client program and its surroundings\<close>

text \<open>
  What becomes of a request that a program makes: the wait for the reply ends; or the connection has ended, so that
  one of the request's functions is sent on the closed channel \<open>acts\<close>, before or after its message is sent.
\<close>

datatype request_end = Woken peer_read | ActsClosed bool

record surroundings =
  sr_platform :: platform
  sr_order :: key_order
  sr_dial :: "string \<Rightarrow> string list \<Rightarrow> go_error + unit"
  sr_send :: "message \<Rightarrow> go_error option"
  sr_close :: "go_error option"
  sr_welcome :: peer_read
  sr_after_challenge :: peer_read
  sr_request :: "nat \<Rightarrow> request_end"
  sr_draw :: "nat \<Rightarrow> 64 word"
  sr_stdin :: "go_error + string"

datatype program_event = TurnpikeDebug | RedirectsLog | Prints string | Dials string | Does client_effect | Sleeps int

text \<open>The arguments of the fatal calls of \<open>log\<close>, which end the process with code 1.\<close>

datatype log_arg = LogText string | LogError go_error | LogAtoi string atoi_error | LogCall call_error

datatype http_handler = WebsocketHandler WebsocketServer | FileHandler string

record http_server =
  hs_addr :: string
  hs_handlers :: "(string \<times> http_handler) list"

datatype program_end =
    Fatals "log_arg list"
  | PanicsWith string
  | ExitsWith int
  | Finishes
  | WaitsForQuit Client
  | WaitsForReceiveDone Client
  | InDialog chatWin Client
  | Serves http_server

text \<open>The first request is number 0; its listener is the channel of that number.\<close>

definition run_request ::
  "surroundings \<Rightarrow> nat \<Rightarrow> Client \<times> message \<Rightarrow> client_effect list \<times> Client \<times> peer_read go_result" where
  "run_request sr n start =
     (let (c, msg) = start
      in case sr_request sr n of
           ActsClosed sent \<Rightarrow> (if sent then [CSends msg] else [], c, Panic)
         | Woken rd \<Rightarrow>
             (case sr_send sr msg of
                Some err \<Rightarrow> ([CSends msg], c, Err err)
              | None \<Rightarrow> ([CSends msg], if rd = ReadClosed then c else listener_delete (NewID (sr_draw sr n)) c, Ok rd)))"

definition error_result :: "go_error option \<Rightarrow> unit go_result" where
  "error_result e = (case e of None \<Rightarrow> Ok () | Some err \<Rightarrow> Err err)"

definition run_Subscribe ::
  "surroundings \<Rightarrow> nat \<Rightarrow> string \<Rightarrow> dict \<Rightarrow> EventHandler \<Rightarrow> Client \<Rightarrow> client_effect list \<times> Client \<times> unit go_result" where
  "run_Subscribe sr n topic options fn c =
     (case run_request sr n (client_Subscribe (sr_draw sr n) n topic options c) of
        (effs, c, Panic) \<Rightarrow> (effs, c, Panic)
      | (effs, c, Err err) \<Rightarrow> (effs, c, Err err)
      | (effs, c, Ok rd) \<Rightarrow>
          (let (c, e) = client_Subscribe_done (sr_platform sr) (sr_order sr) topic fn rd c in (effs, c, error_result e)))"

definition run_Register ::
  "surroundings \<Rightarrow> nat \<Rightarrow> string \<Rightarrow> MethodHandler \<Rightarrow> dict \<Rightarrow> Client \<Rightarrow> client_effect list \<times> Client \<times> unit go_result" where
  "run_Register sr n procedure fn options c =
     (case run_request sr n (client_Register (sr_draw sr n) n procedure options c) of
        (effs, c, Panic) \<Rightarrow> (effs, c, Panic)
      | (effs, c, Err err) \<Rightarrow> (effs, c, Err err)
      | (effs, c, Ok rd) \<Rightarrow>
          (let (c, e) = client_Register_done (sr_platform sr) (sr_order sr) procedure fn rd c in (effs, c, error_result e)))"

text \<open>\<open>None\<close> is the panic.\<close>

definition run_Call ::
  "surroundings \<Rightarrow> nat \<Rightarrow> string \<Rightarrow> dict \<Rightarrow> glist \<Rightarrow> dict \<Rightarrow> Client \<Rightarrow>
   client_effect list \<times> Client \<times> (call_error + Result) option" where
  "run_Call sr n procedure options args kwargs c =
     (case run_request sr n (client_Call (sr_draw sr n) n procedure options args kwargs c) of
        (effs, c, Panic) \<Rightarrow> (effs, c, None)
      | (effs, c, Err err) \<Rightarrow> (effs, c, Some (Inl (PlainError err)))
      | (effs, c, Ok rd) \<Rightarrow> (effs, c, Some (client_Call_done (sr_platform sr) (sr_order sr) procedure rd)))"

text \<open>What every client program begins with: connecting with JSON and joining the realm, with the given functions for authentication.\<close>

definition start_client ::
  "surroundings \<Rightarrow> string \<Rightarrow> (string, AuthFunc) fmap \<Rightarrow> program_event list \<times> (go_error + Client)" where
  "start_client sr url auth =
     (case NewWebsocketClient (sr_platform sr) (sr_dial sr url) JSON_serialization of
        Inl err \<Rightarrow> ([Dials url], Inl err)
      | Inr (conn, peer, c) \<Rightarrow>
          (let c = c\<lparr>Auth := auth\<rparr>;
               (effs, res) = JoinRealm (sr_platform sr) (sr_order sr) c (sr_send sr) (sr_welcome sr)
                               (sr_after_challenge sr) ''turnpike.examples'' None
           in (Dials url # map Does effs, case res of Inl err \<Rightarrow> Inl err | Inr details \<Rightarrow> Inr c)))"

definition fatal :: "string \<Rightarrow> go_error \<Rightarrow> program_end" where
  "fatal s err = Fatals [LogText s, LogError err]"

section \<open>The alarm clients\<close>

text \<open>
  The main of \<^verbatim>\<open>rpc-client\<close>, with the options of its call: nil, and in \<^verbatim>\<open>rpc-with-options\<close> the ones below.  The
  error of \<open>Subscribe\<close> is not looked at.  Handler 0 is the one that rings.
\<close>

definition rpc_client_main :: "surroundings \<Rightarrow> dict \<Rightarrow> program_event list \<times> program_end" where
  "rpc_client_main sr options =
     (case start_client sr ''ws://localhost:8000/'' fmempty of
        (evs, Inl err) \<Rightarrow> (TurnpikeDebug # evs, Fatals [LogError err])
      | (evs, Inr c) \<Rightarrow>
          (let (effs, c, res) = run_Subscribe sr 0 ''alarm.ring'' None 0 c;
               evs = TurnpikeDebug # evs @ map Does effs
           in if res = Panic then (evs, PanicsWith ''send on closed channel'')
              else (let evs = evs @ [Prints ''Enter the timer duration: '']
                    in case sr_stdin sr of
                         Inl err \<Rightarrow> (evs, fatal ''reading stdin:'' err)
                       | Inr text \<Rightarrow>
                           (case Atoi text of
                              Inl err \<Rightarrow> (evs, Fatals [LogText ''invalid integer input:'', LogAtoi text err])
                            | Inr duration \<Rightarrow>
                                (let (effs, c, res) = run_Call sr 1 ''alarm.set'' options (Some [VInt duration]) None c;
                                     evs = evs @ map Does effs
                                 in case res of
                                      None \<Rightarrow> (evs, PanicsWith ''send on closed channel'')
                                    | Some (Inl err) \<Rightarrow> (evs, Fatals [LogText ''error setting alarm:'', LogCall err])
                                    | Some (Inr _) \<Rightarrow> (evs, WaitsForQuit c))))))"

definition disclose_options :: dict where
  "disclose_options = Some (fmupd ''disclose_me'' (VBool True) fmempty)"

definition rpc_options_client_main :: "surroundings \<Rightarrow> program_event list \<times> program_end" where
  "rpc_options_client_main sr = rpc_client_main sr disclose_options"

text \<open>The handler; then \<open>main\<close>, which waits for \<open>quit\<close>, returns.  The error of \<open>Close\<close> is not looked at.\<close>

definition alarm_ring :: "surroundings \<Rightarrow> program_event list \<times> program_end" where
  "alarm_ring sr =
     (Prints ''The alarm rang!'' # map Does (fst (client_Close (sr_send sr) (sr_close sr))), Finishes)"

section \<open>The other clients\<close>

text \<open>
  \<^verbatim>\<open>meta-api\<close>: handlers 0 and 1 are \<open>onJoin\<close> and \<open>onLeave\<close>, which log the first argument after
  a text and panic without arguments.
\<close>

definition meta_handler :: "string \<Rightarrow> glist \<Rightarrow> (string \<times> gval) go_result" where
  "meta_handler s args = (case args of Some (v # _) \<Rightarrow> Ok (s, v) | _ \<Rightarrow> Panic)"

definition onJoin :: "glist \<Rightarrow> (string \<times> gval) go_result" where
  "onJoin = meta_handler ''session joined:''"

definition onLeave :: "glist \<Rightarrow> (string \<times> gval) go_result" where
  "onLeave = meta_handler ''session left:''"

definition meta_client_main :: "surroundings \<Rightarrow> program_event list \<times> program_end" where
  "meta_client_main sr =
     (case start_client sr ''ws://localhost:8000/'' fmempty of
        (evs, Inl err) \<Rightarrow> (evs, Fatals [LogError err])
      | (evs, Inr c) \<Rightarrow>
          (case run_Subscribe sr 0 ''wamp.session.on_join'' None 0 c of
             (effs, c, Panic) \<Rightarrow> (evs @ map Does effs, PanicsWith ''send on closed channel'')
           | (effs, c, Err err) \<Rightarrow> (evs @ map Does effs, fatal ''Error subscribing to channel:'' err)
           | (effs, c, Ok _) \<Rightarrow>
               (let evs = evs @ map Does effs
                in case run_Subscribe sr 1 ''wamp.session.on_leave'' None 1 c of
                     (effs, c, Panic) \<Rightarrow> (evs @ map Does effs, PanicsWith ''send on closed channel'')
                   | (effs, c, Err err) \<Rightarrow> (evs @ map Does effs, fatal ''Error subscribing to channel:'' err)
                   | (effs, c, Ok _) \<Rightarrow> (evs @ map Does effs, WaitsForReceiveDone c))))"

text \<open>
  \<^verbatim>\<open>chatclient\<close>, given \<open>os.Args\<close>, what \<open>os.Stderr.Stat\<close> says (an error, or whether it is a device)
  and whether the null device can be opened.
\<close>

definition chat_client_main ::
  "surroundings \<Rightarrow> string list \<Rightarrow> go_error + bool \<Rightarrow> bool \<Rightarrow> program_event list \<times> program_end" where
  "chat_client_main sr args stderr devnull =
     (if length args \<noteq> 2
      then ([], if args = [] then PanicsWith ''index out of range''
                else Fatals [LogText (''Usage: '' @ hd args @ '' <username>'')])
      else case stderr of
        Inl err \<Rightarrow> ([], fatal ''Error checking stderr:'' err)
      | Inr device \<Rightarrow>
          (if device \<and> \<not> devnull then ([], Fatals [LogText ''Error redirecting stderr''])
           else (case start_client sr ''ws://localhost:8000/'' fmempty of
                   (evs, Inl err) \<Rightarrow> ((if device then [RedirectsLog] else []) @ evs, Fatals [LogError err])
                 | (evs, Inr c) \<Rightarrow>
                     (let (effs, c, res) = run_Subscribe sr 0 ''chat'' None 0 c
                      in ((if device then [RedirectsLog] else []) @ evs @ map Does effs,
                          case res of
                            Panic \<Rightarrow> PanicsWith ''send on closed channel''
                          | Err err \<Rightarrow> fatal ''Error subscribing to chat channel:'' err
                          | Ok _ \<Rightarrow> InDialog (newChatWin (args ! 1)) c)))))"

text \<open>
  \<^verbatim>\<open>auth/client\<close>, given what \<open>gopass.GetPasswd\<close> returns.  Its function for authentication ends the process itself when
  the challenge has no text, where \<open>auth_client\<close> has an error and the client an ABORT for it.
\<close>

definition auth_client_main ::
  "(string \<Rightarrow> string \<Rightarrow> 8 word list) \<Rightarrow> surroundings \<Rightarrow> go_error + string \<Rightarrow> program_event list \<times> program_end" where
  "auth_client_main hmac sr passwd =
     (let hints = [TurnpikeDebug, Prints (''Hint: the password is '' @ [CHR 0x27] @ ''password'' @ [CHR 0x27]), Prints ''Password: '']
      in case passwd of
           Inl err \<Rightarrow> (hints, Fatals [LogError err])
         | Inr password \<Rightarrow>
             (case start_client sr ''ws://localhost:8000/ws'' (Auth (auth_client hmac password)) of
                (evs, Inl err) \<Rightarrow>
                  (if Does (CSends abortAuthFailure) \<in> set evs
                   then (hints @ take 2 evs, Fatals [LogText ''no challenge data recieved''])
                   else (hints @ evs, Fatals [LogError err]))
              | (evs, Inr c) \<Rightarrow>
                  (hints @ evs @ [Prints ''Connected with auth'', Sleeps 3000000000, Prints ''Disconnecting'']
                     @ map Does (fst (client_Close (sr_send sr) (sr_close sr))), Finishes)))"

section \<open>The servers\<close>

text \<open>
  A server that has been configured is served until \<open>ListenAndServe\<close> returns; its error is fatal (\<open>serving_ends\<close>).  The
  error of \<open>NewWebsocketServer\<close> is dropped by \<open>NewBasicWebsocketServer\<close>; it does not occur (\<open>basic_server\<close> below).
\<close>

definition serving_ends :: "go_error \<Rightarrow> program_end" where
  "serving_ends err = Fatals [LogError err]"

definition serve_basic :: "URI \<Rightarrow> string \<Rightarrow> (WebsocketServer \<Rightarrow> (string \<times> http_handler) list) \<Rightarrow> program_end" where
  "serve_basic uri addr handlers =
     (case NewBasicWebsocketServer uri of
        Inl err \<Rightarrow> PanicsWith ''nil pointer dereference''
      | Inr s \<Rightarrow> Serves \<lparr>hs_addr = addr, hs_handlers = handlers s\<rparr>)"

text \<open>
  \<^verbatim>\<open>turnpike/main.go\<close>: the variables that the flags set, their defaults, and \<open>main\<close>.  \<open>flag.Parse\<close> is an argument:
  it gives the variables their values, or ends the process with a code.  On an interrupt the router is closed.
\<close>

record flags =
  fl_realm :: string
  fl_port :: "64 word"
  fl_debug :: bool

definition turnpike_defaults :: flags where
  "turnpike_defaults = \<lparr>fl_realm = ''realm1'', fl_port = 8000, fl_debug = False\<rparr>"

definition all_paths :: "WebsocketServer \<Rightarrow> (string \<times> http_handler) list" where
  "all_paths s = [(''/'', WebsocketHandler s)]"

definition turnpike_main :: "(flags \<Rightarrow> int + flags) \<Rightarrow> program_event list \<times> program_end" where
  "turnpike_main parse =
     (case parse turnpike_defaults of
        Inl code \<Rightarrow> ([], ExitsWith code)
      | Inr f \<Rightarrow>
          (if fl_debug f then [TurnpikeDebug] else [],
           serve_basic (fl_realm f) (CHR '':'' # int_text (sint (fl_port f))) all_paths))"

definition turnpike_interrupt ::
  "(URI fset \<Rightarrow> URI list) \<Rightarrow> WebsocketServer \<Rightarrow> WebsocketServer \<times> URI list \<times> program_event list \<times> program_end" where
  "turnpike_interrupt ord s =
     (let (r, uris, err) = router_Close ord (srv_Router s)
      in (s\<lparr>srv_Router := r\<rparr>, uris, [Sleeps 1000000000], ExitsWith 1))"

text \<open>\<^verbatim>\<open>chatserver\<close> and \<^verbatim>\<open>autobahn/server\<close>, which are the same program, and \<^verbatim>\<open>web\<close>.\<close>

definition chat_server_main :: "program_event list \<times> program_end" where
  "chat_server_main = ([TurnpikeDebug], serve_basic ''turnpike.examples'' '':8000'' all_paths)"

definition autobahn_server_main :: "program_event list \<times> program_end" where
  "autobahn_server_main = ([TurnpikeDebug], serve_basic ''turnpike.examples'' '':8000'' all_paths)"

definition web_server_main :: "program_event list \<times> program_end" where
  "web_server_main =
     ([TurnpikeDebug], serve_basic ''turnpike.chat.realm'' '':8000''
        (\<lambda>s. [(''/'', FileHandler ''.''), (''/ws'', WebsocketHandler s)]))"

definition auth_server_main :: "(string \<Rightarrow> string \<Rightarrow> 8 word list) \<Rightarrow> string \<Rightarrow> program_event list \<times> program_end" where
  "auth_server_main hmac uuid =
     ([TurnpikeDebug],
      case auth_server hmac uuid of
        Inl err \<Rightarrow> PanicsWith (''error creating websocket server: '' @ router_error_Error err)
      | Inr s \<Rightarrow> Serves \<lparr>hs_addr = '':8000'', hs_handlers = [(''/ws'', WebsocketHandler s)]\<rparr>)"

text \<open>
  The alarm servers register their procedure through a local client, whose identifier is drawn with \<open>draw\<close>; they
  differ in the procedure.  In the client's table it is known by its result; the timer it starts is in \<open>alarmSet\<close>.
\<close>

definition alarm_result :: "(CallResult \<times> 'a) go_result \<Rightarrow> CallResult" where
  "alarm_result res =
     (case res of Ok (r, timer) \<Rightarrow> r
      | _ \<Rightarrow> \<lparr>CallResult_Args = None, CallResult_Kwargs = None, CallResult_Err = []\<rparr>)"

definition alarm_server :: "surroundings \<Rightarrow> 64 word \<Rightarrow> MethodHandler \<Rightarrow> program_event list \<times> program_end" where
  "alarm_server sr draw fn =
     (case NewBasicWebsocketServer ''turnpike.examples'' of
        Inl err \<Rightarrow> ([TurnpikeDebug], PanicsWith ''nil pointer dereference'')
      | Inr s \<Rightarrow>
          (case GetLocalClient draw ''turnpike.examples'' None s of
             Inl err \<Rightarrow> ([TurnpikeDebug], PanicsWith ''nil pointer dereference'')
           | Inr (sess, c) \<Rightarrow>
               (let (effs, c, res) = run_Register sr 0 ''alarm.set'' fn dict_make c;
                    evs = TurnpikeDebug # map Does effs
                in case res of
                     Panic \<Rightarrow> (evs, PanicsWith ''send on closed channel'')
                   | Err err \<Rightarrow> (evs, PanicsWith err)
                   | Ok _ \<Rightarrow> (evs, Serves \<lparr>hs_addr = '':8000'', hs_handlers = all_paths s\<rparr>))))"

definition rpc_server_main :: "surroundings \<Rightarrow> 64 word \<Rightarrow> program_event list \<times> program_end" where
  "rpc_server_main sr draw =
     alarm_server sr draw (basic_handler (\<lambda>args kwargs. alarm_result (alarmSet (sr_platform sr) (sr_draw sr 1) args kwargs)))"

definition rpc_options_server_main :: "surroundings \<Rightarrow> 64 word \<Rightarrow> program_event list \<times> program_end" where
  "rpc_options_server_main sr draw =
     alarm_server sr draw (\<lambda>args kwargs details.
       alarm_result (alarmSet_with_details (sr_platform sr) (sr_draw sr 1) args kwargs details))"

section \<open>Facts\<close>

lemma basic_server:
  "NewBasicWebsocketServer uri =
     Inr (newWebsocketServer (NewDefaultRouter\<lparr>realms := fmupd uri (Realm_init zero_realm) fmempty\<rparr>))"
  by (simp add: NewBasicWebsocketServer_def NewWebsocketServer_def RegisterRealm_def NewDefaultRouter_def)

lemma new_server_router: "srv_Router (newWebsocketServer r) = r"
  by (simp add: newWebsocketServer_def RegisterProtocol_def Let_def jsonWebsocketProtocol_def msgpackWebsocketProtocol_def
      TextMessage_def BinaryMessage_def)

lemmas served = basic_server new_server_router serve_basic_def all_paths_def

end
