(* ===== verification/Programs_Props.thy ===== *)
theory Programs_Props
  imports Programs
begin

text \<open>
  What the main functions do: the router of \<^verbatim>\<open>turnpike/main.go\<close>, and the alarm from the number that is
  typed to the time that the server sleeps.
\<close>

section \<open>The router\<close>

lemma zero_realm_auth: "handleAuth (Realm_init zero_realm) send rd d = ([], Ok \<lparr>Welcome_Id = 0, Welcome_Details = None\<rparr>)"
  by (simp add: handleAuth_def authenticate_def Realm_init_def zero_realm_def)

lemma basic_accept:
  assumes "r = NewDefaultRouter\<lparr>realms := fmupd uri (Realm_init zero_realm) fmempty\<rparr>"
  shows "(\<And>m. send m = None) \<Longrightarrow>
      \<exists>effs sess. router_Accept r send (hello_to uri d) rd draw = (effs, Accepted sess) \<and> Session_Id sess = NewID draw"
    and "uri' \<noteq> uri \<Longrightarrow>
      router_Accept r send (hello_to uri' d) rd draw = (abort None ErrNoSuchRealm, Refused (NoSuchRealmError uri'))"
    and "router_Close ord r = (r\<lparr>closing := True\<rparr>, ord {|uri|}, None)"
  using assms
  by (simp_all add: router_Accept_def hello_to_def zero_realm_auth accept_welcome_def Let_def NewDefaultRouter_def router_Close_def)

lemma closing_accept:
  "closing r \<Longrightarrow> router_Accept r send rd1 rd2 draw = (abort None ErrSystemShutdown,
     Refused (GoError ''Router is closing, no new connections are allowed''))"
  by (simp add: router_Accept_def)



section \<open>The alarm clients\<close>

text \<open>What each of the steps adds to the events that are calls, and to the tables of the client.\<close>

lemma await_calls: "CSends (MCall m) \<notin> set (fst (await_welcome p ord rd))"
  by (auto simp: await_welcome_def give_up_def abortUnexpectedMsg_def split: sum.split message.split)

lemma joinCRA_calls: "CSends (MCall m) \<notin> set (fst (joinRealmCRA p ord c send rd1 rd2 realm d))"
  by (simp add: joinRealmCRA_def Let_def give_up_def abortUnexpectedMsg_def abortNoAuthHandler_def abortAuthFailure_def
      case_prod_beta await_calls split: sum.split option.split message.split)

lemma join_calls: "CSends (MCall m) \<notin> set (fst (JoinRealm p ord c send rd1 rd2 realm d))"
  by (simp add: JoinRealm_def Let_def give_up_def case_prod_beta await_calls joinCRA_calls split: option.split)

lemma start_client_calls:
  assumes "start_client sr url auth = (evs, res)"
  shows "Does (CSends (MCall m)) \<notin> set evs" "res = Inr c \<Longrightarrow> c = NewClient\<lparr>Auth := auth\<rparr>"
proof -
  show "Does (CSends (MCall m)) \<notin> set evs"
    using assms join_calls [of m "sr_platform sr" "sr_order sr" "NewClient\<lparr>Auth := auth\<rparr>" "sr_send sr"
        "sr_welcome sr" "sr_after_challenge sr" "''turnpike.examples''" None]
    by (auto simp: start_client_def NewWebsocketClient_def Let_def split: sum.splits prod.splits)
  show "res = Inr c \<Longrightarrow> c = NewClient\<lparr>Auth := auth\<rparr>"
    using assms by (auto simp: start_client_def NewWebsocketClient_def Let_def split: sum.splits prod.splits)
qed

lemma run_request_sends: "run_request sr n (c, msg) = (effs, c', res) \<Longrightarrow> CSends m \<in> set effs \<Longrightarrow> m = msg"
  by (auto simp: run_request_def split: request_end.splits option.splits if_splits)

lemma run_Subscribe_calls: "run_Subscribe sr n topic options fn c = (effs, c', res) \<Longrightarrow> CSends (MCall m) \<notin> set effs"
  by (auto simp: run_Subscribe_def client_Subscribe_def dest!: run_request_sends split: prod.splits go_result.splits)

lemma run_Call_calls:
  "run_Call sr n procedure options args kwargs c = (effs, c', res) \<Longrightarrow> CSends (MCall m) \<in> set effs \<Longrightarrow>
   m = \<lparr>Call_Request = NewID (sr_draw sr n), Call_Options = options, Call_Procedure = procedure,
        Call_Arguments = args, Call_ArgumentsKw = kwargs\<rparr>"
  by (auto simp: run_Call_def client_Call_def dest!: run_request_sends split: prod.splits go_result.splits)

lemma rpc_client_calls:
  assumes "rpc_client_main sr options = (evs, stop)" and "Does (CSends (MCall m)) \<in> set evs"
  obtains typed duration where "sr_stdin sr = Inr typed" "Atoi typed = Inr duration"
    "m = \<lparr>Call_Request = NewID (sr_draw sr 1), Call_Options = options, Call_Procedure = ''alarm.set'',
          Call_Arguments = Some [VInt duration], Call_ArgumentsKw = None\<rparr>"
proof -
  obtain evs1 res1 where st: "start_client sr ''ws://localhost:8000/'' fmempty = (evs1, res1)" by fastforce
  note none1 = start_client_calls(1) [OF st, of m]
  then obtain c where c: "res1 = Inr c"
    using assms st by (cases res1) (auto simp: rpc_client_main_def)
  obtain effs2 c2 res2 where sub: "run_Subscribe sr 0 ''alarm.ring'' None 0 c = (effs2, c2, res2)"
    by (cases "run_Subscribe sr 0 ''alarm.ring'' None 0 c") auto
  note none2 = run_Subscribe_calls [OF sub, of m]
  have "res2 \<noteq> Panic"
    using assms st c sub none1 none2 by (auto simp: rpc_client_main_def)
  with assms st c sub none1 none2 obtain typed duration where typed: "sr_stdin sr = Inr typed" "Atoi typed = Inr duration"
    by (auto simp: rpc_client_main_def Let_def split: sum.splits)
  obtain effs3 c3 res3 where call: "run_Call sr 1 ''alarm.set'' options (Some [VInt duration]) None c2 = (effs3, c3, res3)"
    by (cases "run_Call sr 1 ''alarm.set'' options (Some [VInt duration]) None c2") auto
  have "CSends (MCall m) \<in> set effs3"
    using assms st c sub none1 none2 typed call \<open>res2 \<noteq> Panic\<close>
    by (auto simp: rpc_client_main_def Let_def split: sum.splits option.splits)
  from run_Call_calls [OF call this] typed show thesis by (intro that)
qed

text \<open>Where the program waits for the alarm, and with which tables.\<close>

lemma run_request_tables:
  "run_request sr n (c, msg) = (effs, c', res) \<Longrightarrow>
   events c' = events c \<and> (\<forall>rd. res = Ok rd \<longrightarrow> sr_request sr n = Woken rd)"
  by (auto simp: run_request_def listener_delete_def split: request_end.splits option.splits if_splits)

lemma run_Subscribe_events:
  assumes "run_Subscribe sr n topic options fn c = (effs, c', res)"
  shows "(events c' = events c \<and> res \<noteq> Ok ()) \<or>
    (\<exists>m. sr_request sr n = Woken (Got (MSubscribed m)) \<and> res = Ok ()
       \<and> events c' = fmupd (Subscribed_Subscription m) \<lparr>ev_topic = topic, ev_handler = fn\<rparr> (events c))"
proof -
  obtain effs1 c1 r where r: "run_request sr n (client_Subscribe (sr_draw sr n) n topic options c) = (effs1, c1, r)"
    by (cases "run_request sr n (client_Subscribe (sr_draw sr n) n topic options c)") auto
  have t: "events c1 = events c" "r = Ok rd \<Longrightarrow> sr_request sr n = Woken rd" for rd
    using run_request_tables [OF r [unfolded client_Subscribe_def]] by (simp_all add: registerListener_def)
  show ?thesis
  proof (cases r)
    case (Ok rd)
    with assms r t(1) t(2) [OF Ok] show ?thesis
      by (cases rd)
         (auto simp: run_Subscribe_def client_Subscribe_done_def error_result_def split: message.splits)
  qed (use assms r t(1) in \<open>auto simp: run_Subscribe_def\<close>)
qed

lemma run_Call_tables:
  "run_Call sr n procedure options args kwargs c = (effs, c', res) \<Longrightarrow>
   events c' = events c \<and> (\<forall>m. res = Some (Inr m) \<longrightarrow> sr_request sr n = Woken (Got (MResult m)))"
  by (auto simp: run_Call_def client_Call_def client_Call_done_def registerListener_def dest!: run_request_tables
      elim!: listener_end.elims split: prod.splits go_result.splits sum.splits message.splits)

text \<open>
  C36. From the number typed to the time slept: when the alarm client is given the text of an integer of at most 53 bits and sends its
  call, the call, through JSON, makes the server's procedure start a timer of that many seconds, in nanoseconds of 64 bits.  This is
  the time that was asked for up to 9223372036 seconds either way; beyond that it wraps around (\<open>alarm_wraps\<close>).
\<close>

theorem alarm_duration:
  assumes "rpc_client_main sr options = (evs, stop)" and "Does (CSends (MCall m)) \<in> set evs"
    and "sr_stdin sr = Inr (int_text k)" and "\<bar>k\<bar> \<le> 2 ^ 53"
  shows "\<exists>v res t. json_via (MCall m) = MCall v \<and> Call_Procedure v = ''alarm.set''
    \<and> alarmSet p d (Call_Arguments v) (Call_ArgumentsKw v) =
        Ok (res, Some (t, client_Publish_msg d ''alarm.ring'' None None None)) \<and> CallResult_Err res = []
    \<and> sint t = signed_take_bit 63 (k * 1000000000)
    \<and> (\<bar>k\<bar> \<le> 9223372036 \<longrightarrow> sint t = k * 1000000000)"
proof -
  obtain typed duration where call: "sr_stdin sr = Inr typed" "Atoi typed = Inr duration"
      "m = \<lparr>Call_Request = NewID (sr_draw sr 1), Call_Options = options, Call_Procedure = ''alarm.set'',
            Call_Arguments = Some [VInt duration], Call_ArgumentsKw = None\<rparr>"
    using rpc_client_calls [OF assms(1,2)] .
  have dur: "duration = word_of_int k"
    using call(1,2) assms(3,4) by (auto simp: Atoi_int_text split: if_splits)
  have sint_k: "sint (word_of_int x :: 64 word) = signed_take_bit 63 x" for x
    by (simp add: sint_sbintrunc')
  have k: "sint duration = k"
    unfolding dur sint_k by (rule signed_take_bit_int_eq_self) (use assms(4) in auto)
  have "duration * 1000000000 = word_of_int (k * 1000000000)" by (simp add: dur)
  then have t: "sint (duration * 1000000000) = signed_take_bit 63 (k * 1000000000)" by (simp only: sint_k)
  have "\<bar>k\<bar> \<le> 9223372036 \<Longrightarrow> signed_take_bit 63 (k * 1000000000) = k * 1000000000"
    by (rule signed_take_bit_int_eq_self) auto
  with t call(3) to_int64_view [of duration p] k assms(4) show ?thesis
    by (simp add: json_via_def json_message_def omit_args_def omit_kwargs_def alarmSet_def)
qed

text \<open>The first second that is too many makes the time negative, so that the alarm rings at once.\<close>

lemma alarm_wraps: "signed_take_bit 63 (9223372037 * 1000000000 :: int) = - 9223372036709551616"
  by (simp add: signed_take_bit_eq_take_bit_shift take_bit_eq_mod)

text \<open>Surroundings in which all goes well.\<close>

definition demo_alarm :: surroundings where
  "demo_alarm = \<lparr>sr_platform = demo_platform, sr_order = sorted_list_of_fset, sr_dial = (\<lambda>url protos. Inr ()),
     sr_send = (\<lambda>_. None), sr_close = None,
     sr_welcome = Got (MWelcome \<lparr>Welcome_Id = 1, Welcome_Details = None\<rparr>), sr_after_challenge = ReadTimeout,
     sr_request = (\<lambda>n. Woken (Got (if n = 0 then MSubscribed \<lparr>Subscribed_Request = 5, Subscribed_Subscription = 7\<rparr>
        else MResult \<lparr>Result_Request = 6, Result_Details = None, Result_Arguments = None, Result_ArgumentsKw = None\<rparr>))),
     sr_draw = (\<lambda>n. 5 + of_nat n), sr_stdin = Inr (int_text 5)\<rparr>"

definition demo_alarm_call :: Call where
  "demo_alarm_call = \<lparr>Call_Request = NewID 6, Call_Options = None, Call_Procedure = ''alarm.set'',
     Call_Arguments = Some [VInt 5], Call_ArgumentsKw = None\<rparr>"

lemma demo_alarm_run:
  "\<exists>evs c. rpc_client_main demo_alarm None = (evs, WaitsForQuit c) \<and> Does (CSends (MCall demo_alarm_call)) \<in> set evs"
proof -
  obtain evs c where st: "start_client demo_alarm ''ws://localhost:8000/'' fmempty = (evs, Inr c)"
    by (simp add: start_client_def NewWebsocketClient_def connect_peer_def NewWebsocketPeer_def newWebsocketPeer_def
        JSON_serialization_def demo_alarm_def JoinRealm_def await_welcome_def NewClient_def Let_def)
  have "Atoi (int_text 5) = Inr 5" by (simp add: Atoi_int_text)
  with st show ?thesis
    by (simp add: rpc_client_main_def run_Subscribe_def run_Call_def run_request_def client_Subscribe_def client_Call_def
        client_Subscribe_done_def client_Call_done_def error_result_def demo_alarm_def demo_alarm_call_def Let_def)
qed

theorem alarm_duration_witness:
  "\<exists>v res t. json_via (MCall demo_alarm_call) = MCall v
     \<and> alarmSet demo_platform 2 (Call_Arguments v) (Call_ArgumentsKw v) =
         Ok (res, Some (t, client_Publish_msg 2 ''alarm.ring'' None None None)) \<and> sint t = 5000000000"
proof -
  obtain evs c where r: "rpc_client_main demo_alarm None = (evs, WaitsForQuit c)"
      "Does (CSends (MCall demo_alarm_call)) \<in> set evs"
    using demo_alarm_run by blast
  have "sr_stdin demo_alarm = Inr (int_text 5)" by (simp add: demo_alarm_def)
  from alarm_duration [OF r this, of demo_platform 2] show ?thesis by auto
qed



end
