(* ===== verification/Spec2Isabelle.thy ===== *)
theory Spec2Isabelle
  imports Dealer_Runs Realm_Spec Realm_Close Serialize_Types Client_Props Websocket_Peer Log
    System_Props Wired Router_Steps Programs_Props
begin

text \<open>
  \<^bold>\<open>Turnpike, a WAMP router and client in Go.\<close>

  \<^bold>\<open>The program.\<close>  A router (\<^verbatim>\<open>router.go\<close>) holds realms by URI.  A peer that
  connects, over a websocket (\<^verbatim>\<open>websocket_server.go\<close>, \<^verbatim>\<open>websocket.go\<close>) or
  through a local pipe (\<^verbatim>\<open>session.go\<close>), sends HELLO; \<open>Accept\<close> authenticates it
  (\<^verbatim>\<open>realm.go\<close>, \<^verbatim>\<open>authentication.go\<close>), answers WELCOME or ABORT, and starts a
  session in the realm.  A realm (\<^verbatim>\<open>realm.go\<close>) runs one goroutine per session, which passes each
  message through the authorizer and the interceptor to the broker (\<^verbatim>\<open>broker.go\<close>: publish and
  subscribe) or the dealer (\<^verbatim>\<open>dealer.go\<close>: remote calls), and one goroutine \<open>run\<close> that executes the
  acts that touch the table of clients.  Its local client publishes who joins and leaves.  A client
  (\<^verbatim>\<open>client.go\<close>) joins a realm and offers requests; its goroutine \<open>Receive\<close> dispatches what arrives,
  and \<open>run\<close> owns its maps.  Messages (\<^verbatim>\<open>message.go\<close>) become lists of values and back
  (\<^verbatim>\<open>serialize.go\<close>), through JSON or msgpack.

  \<^bold>\<open>Theories and code.\<close>

  \<^item> \<open>Go_Prelude\<close>, \<open>Go_Values\<close>, \<open>Go_Reflect\<close>: maps as finite maps, iteration orders (\<open>map_order\<close>), the values
    of an \<open>interface{}\<close> with their dynamic types, and what is used of \<open>reflect\<close>.  Integers are words of their
    width; a \<open>float64\<close> is the rational it denotes, and integers are rounded to it as the hardware does.
  \<^item> \<open>Messages\<close>, \<open>Util\<close>, \<open>Peer\<close>, \<open>Session\<close>, \<open>Auth\<close>, \<open>Log\<close>: \<^verbatim>\<open>message.go\<close>, \<^verbatim>\<open>util.go\<close>,
    \<^verbatim>\<open>peer.go\<close>, the structs of \<^verbatim>\<open>session.go\<close>, \<^verbatim>\<open>authentication.go\<close> with
    \<^verbatim>\<open>authorizer.go\<close> and \<^verbatim>\<open>interceptor.go\<close>, \<^verbatim>\<open>log.go\<close>.  \<open>Session\<close> also holds the interface
    \<open>session_table\<close> and its extension \<open>unique_uri_table\<close>.
  \<^item> \<open>Local_Peer\<close>: channels, \<open>localPipe\<close> and its ends; the interface \<open>message_queue\<close>.
  \<^item> \<open>Broker\<close>, \<open>Dealer\<close>: the records \<open>defaultBroker\<close> and \<open>defaultDealer\<close> with the maps of the structs, one definition per
    method.  A method runs under its lock, so it is one step.  \<open>Dealer_Runs\<close> is about sequences of dealer steps.
  \<^item> \<open>Realm\<close>: the handshake and one turn of \<open>handleSession\<close>.  \<open>Realm_Steps\<close>: the goroutines of a realm as the step
    relation \<open>realm_step\<close> over the record \<open>world\<close>, each act divided where other goroutines can come in between.
    \<open>Realm_Answers\<close>: what a realm sends and to whom.
  \<^item> \<open>Router\<close>: \<open>Accept\<close>, realms, local peers, callbacks, \<open>Close\<close>.  \<open>Router_Steps\<close>: a router with its realms as the
    step relation \<open>router_step\<close>: connecting peers, the goroutines of every realm and the caller of \<open>Close\<close>.
  \<^item> \<open>Serialize\<close>, \<open>Base64\<close>: \<open>toList\<close>, \<open>apply\<close> field by field, both serializers, \<open>BinaryData\<close>.
  \<^item> \<open>Client\<close>: joining and leaving, the dispatch of messages, both halves of every request.  \<open>Client_Steps\<close>: \<open>run\<close>,
    \<open>Receive\<close> and any number of requests as the step relation \<open>client_step\<close>; \<open>Client_Runs\<close>: the same steps by
    what they send and receive.
  \<^item> \<open>System\<close>, \<open>System_Live\<close>, \<open>System_Props\<close>: a realm, its clients and a queue in each direction between them, as the step
    relation \<open>sys_step\<close>; the queues hold the messages as their connections represent them.  \<open>Links\<close>: what a
    connection, a local pipe or a websocket with its serializer, does to the messages it carries.  \<open>Wired\<close>: the same
    system with frames of bytes in its queues, written by \<open>Send\<close> and read by the reading loops of
    \<^verbatim>\<open>websocket.go\<close>.
  \<^item> \<open>Websocket\<close>, \<open>Websocket_Peer\<close>: the reading loop, \<open>Send\<close>, \<open>Close\<close>, the table of subprotocols, dialling and serving.
  \<^item> \<open>Example_Auth\<close>, \<open>Chat\<close>, \<open>Example_Rpc\<close>: the logic of the programs in \<^verbatim>\<open>examples/auth\<close>,
    \<^verbatim>\<open>examples/chat/chatclient\<close>, \<^verbatim>\<open>examples/rpc\<close> and \<^verbatim>\<open>examples/rpc-with-options\<close>.  \<open>Programs\<close>,
    \<open>Programs_Props\<close>: the main functions of \<^verbatim>\<open>turnpike/main.go\<close> and of all examples; \<open>Strconv\<close>: the integers
    they read and print.

  \<^bold>\<open>Correspondence.\<close>  A definition has the name of the function it models, prefixed by its type where the
  name is taken.  A method that returns a value and an error returns a sum; where it can panic it returns \<open>Ok\<close>, \<open>Err\<close> or
  \<open>Panic\<close>.  What a handler sends is the list of messages with their receivers, in order.  What the environment decides is an
  argument: the draw of the random generator, the order in which a map is iterated, the outcome of every
  wait for a message (a message, a closed channel or the time-out) and of every \<open>Send\<close>, and the functions of
  libraries outside the repository.  A session is identified by the address of its struct, as in the maps of the code.

  \<^bold>\<open>What the lemmas show.\<close>

  \<^item> Refinement.  \<open>Simulation\<close> proves once that a stepwise simulation relates runs.  \<open>Broker_Spec\<close> and \<open>Dealer_Spec\<close> give
    the tables a WAMP broker and dealer promise and show that the maps implement them (the dealer while no two
    pending calls share a request identifier, which the code does not ensure); \<open>Realm_Spec\<close> lifts both to all runs of a
    realm's goroutines.  The specification of the broker determines its output up to order, so iteration
    orders are not observable beyond it.
  \<^item> Invariants.  The maps of broker, dealer and realm agree in every reachable state (\<open>br_inv\<close>, \<open>dl_inv\<close>,
    \<open>Realm_Props\<close>); sessions that have left own nothing and get nothing; every call is answered at most once, by its own
    invocation.
  \<^item> Termination and liveness.  Between inputs a realm does at most nine steps for a session, one for a waiting
    message and seven more (\<open>Realm_Close\<close>), and closing it completes when its local pipe has room for the
    announcements; otherwise it can block for ever.  A client's request has at most five steps
    (\<open>request_work\<close>); waiting requests are woken when the connection ends, the others panic.
  \<^item> Round trips.  \<open>Wire_Codec\<close> states what a format must do to a field for whole messages to come back;
    \<open>Serialize_Props\<close> provides it for JSON (identifiers up to 2 to the 53rd), \<open>Msgpack_Props\<close> for msgpack
    (identifiers of any size, one class of maps on which decoding panics).  \<open>Serialize_Types\<close>: what a
    deserializer returns is well typed.  \<open>Base64\<close>: binary data.
  \<^item> Composition.  A run of a realm with its clients is a run of each part, and what passes between them passes in order
    (\<open>System_Props\<close>); so what a request returns is tied to what the realm recorded, and what a client receives to what another
    one sent, over any mixture of pipes, JSON and msgpack.  The same runs exist with bytes under way as with messages,
    as long as every message is one its connection can carry (\<open>Wired\<close>).  A run of a router is a run of each of its
    realms, and nothing crosses from one to another (\<open>Router_Steps\<close>).
  \<^item> Bounds.  The identifiers a realm allots are below 2 to the 53rd (\<open>Realm_Answers\<close>); the alarm's time fits in 64 bits up
    to a number of seconds that is given (\<open>Programs_Props\<close>).
  \<^item> From end to end.  Tickets and the example's challenge (\<open>cr_handshake\<close> in \<open>Handshake\<close>, for any method and
    transport), subscriptions and calls (\<open>Client_Props\<close>), a websocket connection (\<open>Websocket_Peer\<close>), a line typed in one chat
    window and shown in another (\<open>Chat\<close>).

  \<^bold>\<open>Interfaces.\<close>  \<open>session_table\<close> is provided by the broker and, as \<open>unique_uri_table\<close>, by the dealer;
  \<open>simulation\<close> by broker, dealer and realm, and by the system of frames; \<open>link\<close>, what clients and realms rely on of what is
  between them, by local pipes and by websockets with either serializer; \<open>determined\<close> by the broker's specification;
  \<open>wire_codec\<close> by JSON and msgpack;
  \<open>message_queue\<close> by the two directions of a local pipe and by those between a realm and each of its clients; \<open>cr_handshake\<close> by the tickets and by the example's method over JSON.

  \<^bold>\<open>Bounds.\<close>  No definition takes fuel: loops over maps and slices are recursions over the list visited, and reading
  loops are recursions over what is read.  Unbounded behaviour is in the step relations, whose theorems hold for
  runs of any length.  Capacities are those of the code: ten messages for a local pipe, one for a listener.

  \<^bold>\<open>Not modelled.\<close>  Log output; the clock (a time-out is an outcome) and the seeding of the generator;
  sockets, TLS and the HTTP upgrade; the text layer of \<open>encoding/json\<close> and the msgpack codec, which are
  arguments with the values they keep as hypotheses; floating-point numbers that are not finite; writing to the channel
  \<open>ReceiveDone\<close>; \<open>getTestPeer\<close>, a helper of the tests; data races on the fields \<open>closed\<close>; \<open>flag.Parse\<close>,
  \<open>ListenAndServe\<close> and the terminal, which are arguments of the main functions; the code under \<^verbatim>\<open>vendor\<close>.
\<close>

end
